(* ===== verification/Prelude.thy ===== *)
theory Prelude
  imports Main "HOL-Library.Char_ord" "HOL-Library.List_Lexorder"
begin

section \<open>Byte strings, conversions and ordered maps\<close>

text \<open>
  What the components share.  A \<open>std::string\<close> is a list of bytes (\<open>char\<close>, 8 bits);
  the searches, conversions and classifications below are the functions of the C++
  standard library the sources call (\<open>std::find\<close>, \<open>string::find\<close>, \<open>tolower\<close>,
  \<open>isspace\<close>, \<open>to_string\<close>, \<open>from_chars\<close>, \<open>stoi\<close>), in the C locale.
  A \<open>std::map\<close> that is iterated is a list of pairs in ascending key order; a map that
  is only looked up is a partial function.  A call that may throw or abort returns
  an \<open>outcome\<close>.
\<close>

named_theorems str_simps \<open>facts about byte strings and the searches in them\<close>

type_synonym bytes = "char list"

subsection \<open>Results of calls\<close>

text \<open>
  \<open>Throw\<close> is a C++ exception; \<open>Crash\<close> ends the process (a failed \<open>assert\<close>, a
  call through a null pointer, an access outside an array) or never comes back (a wait nobody ends).
\<close>

datatype fault = AssertFailed | NullDeref | OutOfBounds | Blocked

datatype (thrown: 'e, result: 'a) outcome = Ok 'a | Throw 'e | Crash fault

subsection \<open>Searching\<close>

definition find_char :: "char \<Rightarrow> bytes \<Rightarrow> nat" where
  \<comment> \<open>\<open>std::find(begin, end, c) - begin\<close>: the length when absent\<close>
  "find_char c s = length (takeWhile (\<lambda>x. x \<noteq> c) s)"

definition str_find_from :: "char \<Rightarrow> nat \<Rightarrow> bytes \<Rightarrow> nat option" where
  \<comment> \<open>\<open>s.find(c, pos)\<close>, \<open>None\<close> for \<open>npos\<close>\<close>
  "str_find_from c pos s =
     (if find_char c (drop pos s) < length (drop pos s)
      then Some (pos + find_char c (drop pos s)) else None)"

fun str_find :: "bytes \<Rightarrow> bytes \<Rightarrow> nat option" where
  \<comment> \<open>position of the first occurrence of \<open>p\<close>: \<open>s.find(p)\<close>, \<open>std::search\<close>\<close>
  "str_find p [] = (if p = [] then Some 0 else None)"
| "str_find p (c # s) =
     (if take (length p) (c # s) = p then Some 0 else map_option Suc (str_find p s))"

definition substr :: "nat \<Rightarrow> nat \<Rightarrow> bytes \<Rightarrow> bytes" where
  "substr pos n s = take n (drop pos s)"

definition starts_with :: "bytes \<Rightarrow> bytes \<Rightarrow> bool" where
  \<comment> \<open>\<open>s.rfind(p, 0) == 0\<close>\<close>
  "starts_with p s \<longleftrightarrow> take (length p) s = p"

lemma find_char_le [simp]: "find_char c s \<le> length s"
  by (simp add: find_char_def length_takeWhile_le)

lemma find_char_less_iff [str_simps]: "find_char c s < length s \<longleftrightarrow> c \<in> set s"
  by (induction s) (auto simp: find_char_def)

lemma find_char_eq_length_iff [str_simps]: "find_char c s = length s \<longleftrightarrow> c \<notin> set s"
  by (induction s) (auto simp: find_char_def)

lemma find_char_append [str_simps]:
  "c \<notin> set a \<Longrightarrow> find_char c (a @ c # b) = length a"
  by (induction a) (auto simp: find_char_def)

lemma take_find_char: "take (find_char c s) s = takeWhile (\<lambda>x. x \<noteq> c) s"
  by (simp add: find_char_def takeWhile_eq_take [symmetric])

lemma drop_find_char: "drop (find_char c s) s = dropWhile (\<lambda>x. x \<noteq> c) s"
  by (simp add: find_char_def dropWhile_eq_drop [symmetric])

lemma takeWhile_until [str_simps]: "c \<notin> set a \<Longrightarrow> takeWhile (\<lambda>x. x \<noteq> c) (a @ c # b) = a"
  by (induction a) auto

lemma dropWhile_until [str_simps]: "c \<notin> set a \<Longrightarrow> dropWhile (\<lambda>x. x \<noteq> c) (a @ c # b) = c # b"
  by (induction a) auto

lemma take_prefix_append:
  assumes "take (length p) s = p"
  shows "take (length p) (s @ t) = p"
proof -
  have "length p \<le> length s" by (metis assms length_take min.cobounded1)
  with assms show ?thesis by simp
qed

lemma str_find_bound: "str_find p s = Some i \<Longrightarrow> i + length p \<le> length s"
proof (induction s arbitrary: i)
  case (Cons c s)
  show ?case
  proof (cases "take (length p) (c # s) = p")
    case True
    then have "length p \<le> length (c # s)"
      by (metis length_take min.cobounded1)
    with True Cons.prems show ?thesis by simp
  next
    case False
    then obtain j where "str_find p s = Some j" "i = Suc j"
      using Cons.prems by auto
    with Cons.IH show ?thesis by fastforce
  qed
qed (auto split: if_splits)

lemma str_find_append:
  "str_find p s = Some i \<Longrightarrow> str_find p (s @ t) = Some i"
proof (induction s arbitrary: i)
  case Nil
  then have "p = []" by (auto split: if_splits)
  then show ?case using Nil by (cases t) auto
next
  case (Cons c s)
  show ?case
  proof (cases "take (length p) (c # s) = p")
    case True
    from take_prefix_append [OF this] have "take (length p) ((c # s) @ t) = p" .
    with True Cons.prems show ?thesis by simp
  next
    case False
    then obtain j where j: "str_find p s = Some j" "i = Suc j"
      using Cons.prems by auto
    then have "length p \<le> length (c # s)" using str_find_bound [of p s j] by simp
    then have "take (length p) ((c # s) @ t) = take (length p) (c # s)"
      by (simp only: take_append) simp
    with False j Cons.IH [of j] show ?thesis by simp
  qed
qed

lemma str_find_at: "str_find p s = Some i \<Longrightarrow> take (length p) (drop i s) = p"
  by (induction s arbitrary: i) (auto split: if_splits)

subsection \<open>Splitting and joining\<close>

fun split_on :: "char \<Rightarrow> bytes \<Rightarrow> bytes list" where
  "split_on c [] = [[]]"
| "split_on c (x # xs) =
     (if x = c then [] # split_on c xs
      else (case split_on c xs of [] \<Rightarrow> [[x]] | y # ys \<Rightarrow> (x # y) # ys))"

fun intercalate :: "bytes \<Rightarrow> bytes list \<Rightarrow> bytes" where
  "intercalate sep [] = []"
| "intercalate sep [x] = x"
| "intercalate sep (x # y # zs) = x @ sep @ intercalate sep (y # zs)"

lemma split_on_absent [str_simps]: "c \<notin> set s \<Longrightarrow> split_on c s = [s]"
  by (induction s) auto

lemma split_on_append [str_simps]:
  "c \<notin> set a \<Longrightarrow> split_on c (a @ c # b) = a # split_on c b"
  by (induction a) auto

lemma split_on_intercalate:
  "xs \<noteq> [] \<Longrightarrow> \<forall>x \<in> set xs. c \<notin> set x \<Longrightarrow> split_on c (intercalate [c] xs) = xs"
  by (induction "[c]" xs rule: intercalate.induct) (auto simp: str_simps)

subsection \<open>Character classes and case\<close>

definition tolower_c :: "char \<Rightarrow> char" where
  "tolower_c c =
     (if 65 \<le> (of_char c :: nat) \<and> (of_char c :: nat) \<le> 90
      then char_of ((of_char c :: nat) + 32) else c)"

definition to_lower :: "bytes \<Rightarrow> bytes" where
  "to_lower s = map tolower_c s"

definition isspace_c :: "char \<Rightarrow> bool" where
  "isspace_c c \<longleftrightarrow> (of_char c :: nat) = 32 \<or> (9 \<le> (of_char c :: nat) \<and> (of_char c :: nat) \<le> 13)"

definition trim_left :: "bytes \<Rightarrow> bytes" where
  "trim_left s = dropWhile isspace_c s"

definition trim_right :: "bytes \<Rightarrow> bytes" where
  "trim_right s = rev (dropWhile isspace_c (rev s))"

lemma of_char_less_256: "(of_char c :: nat) < 256"
  by (cases c) (simp add: horner_sum_simps)

lemmas lower_eval = to_lower_def tolower_c_def char_of_def bit_0
  \<comment> \<open>evaluate \<open>to_lower\<close> at a literal\<close>

lemma tolower_c_idem [simp]: "tolower_c (tolower_c c) = tolower_c c"
proof -
  have "(of_char (char_of ((of_char c :: nat) + 32) :: char) :: nat) = of_char c + 32"
    if "(of_char c :: nat) \<le> 90"
    using that by (simp add: of_char_mod_256)
  then show ?thesis by (auto simp: tolower_c_def)
qed

lemma to_lower_idem [simp]: "to_lower (to_lower s) = to_lower s"
  by (simp add: to_lower_def comp_def)

lemma length_to_lower [simp]: "length (to_lower s) = length s"
  by (simp add: to_lower_def)


subsection \<open>Numbers as text\<close>

definition is_digit :: "char \<Rightarrow> bool" where
  "is_digit c \<longleftrightarrow> 48 \<le> (of_char c :: nat) \<and> (of_char c :: nat) \<le> 57"

definition digit_val :: "char \<Rightarrow> nat" where
  "digit_val c = (of_char c :: nat) - 48"

definition digit_char :: "nat \<Rightarrow> char" where
  "digit_char d = char_of (48 + d)"

definition hex_digit :: "nat \<Rightarrow> char" where
  \<comment> \<open>\<open>std::hex\<close> of 0 to 15\<close>
  "hex_digit d = (if d < 10 then digit_char d else char_of (87 + d))"

fun nat_to_dec :: "nat \<Rightarrow> bytes" where
  \<comment> \<open>\<open>std::to_string\<close> of an unsigned value\<close>
  "nat_to_dec n =
     (if n < 10 then [digit_char n] else nat_to_dec (n div 10) @ [digit_char (n mod 10)])"

declare nat_to_dec.simps [simp del]

definition int_to_dec :: "int \<Rightarrow> bytes" where
  \<comment> \<open>\<open>std::to_string\<close> of a signed value\<close>
  "int_to_dec i = (if i < 0 then CHR ''-'' # nat_to_dec (nat (- i)) else nat_to_dec (nat i))"

definition dec_value :: "bytes \<Rightarrow> nat" where
  "dec_value s = foldl (\<lambda>a c. 10 * a + digit_val c) 0 s"

datatype errc = errc_ok | invalid_argument | result_out_of_range

definition from_chars_u64 :: "bytes \<Rightarrow> nat \<times> nat \<times> errc" where
  \<comment> \<open>\<open>std::from_chars\<close> into a \<open>uint64_t\<close> that was 0 before: the value, the offset of
    the returned \<open>ptr\<close>, the error code\<close>
  "from_chars_u64 s =
     (let ds = takeWhile is_digit s
      in if ds = [] then (0, 0, invalid_argument)
         else if 2 ^ 64 \<le> dec_value ds then (0, length ds, result_out_of_range)
         else (dec_value ds, length ds, errc_ok))"

definition strtol_sign :: "bytes \<Rightarrow> bool \<times> bytes" where
  "strtol_sign s =
     (case s of
        [] \<Rightarrow> (False, [])
      | c # r \<Rightarrow> if c = CHR ''-'' then (True, r) else if c = CHR ''+'' then (False, r) else (False, s))"

definition stoi :: "bytes \<Rightarrow> int option" where
  \<comment> \<open>\<open>std::stoi\<close>; \<open>None\<close> where it throws (\<open>invalid_argument\<close>, \<open>out_of_range\<close>);
    characters after the digits are ignored\<close>
  "stoi s =
     (let (neg, r) = strtol_sign (trim_left s); ds = takeWhile is_digit r;
          v = (if neg then - int (dec_value ds) else int (dec_value ds))
      in if ds = [] \<or> v < - (2 ^ 31) \<or> 2 ^ 31 \<le> v then None else Some v)"

lemma of_char_digit_char: "d < 10 \<Longrightarrow> (of_char (digit_char d) :: nat) = 48 + d"
  by (simp add: digit_char_def of_char_mod_256)

lemma is_digit_digit_char [str_simps]: "d < 10 \<Longrightarrow> is_digit (digit_char d)"
  by (simp add: is_digit_def of_char_digit_char)

lemma digit_val_digit_char [str_simps]: "d < 10 \<Longrightarrow> digit_val (digit_char d) = d"
  by (simp add: digit_val_def of_char_digit_char)

lemma digit_chars:
  "digit_char 0 = CHR ''0''" "digit_char (Suc 0) = CHR ''1''" "digit_char 1 = CHR ''1''"
  "digit_char (Suc (Suc 0)) = CHR ''2''"
  "digit_char 2 = CHR ''2''" "digit_char 3 = CHR ''3''" "digit_char 4 = CHR ''4''"
  "digit_char 5 = CHR ''5''" "digit_char 6 = CHR ''6''" "digit_char 7 = CHR ''7''"
  "digit_char 8 = CHR ''8''" "digit_char 9 = CHR ''9''"
  by (simp_all add: digit_char_def char_of_def bit_0)

lemmas dec_eval = nat_to_dec.simps digit_chars \<comment> \<open>evaluate \<open>nat_to_dec\<close> at a numeral\<close>

lemma nat_to_dec_digits: "c \<in> set (nat_to_dec n) \<Longrightarrow> is_digit c"
proof (induction n rule: nat_to_dec.induct)
  case (1 n)
  then show ?case
    by (subst (asm) (2) nat_to_dec.simps) (auto simp: is_digit_digit_char split: if_splits)
qed

lemma nat_to_dec_nonempty [simp]: "nat_to_dec n \<noteq> []"
  by (subst nat_to_dec.simps) simp

lemma dec_value_nat_to_dec [str_simps]: "dec_value (nat_to_dec n) = n"
proof (induction n rule: nat_to_dec.induct)
  case (1 n)
  show ?case
  proof (cases "n < 10")
    case True
    then show ?thesis
      by (subst nat_to_dec.simps) (simp add: dec_value_def digit_val_digit_char)
  next
    case False
    have "dec_value (nat_to_dec n) = 10 * dec_value (nat_to_dec (n div 10)) + n mod 10"
      using False by (subst nat_to_dec.simps) (simp add: dec_value_def digit_val_digit_char)
    with 1 False show ?thesis by simp
  qed
qed

lemma takeWhile_digits_dec [str_simps]: "takeWhile is_digit (nat_to_dec n) = nat_to_dec n"
  by (simp add: takeWhile_eq_all_conv nat_to_dec_digits)

lemma from_chars_nat_to_dec [str_simps]:
  "n < 2 ^ 64 \<Longrightarrow> from_chars_u64 (nat_to_dec n) = (n, length (nat_to_dec n), errc_ok)"
  by (simp add: from_chars_u64_def Let_def str_simps)

lemma from_chars_complete:
  "from_chars_u64 s = (v, length s, errc_ok) \<longleftrightarrow>
     s \<noteq> [] \<and> list_all is_digit s \<and> dec_value s < 2 ^ 64 \<and> v = dec_value s"
proof (cases "list_all is_digit s")
  case True
  then have tw: "takeWhile is_digit s = s" by (simp add: list_all_iff takeWhile_eq_all_conv)
  from True show ?thesis by (auto simp: from_chars_u64_def Let_def tw)
next
  case False
  then have "length (takeWhile is_digit s) \<noteq> length s" by (induction s) auto
  with False show ?thesis by (auto simp: from_chars_u64_def Let_def)
qed

lemma from_chars_bound: "from_chars_u64 s = (v, k, e) \<Longrightarrow> v < 2 ^ 64"
  by (auto simp: from_chars_u64_def Let_def not_le split: if_splits)

lemma nat_to_dec_hd: "\<exists>c r. nat_to_dec n = c # r \<and> is_digit c"
  using nat_to_dec_digits [of _ n] by (cases "nat_to_dec n") auto

lemma trim_left_nat_to_dec: "trim_left (nat_to_dec n) = nat_to_dec n"
proof -
  obtain c r where "nat_to_dec n = c # r" "is_digit c" using nat_to_dec_hd by blast
  then show ?thesis by (auto simp: trim_left_def is_digit_def isspace_c_def)
qed

lemma strtol_sign_nat_to_dec: "strtol_sign (nat_to_dec n) = (False, nat_to_dec n)"
proof -
  obtain c r where "nat_to_dec n = c # r" "is_digit c" using nat_to_dec_hd by blast
  then show ?thesis by (auto simp: strtol_sign_def is_digit_def)
qed

lemma stoi_nat_to_dec [str_simps]: "n < 2 ^ 31 \<Longrightarrow> stoi (nat_to_dec n) = Some (int n)"
  by (simp add: stoi_def trim_left_nat_to_dec strtol_sign_nat_to_dec str_simps)

subsection \<open>Ordered maps\<close>

text \<open>A \<open>std::map\<close>: the pairs in the order an iterator visits them.\<close>

type_synonym ('k, 'v) omap = "('k \<times> 'v) list"

fun omap_set :: "'k::linorder \<Rightarrow> 'v \<Rightarrow> ('k, 'v) omap \<Rightarrow> ('k, 'v) omap" where
  \<comment> \<open>\<open>m[k] = v\<close>\<close>
  "omap_set k v [] = [(k, v)]"
| "omap_set k v ((k', v') # m) =
     (if k < k' then (k, v) # (k', v') # m
      else if k = k' then (k, v) # m else (k', v') # omap_set k v m)"

definition omap_ok :: "('k::linorder, 'v) omap \<Rightarrow> bool" where
  "omap_ok m \<longleftrightarrow> sorted_wrt (<) (map fst m)"

lemma map_of_omap_set [simp]: "map_of (omap_set k v m) = (map_of m)(k \<mapsto> v)"
  by (induction k v m rule: omap_set.induct) (auto simp: fun_eq_iff)

lemma keys_omap_set: "fst ` set (omap_set k v m) = insert k (fst ` set m)"
  by (induction k v m rule: omap_set.induct) auto

lemma omap_ok_Nil [simp]: "omap_ok []"
  by (simp add: omap_ok_def)

lemma omap_ok_set [intro]: "omap_ok m \<Longrightarrow> omap_ok (omap_set k v m)"
proof (induction k v m rule: omap_set.induct)
  case (2 k v k' v' m)
  then have "\<forall>x \<in> fst ` set (omap_set k v m). k' < x" if "k' < k"
    using that by (auto simp: omap_ok_def keys_omap_set)
  with 2 show ?case by (fastforce simp: omap_ok_def)
qed (simp add: omap_ok_def)

lemma omap_ok_distinct: "omap_ok m \<Longrightarrow> distinct (map fst m)"
  by (simp add: omap_ok_def strict_sorted_iff)

end
