(* ===== verification/Http_Request.thy ===== *)
theory Http_Request
  imports Prelude
begin

section \<open>HttpRequest\<close>

text \<open>
  \<open>HttpServer/include/http/HttpRequest.h\<close> and \<open>HttpServer/src/http/HttpRequest.cpp\<close>:
  the fields of a request and the operations the parser fills them with.  The header
  fields are a \<open>std::map\<close> that is only looked up, so they and the two
  \<open>unordered_map\<close>s are partial functions.  A range \<open>[start, end)\<close> of the buffer is
  passed as the bytes in it.
\<close>

datatype http_method = kInvalid | kGet | kPost | kHead | kPut | kDelete | kOptions

record http_request =
  req_method :: http_method
  req_version :: bytes
  req_path :: bytes
  req_pathParameters :: "bytes \<rightharpoonup> bytes"
  req_queryParameters :: "bytes \<rightharpoonup> bytes"
  req_receiveTime :: int
  req_headers :: "bytes \<rightharpoonup> bytes"
  req_content :: bytes
  req_contentLength :: nat

definition new_request :: http_request where
  "new_request =
     \<lparr>req_method = kInvalid, req_version = ''Unknown'', req_path = [], req_pathParameters = Map.empty,
      req_queryParameters = Map.empty, req_receiveTime = 0, req_headers = Map.empty,
      req_content = [], req_contentLength = 0\<rparr>"

definition setReceiveTime :: "int \<Rightarrow> http_request \<Rightarrow> http_request" where
  "setReceiveTime t r = r\<lparr>req_receiveTime := t\<rparr>"

definition method_of_name :: "bytes \<Rightarrow> http_method" where
  "method_of_name m =
     (if m = ''GET'' then kGet
      else if m = ''POST'' then kPost
      else if m = ''PUT'' then kPut
      else if m = ''DELETE'' then kDelete
      else if m = ''OPTIONS'' then kOptions
      else kInvalid)"

definition setMethod :: "bytes \<Rightarrow> http_request \<Rightarrow> fault + (bool \<times> http_request)" where
  \<comment> \<open>the \<open>assert\<close> is compiled in: the build defines no \<open>NDEBUG\<close>\<close>
  "setMethod m r =
     (if req_method r \<noteq> kInvalid then Inl AssertFailed
      else (let k = method_of_name m in Inr (k \<noteq> kInvalid, r\<lparr>req_method := k\<rparr>)))"

definition setPath :: "bytes \<Rightarrow> http_request \<Rightarrow> http_request" where
  "setPath s r = r\<lparr>req_path := s\<rparr>"

definition setPathParameters :: "bytes \<Rightarrow> bytes \<Rightarrow> http_request \<Rightarrow> http_request" where
  "setPathParameters key v r = r\<lparr>req_pathParameters := (req_pathParameters r)(key \<mapsto> v)\<rparr>"

definition getPathParameters :: "bytes \<Rightarrow> http_request \<Rightarrow> bytes" where
  "getPathParameters key r = (case req_pathParameters r key of Some v \<Rightarrow> v | None \<Rightarrow> [])"

definition getQueryParameters :: "bytes \<Rightarrow> http_request \<Rightarrow> bytes" where
  "getQueryParameters key r = (case req_queryParameters r key of Some v \<Rightarrow> v | None \<Rightarrow> [])"

subsection \<open>The query string\<close>

text \<open>
  \<open>setQueryParameters\<close> walks over the string with \<open>find('&', prev)\<close>; \<open>query_pair\<close> is the
  body that both the loop and the code after it run on one \<open>key=value\<close> piece.
\<close>

definition query_pair :: "bytes \<Rightarrow> (bytes \<rightharpoonup> bytes) \<Rightarrow> (bytes \<rightharpoonup> bytes)" where
  "query_pair pair m =
     (case str_find_from (CHR ''='') 0 pair of
        Some equalPos \<Rightarrow> m(take equalPos pair \<mapsto> drop (equalPos + 1) pair)
      | None \<Rightarrow> m)"

function query_loop :: "bytes \<Rightarrow> nat \<Rightarrow> (bytes \<rightharpoonup> bytes) \<Rightarrow> (bytes \<rightharpoonup> bytes)" where
  "query_loop argumentStr prev m =
     (case str_find_from (CHR ''&'') prev argumentStr of
        Some pos \<Rightarrow>
          query_loop argumentStr (pos + 1) (query_pair (substr prev (pos - prev) argumentStr) m)
      | None \<Rightarrow> query_pair (drop prev argumentStr) m)"
  by pat_completeness auto
termination
proof (relation "measure (\<lambda>(s, prev, m). Suc (length s) - prev)", goal_cases)
  case (2 s prev m pos)
  then show ?case by (auto simp: str_find_from_def split: if_splits)
qed simp

declare query_loop.simps [simp del]

definition setQueryParameters :: "bytes \<Rightarrow> http_request \<Rightarrow> http_request" where
  "setQueryParameters s r = r\<lparr>req_queryParameters := query_loop s 0 (req_queryParameters r)\<rparr>"

subsection \<open>Header fields, body, swap\<close>

definition addHeader_req :: "bytes \<Rightarrow> nat \<Rightarrow> http_request \<Rightarrow> http_request" where
  \<comment> \<open>\<open>addHeader(start, colon, end)\<close>: \<open>line\<close> is \<open>[start, end)\<close>, \<open>colon\<close> an offset in it\<close>
  "addHeader_req line colon r =
     (let key = to_lower (take colon line);
          v = trim_right (trim_left (drop (colon + 1) line))
      in r\<lparr>req_headers := (req_headers r)(key \<mapsto> v)\<rparr>)"

definition getHeader :: "bytes \<Rightarrow> http_request \<Rightarrow> bytes" where
  "getHeader field r = (case req_headers r (to_lower field) of Some v \<Rightarrow> v | None \<Rightarrow> [])"

definition setVersion_req :: "bytes \<Rightarrow> http_request \<Rightarrow> http_request" where
  "setVersion_req v r = r\<lparr>req_version := v\<rparr>"

definition setBody_req :: "bytes \<Rightarrow> http_request \<Rightarrow> http_request" where
  "setBody_req body r = r\<lparr>req_content := body\<rparr>"

definition setContentLength_req :: "nat \<Rightarrow> http_request \<Rightarrow> http_request" where
  "setContentLength_req n r = r\<lparr>req_contentLength := n\<rparr>"

definition swap_requests :: "http_request \<Rightarrow> http_request \<Rightarrow> http_request \<times> http_request" where
  \<comment> \<open>\<open>this->swap(that)\<close>, field by field: the new \<open>*this\<close> and the new \<open>that\<close>\<close>
  "swap_requests this that =
     (this\<lparr>req_method := req_method that, req_path := req_path that, req_pathParameters := req_pathParameters that,
       req_queryParameters := req_queryParameters that, req_version := req_version that,
       req_headers := req_headers that, req_receiveTime := req_receiveTime that,
       req_content := req_content that, req_contentLength := req_contentLength that\<rparr>,
      that\<lparr>req_method := req_method this, req_path := req_path this, req_pathParameters := req_pathParameters this,
       req_queryParameters := req_queryParameters this, req_version := req_version this,
       req_headers := req_headers this, req_receiveTime := req_receiveTime this,
       req_content := req_content this, req_contentLength := req_contentLength this\<rparr>)"

lemma swap_requests_exchange: "swap_requests a b = (b, a)"
  by (simp add: swap_requests_def)


subsection \<open>What the operations do\<close>

lemma query_pair_split [simp]:
  "CHR ''='' \<notin> set k \<Longrightarrow> query_pair (k @ CHR ''='' # v) m = m(k \<mapsto> v)"
  by (simp add: query_pair_def str_find_from_def str_simps)

lemma query_pair_other [simp]: "CHR ''='' \<notin> set p \<Longrightarrow> query_pair p m = m"
  by (simp add: query_pair_def str_find_from_def str_simps)

lemma query_loop_split:
  "prev \<le> length s \<Longrightarrow>
   query_loop s prev m = fold query_pair (split_on (CHR ''&'') (drop prev s)) m"
proof (induction s prev m rule: query_loop.induct)
  case (1 s prev m)
  let ?r = "drop prev s"
  let ?n = "find_char (CHR ''&'') ?r"
  show ?case
  proof (cases "CHR ''&'' \<in> set ?r")
    case True
    then have n: "?n < length ?r" by (rule find_char_less_iff [THEN iffD2])
    have nth: "?r ! ?n = CHR ''&''"
      using nth_length_takeWhile [of "\<lambda>x. x \<noteq> CHR ''&''" ?r] n by (simp add: find_char_def)
    have "?r = take ?n ?r @ CHR ''&'' # drop (Suc ?n) ?r"
      using id_take_nth_drop [OF n] nth by simp
    moreover have "CHR ''&'' \<notin> set (take ?n ?r)"
      by (auto simp: take_find_char dest: set_takeWhileD)
    ultimately have "split_on (CHR ''&'') ?r = take ?n ?r # split_on (CHR ''&'') (drop (Suc ?n) ?r)"
      using split_on_append by metis
    moreover have "drop (Suc ?n) ?r = drop (prev + ?n + 1) s" by (simp add: add.commute)
    moreover have "str_find_from (CHR ''&'') prev s = Some (prev + ?n)"
      using n by (simp add: str_find_from_def)
    ultimately show ?thesis
      using "1.IH" [of "prev + ?n"] n by (simp add: query_loop.simps [of s prev m] substr_def)
  next
    case False
    then have "str_find_from (CHR ''&'') prev s = None"
      using find_char_less_iff [of "CHR ''&''" ?r] by (simp add: str_find_from_def)
    with False show ?thesis
      by (simp add: query_loop.simps [of s prev m] split_on_absent)
  qed
qed

lemma fold_query_pairs:
  "\<forall>(k, v) \<in> set kvs. CHR ''='' \<notin> set k \<Longrightarrow>
   fold query_pair (map (\<lambda>(k, v). k @ CHR ''='' # v) kvs) m = m ++ map_of (rev kvs)"
  by (induction kvs arbitrary: m) auto

lemma getHeader_addHeader:
  assumes "CHR '':'' \<notin> set name"
  shows "getHeader f (addHeader_req (name @ CHR '':'' # v) (length name) r) =
           (if to_lower f = to_lower name then trim_right (trim_left v) else getHeader f r)"
  by (simp add: getHeader_def addHeader_req_def Let_def)

end
