(* ===== verification/Muduo_Buffer.thy ===== *)
theory Muduo_Buffer
  imports Prelude
begin

section \<open>The interface of the network buffer\<close>

text \<open>
  \<open>muduo::net::Buffer\<close> is not part of this repository.  The components that use it take
  its operations as an argument: a record of functions over an unknown buffer type
  \<open>'b\<close>.  What they rely on is \<open>buffer_laws\<close>, the documented behaviour of the class:
  a queue of readable bytes (\<open>peek()\<close>, \<open>readableBytes()\<close>) with the position of the first
  carriage-return line-feed pair, removal from the front and append at the back.
  \<open>string_buffer\<close> is the buffer that is just its readable bytes; every lawful buffer
  behaves like it, which is what the refinement lemmas of the users say.
\<close>

text \<open>
  What the program does to a \<open>TcpConnection\<close>, in order.  \<open>send\<close> queues bytes for the peer,
  \<open>shutdown\<close> closes the writing side once they are out; input may still arrive.
\<close>

datatype conn_action = ConnSend bytes | ConnShutdown

abbreviation CR :: char where "CR \<equiv> CHR 0x0D"
abbreviation LF :: char where "LF \<equiv> CHR 0x0A"

abbreviation crlf :: bytes where "crlf \<equiv> [CR, LF]"

record 'b buffer_ops =
  readable :: "'b \<Rightarrow> bytes"          \<comment> \<open>the bytes at \<open>peek()\<close>, \<open>readableBytes()\<close> of them\<close>
  findCRLF :: "'b \<Rightarrow> nat option"     \<comment> \<open>offset from \<open>peek()\<close>, \<open>None\<close> for a null pointer\<close>
  retrieve :: "nat \<Rightarrow> 'b \<Rightarrow> 'b"      \<comment> \<open>\<open>retrieve(n)\<close>; \<open>retrieveUntil(p)\<close> with \<open>p = peek() + n\<close>\<close>
  append_buf :: "'b \<Rightarrow> bytes \<Rightarrow> 'b"
  empty_buf :: 'b

definition buffer_laws :: "'b buffer_ops \<Rightarrow> bool" where
  "buffer_laws B \<longleftrightarrow>
     (\<forall>b. findCRLF B b = str_find crlf (readable B b)) \<and>
     (\<forall>n b. n \<le> length (readable B b) \<longrightarrow> readable B (retrieve B n b) = drop n (readable B b)) \<and>
     (\<forall>b s. readable B (append_buf B b s) = readable B b @ s) \<and>
     readable B (empty_buf B) = []"

definition string_buffer :: "bytes buffer_ops" where
  "string_buffer =
     \<lparr>readable = \<lambda>b. b, findCRLF = str_find crlf, retrieve = drop,
      append_buf = (@), empty_buf = []\<rparr>"

lemma buffer_laws_string [simp]: "buffer_laws string_buffer"
  by (simp add: buffer_laws_def string_buffer_def)

lemma string_buffer_simps [simp]:
  "readable string_buffer = (\<lambda>b. b)" "findCRLF string_buffer = str_find crlf"
  "retrieve string_buffer = drop" "append_buf string_buffer = (@)" "empty_buf string_buffer = []"
  by (simp_all add: string_buffer_def)

lemma findCRLF_law: "buffer_laws B \<Longrightarrow> findCRLF B b = str_find crlf (readable B b)"
  and retrieve_law:
    "buffer_laws B \<Longrightarrow> n \<le> length (readable B b) \<Longrightarrow>
     readable B (retrieve B n b) = drop n (readable B b)"
  and append_law: "buffer_laws B \<Longrightarrow> readable B (append_buf B b s) = readable B b @ s"
  and empty_law: "buffer_laws B \<Longrightarrow> readable B (empty_buf B) = []"
  by (auto simp: buffer_laws_def)

lemmas buffer_law_simps = findCRLF_law retrieve_law append_law empty_law

lemma crlf_bound: "str_find crlf s = Some i \<Longrightarrow> i + 2 \<le> length s"
  using str_find_bound [of crlf s i] by simp

end
