(* ===== verification/Http_Context.thy ===== *)
theory Http_Context
  imports Http_Request Muduo_Buffer
begin

section \<open>HttpContext: the incremental request parser\<close>

text \<open>
  \<open>HttpServer/include/http/HttpContext.h\<close> and \<open>HttpServer/src/http/HttpContext.cpp\<close>.
  One turn of the \<open>while (hasMore)\<close> loop of \<open>parseRequest\<close> is \<open>parse_iter\<close>; the loop
  itself is \<open>parse_loop\<close>, which returns \<open>None\<close> when it never ends.  The buffer is the
  interface of theory \<open>Muduo_Buffer\<close>.
\<close>

datatype parse_state = kExpectRequestLine | kExpectHeaders | kExpectBody | kGotAll

record http_context =
  ctx_state :: parse_state
  ctx_request :: http_request
  ctx_maxBodyBytes :: nat
  ctx_parseErrorStatus :: nat

definition new_context :: "nat \<Rightarrow> http_context" where
  "new_context maxBodyBytes =
     \<lparr>ctx_state = kExpectRequestLine, ctx_request = new_request,
      ctx_maxBodyBytes = maxBodyBytes, ctx_parseErrorStatus = 400\<rparr>"

definition gotAll :: "http_context \<Rightarrow> bool" where
  "gotAll c \<longleftrightarrow> ctx_state c = kGotAll"

definition reset_context :: "http_context \<Rightarrow> http_context" where
  "reset_context c =
     c\<lparr>ctx_state := kExpectRequestLine, ctx_parseErrorStatus := 400,
       ctx_request := fst (swap_requests (ctx_request c) new_request)\<rparr>"

subsection \<open>The request line\<close>

definition version_of_suffix :: "bytes \<Rightarrow> bytes option" where
  \<comment> \<open>the text after the second space: 8 bytes, \<open>HTTP/1.\<close> and then 1 or 0\<close>
  "version_of_suffix v =
     (if length v = 8 \<and> take 7 v = ''HTTP/1.''
      then (if last v = CHR ''1'' then Some ''HTTP/1.1''
            else if last v = CHR ''0'' then Some ''HTTP/1.0'' else None)
      else None)"

definition set_target :: "bytes \<Rightarrow> http_request \<Rightarrow> http_request" where
  "set_target target r =
     (let argumentStart = find_char (CHR ''?'') target
      in if argumentStart \<noteq> length target
         then setQueryParameters (drop (argumentStart + 1) target)
                (setPath (take argumentStart target) r)
         else setPath target r)"

definition processRequestLine ::
    "bytes \<Rightarrow> http_request \<Rightarrow> fault + (bool \<times> http_request)" where
  "processRequestLine line r =
     (let space = find_char (CHR '' '') line
      in if space = length line then Inr (False, r)
         else (case setMethod (take space line) r of
             Inl f \<Rightarrow> Inl f
           | Inr (False, r1) \<Rightarrow> Inr (False, r1)
           | Inr (True, r1) \<Rightarrow>
               (let rest = drop (space + 1) line; space2 = find_char (CHR '' '') rest
                in if space2 = length rest then Inr (False, r1)
                   else (let r2 = set_target (take space2 rest) r1
                         in (case version_of_suffix (drop (space2 + 1) rest) of
                               Some v \<Rightarrow> Inr (True, setVersion_req v r2)
                             | None \<Rightarrow> Inr (False, r2))))))"

subsection \<open>The end of the header block\<close>

definition content_length_step :: "http_context \<Rightarrow> bool \<times> bool \<times> http_context" where
  \<comment> \<open>the empty line: \<open>(ok, hasMore, context)\<close>\<close>
  "content_length_step c =
     (let r = ctx_request c
      in if req_method r = kPost \<or> req_method r = kPut
         then (let contentLength = getHeader ''Content-Length'' r
               in if contentLength \<noteq> []
                  then (let (len, ptr, ec) = from_chars_u64 contentLength
                        in if ec \<noteq> errc_ok \<or> ptr \<noteq> length contentLength
                           then (False, False, c)
                           else if ctx_maxBodyBytes c < len
                           then (False, False, c\<lparr>ctx_parseErrorStatus := 413\<rparr>)
                           else if 0 < len
                           then (True, True,
                                 c\<lparr>ctx_request := setContentLength_req len r,
                                   ctx_state := kExpectBody\<rparr>)
                           else (True, False,
                                 c\<lparr>ctx_request := setContentLength_req len r,
                                   ctx_state := kGotAll\<rparr>))
                  else (False, False, c))
         else (True, False, c\<lparr>ctx_state := kGotAll\<rparr>))"

definition header_line_step :: "bytes \<Rightarrow> http_context \<Rightarrow> bool \<times> bool \<times> http_context" where
  "header_line_step line c =
     (let colon = find_char (CHR '':'') line
      in if colon < length line
         then (True, True, c\<lparr>ctx_request := addHeader_req line colon (ctx_request c)\<rparr>)
         else if line = [] then content_length_step c
         else (False, False, c))"

subsection \<open>One turn of the loop\<close>

datatype 'b turn =
  Again http_context 'b                \<comment> \<open>\<open>hasMore\<close> still holds\<close>
| Leave bool http_context 'b           \<comment> \<open>the loop ends and the call returns the flag\<close>
| Abort fault

definition parse_iter ::
    "'b buffer_ops \<Rightarrow> int \<Rightarrow> http_context \<Rightarrow> 'b \<Rightarrow> 'b turn" where
  "parse_iter B receiveTime c b =
     (case ctx_state c of
        kExpectRequestLine \<Rightarrow>
          (case findCRLF B b of
             None \<Rightarrow> Leave True c b
           | Some n \<Rightarrow>
               (case processRequestLine (take n (readable B b)) (ctx_request c) of
                  Inl f \<Rightarrow> Abort f
                | Inr (True, r) \<Rightarrow>
                    Again (c\<lparr>ctx_request := setReceiveTime receiveTime r,
                             ctx_state := kExpectHeaders\<rparr>) (retrieve B (n + 2) b)
                | Inr (False, r) \<Rightarrow> Leave False (c\<lparr>ctx_request := r\<rparr>) b))
      | kExpectHeaders \<Rightarrow>
          (case findCRLF B b of
             None \<Rightarrow> Leave True c b
           | Some n \<Rightarrow>
               (let (ok, hasMore, c') = header_line_step (take n (readable B b)) c;
                    b' = retrieve B (n + 2) b
                in if hasMore then Again c' b' else Leave ok c' b'))
      | kExpectBody \<Rightarrow>
          (let n = req_contentLength (ctx_request c)
           in if length (readable B b) < n then Leave True c b
              else Leave True
                     (c\<lparr>ctx_request := setBody_req (take n (readable B b)) (ctx_request c),
                        ctx_state := kGotAll\<rparr>)
                     (retrieve B n b))
      | kGotAll \<Rightarrow> Again c b)"

partial_function (option) parse_loop ::
    "'b buffer_ops \<Rightarrow> int \<Rightarrow> http_context \<Rightarrow> 'b
      \<Rightarrow> (fault + bool \<times> http_context \<times> 'b) option" where
  "parse_loop B receiveTime c b =
     (case parse_iter B receiveTime c b of
        Again c' b' \<Rightarrow> parse_loop B receiveTime c' b'
      | Leave ok c' b' \<Rightarrow> Some (Inr (ok, c', b'))
      | Abort f \<Rightarrow> Some (Inl f))"

definition parseRequest ::
    "'b buffer_ops \<Rightarrow> int \<Rightarrow> http_context \<Rightarrow> 'b
      \<Rightarrow> (fault + bool \<times> http_context \<times> 'b) option" where
  "parseRequest B receiveTime c b =
     parse_loop B receiveTime (c\<lparr>ctx_parseErrorStatus := 400\<rparr>) b"


subsection \<open>The loop over a lawful buffer\<close>

lemma turn_shrinks:
  assumes "buffer_laws B" "ctx_state c \<noteq> kGotAll" "parse_iter B t c b = Again c' b'"
  shows "ctx_state c' \<noteq> kGotAll" "length (readable B b') < length (readable B b)"
  using assms
  by (auto simp: parse_iter_def buffer_law_simps header_line_step_def content_length_step_def
      Let_def drop_eq_Nil dest: crlf_bound split: parse_state.splits option.splits sum.splits
      prod.splits bool.splits if_splits)

theorem parse_loop_returns:
  assumes "buffer_laws B" "ctx_state c \<noteq> kGotAll"
  shows "\<exists>r. parse_loop B t c b = Some r"
  using assms(2)
proof (induction "length (readable B b)" arbitrary: c b rule: less_induct)
  case less
  show ?case
  proof (cases "parse_iter B t c b")
    case (Again c' b')
    with turn_shrinks [OF assms(1) less.prems Again] less.hyps [of b' c']
    show ?thesis by (simp add: parse_loop.simps [of B t c b])
  qed (simp_all add: parse_loop.simps [of B t c b])
qed

lemma parse_loop_diverges: "ctx_state c = kGotAll \<Longrightarrow> parse_loop B t c b = None"
proof (rule ccontr)
  assume "ctx_state c = kGotAll" "parse_loop B t c b \<noteq> None"
  then obtain r where r: "parse_loop B t c b = Some r" by blast
  have "ctx_state c \<noteq> kGotAll"
    by (rule parse_loop.raw_induct [where P = "\<lambda>B t c b r. ctx_state c \<noteq> kGotAll", OF _ r])
      (auto simp: parse_iter_def split: turn.splits parse_state.splits)
  then show False using \<open>ctx_state c = kGotAll\<close> by simp
qed


lemma parse_loop_Some_state: "parse_loop B t c b = Some r \<Longrightarrow> ctx_state c \<noteq> kGotAll"
  by (auto simp: parse_loop_diverges)

subsection \<open>Every lawful buffer behaves like its readable bytes\<close>

definition view_result ::
    "'b buffer_ops \<Rightarrow> (fault + bool \<times> http_context \<times> 'b) option
      \<Rightarrow> (fault + bool \<times> http_context \<times> bytes) option" where
  "view_result B = map_option (map_sum id (map_prod id (map_prod id (readable B))))"

abbreviation parse_str ::
    "int \<Rightarrow> http_context \<Rightarrow> bytes \<Rightarrow> (fault + bool \<times> http_context \<times> bytes) option" where
  "parse_str t c s \<equiv> parse_loop string_buffer t c s"

lemma turn_refines:
  assumes "buffer_laws B"
  shows "map_turn (readable B) (parse_iter B t c b) = parse_iter string_buffer t c (readable B b)"
  using assms
  by (auto simp: parse_iter_def buffer_law_simps Let_def dest: crlf_bound
      split: parse_state.splits option.splits sum.splits prod.splits bool.splits)

lemma parse_loop_refines:
  assumes "buffer_laws B"
  shows "view_result B (parse_loop B t c b) = parse_str t c (readable B b)"
proof (cases "ctx_state c = kGotAll")
  case True
  then show ?thesis by (simp add: parse_loop_diverges view_result_def)
next
  case False
  then show ?thesis
  proof (induction "length (readable B b)" arbitrary: c b rule: less_induct)
    case less
    note step = turn_refines [OF assms, of t c b, symmetric]
    show ?case
    proof (cases "parse_iter B t c b")
      case (Again c' b')
      with turn_shrinks [OF assms less.prems Again] less.hyps [of b' c'] step
      show ?thesis
        by (simp add: parse_loop.simps [of B t c b] parse_loop.simps [of string_buffer t c])
    qed (use step in \<open>simp_all add: view_result_def parse_loop.simps [of B t c b]
           parse_loop.simps [of string_buffer t c]\<close>)
  qed
qed

subsection \<open>Bytes that arrive later\<close>

text \<open>A turn that did something does the same when more bytes follow.\<close>

lemma turn_append:
  assumes "ctx_state c \<noteq> kGotAll"
  shows "parse_iter string_buffer t c s = Again c' s' \<Longrightarrow>
           parse_iter string_buffer t c (s @ u) = Again c' (s' @ u)"
    and "parse_iter string_buffer t c s = Abort f \<Longrightarrow>
           parse_iter string_buffer t c (s @ u) = Abort f"
    and "parse_iter string_buffer t c s = Leave ok c' s' \<Longrightarrow> \<not> ok \<or> gotAll c' \<Longrightarrow>
           parse_iter string_buffer t c (s @ u) = Leave ok c' (s' @ u)"
  using assms
  by (auto simp: parse_iter_def Let_def str_find_append gotAll_def dest: crlf_bound
      split: parse_state.splits option.splits sum.splits prod.splits bool.splits if_splits)

lemma turn_wait:
  "parse_iter string_buffer t c s = Leave True c' s' \<Longrightarrow> \<not> gotAll c' \<Longrightarrow> c' = c \<and> s' = s"
  by (auto simp: parse_iter_def Let_def gotAll_def header_line_step_def content_length_step_def
      split: parse_state.splits option.splits sum.splits prod.splits bool.splits if_splits)

lemma parse_append:
  assumes "parse_str t c s = Some r"
  shows "case r of
      Inl f \<Rightarrow> parse_str t c (s @ u) = Some (Inl f)
    | Inr (ok, c1, s1) \<Rightarrow>
        parse_str t c (s @ u) =
          (if ok \<and> \<not> gotAll c1 then parse_str t c1 (s1 @ u) else Some (Inr (ok, c1, s1 @ u)))"
proof -
  have "ctx_state c \<noteq> kGotAll" using assms by (rule parse_loop_Some_state)
  then show ?thesis using assms
  proof (induction "length s" arbitrary: c s rule: less_induct)
    case less
    note unf = parse_loop.simps [of string_buffer t c]
    note app = turn_append [OF less.prems(1)]
    show ?case
    proof (cases "parse_iter string_buffer t c s")
      case (Again c' s')
      then have eq: "parse_str t c (s @ u) = parse_str t c' (s' @ u)"
        by (simp add: unf app(1) [OF Again])
      from Again less.prems(2) have "parse_str t c' s' = Some r" by (simp add: unf)
      with less.hyps [of s' c'] turn_shrinks [OF buffer_laws_string less.prems(1) Again]
      show ?thesis unfolding eq by simp
    next
      case (Abort f)
      with less.prems(2) show ?thesis by (auto simp: unf app(2) [OF Abort])
    next
      case (Leave ok c' s')
      show ?thesis
      proof (cases "ok \<and> \<not> gotAll c'")
        case True
        with turn_wait [of t c s c' s'] Leave less.prems(2) show ?thesis by (auto simp: unf)
      next
        case False
        with less.prems(2) Leave show ?thesis by (auto simp: unf app(3) [OF Leave])
      qed
    qed
  qed
qed


subsection \<open>The invariant of the parser\<close>

definition line_parsed :: "http_request \<Rightarrow> bool" where
  "line_parsed r \<longleftrightarrow>
     req_method r \<noteq> kInvalid \<and> (req_version r = ''HTTP/1.1'' \<or> req_version r = ''HTTP/1.0'')"

definition ctx_inv :: "http_context \<Rightarrow> bool" where
  "ctx_inv c \<longleftrightarrow>
     (let r = ctx_request c
      in case ctx_state c of
           kExpectRequestLine \<Rightarrow> r = new_request
         | kExpectHeaders \<Rightarrow> line_parsed r \<and> req_content r = [] \<and> req_contentLength r = 0
         | kExpectBody \<Rightarrow> line_parsed r \<and> (req_method r = kPost \<or> req_method r = kPut) \<and>
             req_content r = [] \<and> 0 < req_contentLength r \<and>
             req_contentLength r \<le> ctx_maxBodyBytes c
         | kGotAll \<Rightarrow> line_parsed r \<and> length (req_content r) = req_contentLength r \<and>
             req_contentLength r \<le> ctx_maxBodyBytes c)"

lemma ctx_inv_new [simp]: "ctx_inv (new_context n)"
  by (simp add: ctx_inv_def new_context_def)

lemma reset_context_eq:
  "reset_context c = c\<lparr>ctx_state := kExpectRequestLine, ctx_parseErrorStatus := 400,
     ctx_request := new_request\<rparr>"
  by (simp add: reset_context_def swap_requests_exchange)

lemma ctx_inv_reset [simp]: "ctx_inv (reset_context c)"
  by (simp add: ctx_inv_def reset_context_eq)

lemma ctx_inv_status [simp]: "ctx_inv (c\<lparr>ctx_parseErrorStatus := n\<rparr>) = ctx_inv c"
  by (simp add: ctx_inv_def Let_def split: parse_state.split)

lemma set_target_frame [simp]:
  "req_method (set_target x r) = req_method r" "req_content (set_target x r) = req_content r"
  "req_contentLength (set_target x r) = req_contentLength r"
  "req_headers (set_target x r) = req_headers r" "req_version (set_target x r) = req_version r"
  by (simp_all add: set_target_def Let_def setPath_def setQueryParameters_def)

lemma processRequestLine_True:
  assumes "processRequestLine line r = Inr (True, r')"
  shows "req_method r = kInvalid" "line_parsed r'" "req_content r' = req_content r"
    "req_contentLength r' = req_contentLength r" "req_headers r' = req_headers r"
  using assms
  by (auto simp: processRequestLine_def Let_def setMethod_def line_parsed_def setVersion_req_def
      version_of_suffix_def split: if_splits option.splits bool.splits)

lemma processRequestLine_no_fault:
  "req_method r = kInvalid \<Longrightarrow> processRequestLine line r \<noteq> Inl f"
  by (auto simp: processRequestLine_def Let_def setMethod_def split: bool.splits option.splits)

lemma turn_max: "parse_iter B t c b = Again c' b' \<Longrightarrow> ctx_maxBodyBytes c' = ctx_maxBodyBytes c"
  "parse_iter B t c b = Leave ok c' b' \<Longrightarrow> ctx_maxBodyBytes c' = ctx_maxBodyBytes c"
  by (auto simp: parse_iter_def Let_def header_line_step_def content_length_step_def
      split: parse_state.splits option.splits sum.splits prod.splits bool.splits if_splits)

lemma header_line_step_inv:
  assumes "ctx_inv c" "ctx_state c = kExpectHeaders"
    and "header_line_step line c = (ok, hm, c')" "ok"
  shows "ctx_inv c'"
  using assms
  by (auto simp: header_line_step_def content_length_step_def Let_def ctx_inv_def line_parsed_def
      addHeader_req_def setContentLength_req_def split: if_splits prod.splits)

lemma header_line_step_more: "header_line_step line c = (ok, True, c') \<Longrightarrow> ok"
  by (auto simp: header_line_step_def content_length_step_def Let_def split: if_splits prod.splits)

lemma turn_inv:
  assumes inv: "ctx_inv c" and B: "buffer_laws B"
  shows "parse_iter B t c b = Again c' b' \<Longrightarrow> ctx_inv c'"
    and "parse_iter B t c b = Leave True c' b' \<Longrightarrow> ctx_inv c'"
    and "parse_iter B t c b \<noteq> Abort f"
proof -
  have line: "ctx_state c = kExpectRequestLine \<Longrightarrow> ctx_request c = new_request"
    using inv by (simp add: ctx_inv_def)
  have nf: "ctx_state c = kExpectRequestLine \<Longrightarrow> processRequestLine l (ctx_request c) \<noteq> Inl g" for l g
    by (rule processRequestLine_no_fault) (simp add: line new_request_def)
  show "parse_iter B t c b \<noteq> Abort f"
    using nf
    by (auto simp: parse_iter_def Let_def split: parse_state.splits option.splits sum.splits
        prod.splits bool.splits)
  have L: "ctx_inv (c\<lparr>ctx_request := setReceiveTime t r, ctx_state := kExpectHeaders\<rparr>)"
    if "ctx_state c = kExpectRequestLine" "processRequestLine l (ctx_request c) = Inr (True, r)" for l r
    using processRequestLine_True [OF that(2)] line [OF that(1)]
    by (simp add: ctx_inv_def setReceiveTime_def line_parsed_def new_request_def)
  show "parse_iter B t c b = Again c' b' \<Longrightarrow> ctx_inv c'"
    using inv L
    by (auto simp: parse_iter_def Let_def header_line_step_more
        intro: header_line_step_inv dest: header_line_step_more
        split: parse_state.splits option.splits sum.splits prod.splits bool.splits if_splits)
  have "ctx_inv (c\<lparr>ctx_request := setBody_req (take n x) (ctx_request c), ctx_state := kGotAll\<rparr>)"
    if "ctx_state c = kExpectBody" "n = req_contentLength (ctx_request c)" "n \<le> length x" for n x
    using that inv by (auto simp add: ctx_inv_def setBody_req_def line_parsed_def Let_def)
  then show "parse_iter B t c b = Leave True c' b' \<Longrightarrow> ctx_inv c'"
    using inv
    by (auto simp: parse_iter_def Let_def not_less intro: header_line_step_inv
        split: parse_state.splits option.splits sum.splits prod.splits bool.splits if_splits)
qed

lemma parse_loop_inv:
  assumes "ctx_inv c" "buffer_laws B" "ctx_state c \<noteq> kGotAll"
  shows "\<exists>ok c' b'. parse_loop B t c b = Some (Inr (ok, c', b')) \<and> (ok \<longrightarrow> ctx_inv c') \<and>
           ctx_maxBodyBytes c' = ctx_maxBodyBytes c"
  using assms(1,3)
proof (induction "length (readable B b)" arbitrary: c b rule: less_induct)
  case less
  note unf = parse_loop.simps [of B t c b]
  show ?case
  proof (cases "parse_iter B t c b")
    case (Again c' b')
    with turn_shrinks [OF assms(2) less.prems(2) Again] turn_inv(1) [OF less.prems(1) assms(2) Again]
      turn_max(1) [OF Again] less.hyps [of b' c']
    show ?thesis by (simp add: unf)
  next
    case (Leave ok c' b')
    with turn_inv(2) [OF less.prems(1) assms(2), of t b c' b'] turn_max(2) [OF Leave]
    show ?thesis by (cases ok) (auto simp add: unf)
  next
    case (Abort f)
    with turn_inv(3) [OF less.prems(1) assms(2)] show ?thesis by blast
  qed
qed


lemma turn_status:
  "parse_iter B t c b = Again c' b' \<Longrightarrow> ctx_parseErrorStatus c' = ctx_parseErrorStatus c"
  "parse_iter B t c b = Leave True c' b' \<Longrightarrow> ctx_parseErrorStatus c' = ctx_parseErrorStatus c"
  by (auto simp: parse_iter_def Let_def header_line_step_def content_length_step_def
      split: parse_state.splits option.splits sum.splits prod.splits bool.splits if_splits)

lemma parse_loop_status:
  "parse_loop B t c b = Some (Inr (True, c', b')) \<Longrightarrow> buffer_laws B \<Longrightarrow>
   ctx_parseErrorStatus c' = ctx_parseErrorStatus c"
proof (induction "length (readable B b)" arbitrary: c b rule: less_induct)
  case less
  note st = parse_loop_Some_state [OF less.prems(1)]
  note unf = parse_loop.simps [of B t c b]
  show ?case
  proof (cases "parse_iter B t c b")
    case (Again c1 b1)
    with turn_shrinks [OF less.prems(2) st Again] turn_status(1) [OF Again] less.hyps [of b1 c1]
      less.prems
    show ?thesis by (simp add: unf)
  next
    case (Leave ok c1 b1)
    with less.prems(1) turn_status(2) [of B t c b c1 b1] show ?thesis by (auto simp add: unf)
  qed (use less.prems(1) in \<open>simp add: unf\<close>)
qed

end
