(* ===== verification/Incremental_Parser.thy ===== *)
theory Incremental_Parser
  imports Http_Context
begin

section \<open>Requests that arrive in pieces\<close>

text \<open>
  A connection hands its bytes to the parser as they arrive: \<open>onMessage\<close> appends to the
  input buffer and calls \<open>parseRequest\<close> until a request is complete or refused.  \<open>feed\<close>
  is that sequence of calls.  The locale states what a resumable parser promises and
  proves once that cutting the input into pieces makes no difference; the parser of
  \<open>HttpContext\<close> is an instance.
\<close>

locale incremental_parser =
  fixes parse :: "'c \<Rightarrow> bytes \<Rightarrow> ('f + bool \<times> 'c \<times> bytes) option"
    and fin :: "'c \<Rightarrow> bool"
  assumes parse_more: "parse c s = Some r \<Longrightarrow>
      (case r of
         Inl f \<Rightarrow> parse c (s @ u) = Some (Inl f)
       | Inr (ok, c1, s1) \<Rightarrow>
           parse c (s @ u) =
             (if ok \<and> \<not> fin c1 then parse c1 (s1 @ u) else Some (Inr (ok, c1, s1 @ u))))"
begin

lemma waiting_result:
  assumes "parse c s = Some (Inr (True, c1, s1))" "\<not> fin c1"
  shows "parse c1 s1 = Some (Inr (True, c1, s1))"
  using parse_more [OF assms(1), of "[]"] assms by simp

lemma pieces_step:
  assumes "parse c s = Some r"
  shows "parse c (s @ u @ v) =
     (case r of
        Inl f \<Rightarrow> Some (Inl f)
      | Inr (ok, c1, s1) \<Rightarrow>
          if ok \<and> \<not> fin c1 then parse c1 (s1 @ u @ v) else Some (Inr (ok, c1, s1 @ u @ v)))"
  using parse_more [OF assms, of "u @ v"] by (simp split: sum.splits prod.splits)

end

fun feed ::
    "'b buffer_ops \<Rightarrow> int \<Rightarrow> http_context \<Rightarrow> 'b \<Rightarrow> bytes list
      \<Rightarrow> (fault + bool \<times> http_context \<times> 'b) option" where
  "feed B t c b [] = Some (Inr (True, c, b))"
| "feed B t c b (u # us) =
     (case parseRequest B t c (append_buf B b u) of
        Some (Inr (ok, c1, b1)) \<Rightarrow>
          if ok \<and> \<not> gotAll c1 then feed B t c1 b1 us
          else Some (Inr (ok, c1, append_buf B b1 (concat us)))
      | r \<Rightarrow> r)"

interpretation http_parser: incremental_parser "parseRequest string_buffer t" gotAll for t
proof
  fix c s r u
  assume r: "parseRequest string_buffer t c s = Some r"
  have "c1\<lparr>ctx_parseErrorStatus := 400\<rparr> = c1" if "r = Inr (True, c1, s1)" for c1 s1
    using parse_loop_status [of string_buffer t "c\<lparr>ctx_parseErrorStatus := 400\<rparr>" s c1 s1] r that
    by (cases c1) (simp add: parseRequest_def)
  with parse_append [OF r [unfolded parseRequest_def], of u]
  show "case r of Inl f \<Rightarrow> parseRequest string_buffer t c (s @ u) = Some (Inl f)
      | Inr (ok, c1, s1) \<Rightarrow> parseRequest string_buffer t c (s @ u) =
          (if ok \<and> \<not> gotAll c1 then parseRequest string_buffer t c1 (s1 @ u)
           else Some (Inr (ok, c1, s1 @ u)))"
    by (auto simp: parseRequest_def split: sum.splits prod.splits)
qed

lemma parseRequest_refines:
  "buffer_laws B \<Longrightarrow>
   view_result B (parseRequest B t c b) = parseRequest string_buffer t c (readable B b)"
  by (simp add: parseRequest_def parse_loop_refines)

lemma feed_refines:
  assumes "buffer_laws B"
  shows "view_result B (feed B t c b us) = feed string_buffer t c (readable B b) us"
proof (induction us arbitrary: c b)
  case (Cons u us)
  show ?case
    using parseRequest_refines [OF assms, of t c "append_buf B b u", symmetric] Cons.IH
    by (auto simp: view_result_def buffer_law_simps [OF assms] split: option.splits sum.splits)
qed (simp add: view_result_def)

lemma feed_concat:
  assumes "parseRequest string_buffer t c s = Some (Inr (True, c, s))" "\<not> gotAll c"
  shows "feed string_buffer t c s us = parseRequest string_buffer t c (s @ concat us)"
  using assms
proof (induction us arbitrary: c s)
  case (Cons u us)
  have "\<exists>r. parseRequest string_buffer t c (s @ u) = Some r"
    using Cons.prems(2) by (simp add: parseRequest_def parse_loop_returns gotAll_def)
  then obtain r where r: "parseRequest string_buffer t c (s @ u) = Some r" ..
  show ?case
    using http_parser.pieces_step [OF r, of "concat us" "[]"] http_parser.waiting_result [of t c "s @ u"]
      r Cons.IH
    by (auto split: sum.splits prod.splits)
qed simp

end
