(* ===== verification/Parse_Roundtrip.thy ===== *)
theory Parse_Roundtrip
  imports Incremental_Parser
begin

section \<open>Parsing what a client renders\<close>

text \<open>
  The abstract side of the parser: a well-formed request as a method name, a target, a
  version, a list of header fields and a body; its text on the wire (\<open>render_request\<close>);
  and the \<open>HttpRequest\<close> that text stands for (\<open>denoted_request\<close>).  The parser turns
  the text into that request and leaves the bytes behind it untouched.
\<close>

definition render_header :: "bytes \<times> bytes \<Rightarrow> bytes" where
  "render_header h = fst h @ CHR '':'' # CHR '' '' # snd h @ crlf"

definition render_request ::
    "bytes \<Rightarrow> bytes \<Rightarrow> bytes \<Rightarrow> (bytes \<times> bytes) list \<Rightarrow> bytes \<Rightarrow> bytes" where
  "render_request m target ver hs body =
     (m @ CHR '' '' # target @ CHR '' '' # ver) @ crlf @
     concat (map render_header hs) @ crlf @ body"

definition header_map :: "(bytes \<times> bytes) list \<Rightarrow> (bytes \<rightharpoonup> bytes)" where
  \<comment> \<open>names in lower case, the last of several equal names wins\<close>
  "header_map hs = map_of (rev (map (\<lambda>h. (to_lower (fst h), snd h)) hs))"

definition wf_header :: "bytes \<times> bytes \<Rightarrow> bool" where
  "wf_header h \<longleftrightarrow>
     CHR '':'' \<notin> set (fst h) \<and> CR \<notin> set (fst h) \<and> CR \<notin> set (snd h) \<and>
     trim_right (trim_left (snd h)) = snd h"

definition carries_body :: "bytes \<Rightarrow> bool" where
  "carries_body m \<longleftrightarrow> m = ''POST'' \<or> m = ''PUT''"

definition wf_request ::
    "nat \<Rightarrow> bytes \<Rightarrow> bytes \<Rightarrow> bytes \<Rightarrow> (bytes \<times> bytes) list \<Rightarrow> bytes \<Rightarrow> bool" where
  "wf_request maxBody m target ver hs body \<longleftrightarrow>
     method_of_name m \<noteq> kInvalid \<and> CHR '' '' \<notin> set target \<and> CR \<notin> set target \<and>
     (ver = ''HTTP/1.1'' \<or> ver = ''HTTP/1.0'') \<and> list_all wf_header hs \<and>
     (if carries_body m
      then header_map hs ''content-length'' = Some (nat_to_dec (length body)) \<and>
           length body \<le> maxBody \<and> length body < 2 ^ 64
      else body = [])"

definition denoted_request ::
    "int \<Rightarrow> bytes \<Rightarrow> bytes \<Rightarrow> bytes \<Rightarrow> (bytes \<times> bytes) list \<Rightarrow> bytes \<Rightarrow> http_request" where
  "denoted_request t m target ver hs body =
     \<lparr>req_method = method_of_name m, req_version = ver,
      req_path = takeWhile (\<lambda>x. x \<noteq> CHR ''?'') target,
      req_pathParameters = Map.empty,
      req_queryParameters =
        (if CHR ''?'' \<in> set target
         then fold query_pair (split_on (CHR ''&'') (tl (dropWhile (\<lambda>x. x \<noteq> CHR ''?'') target)))
                Map.empty
         else Map.empty),
      req_receiveTime = t, req_headers = header_map hs,
      req_content = body, req_contentLength = length body\<rparr>"

subsection \<open>The request line\<close>

lemma str_find_crlf [simp]: "CR \<notin> set a \<Longrightarrow> str_find crlf (a @ CR # LF # b) = Some (length a)"
proof (induction a)
  case (Cons x a)
  then have "take 2 (x # a @ CR # LF # b) \<noteq> crlf" by (cases a) auto
  with Cons show ?case by (simp add: numeral_2_eq_2)
qed simp

lemma turn_request_line:
  assumes "ctx_state c = kExpectRequestLine" "CR \<notin> set line"
  shows "parse_iter string_buffer t c (line @ CR # LF # s) =
    (case processRequestLine line (ctx_request c) of
       Inl f \<Rightarrow> Abort f
     | Inr (True, r) \<Rightarrow>
         Again (c\<lparr>ctx_request := setReceiveTime t r, ctx_state := kExpectHeaders\<rparr>) s
     | Inr (False, r) \<Rightarrow> Leave False (c\<lparr>ctx_request := r\<rparr>) (line @ CR # LF # s))"
  using assms by (simp add: parse_iter_def split: sum.split bool.split)

lemma turn_header_line:
  assumes "ctx_state c = kExpectHeaders" "CR \<notin> set line"
  shows "parse_iter string_buffer t c (line @ CR # LF # s) =
    (let (ok, hasMore, c') = header_line_step line c
     in if hasMore then Again c' s else Leave ok c' s)"
  using assms by (simp add: parse_iter_def)

lemma method_name_chars:
  "method_of_name m \<noteq> kInvalid \<Longrightarrow> CHR '' '' \<notin> set m \<and> CR \<notin> set m"
  by (auto simp: method_of_name_def split: if_splits)

lemma method_of_name_body:
  "carries_body m \<longleftrightarrow> method_of_name m = kPost \<or> method_of_name m = kPut"
  by (auto simp: carries_body_def method_of_name_def)

lemma set_target_denoted:
  "set_target target r =
     r\<lparr>req_path := takeWhile (\<lambda>x. x \<noteq> CHR ''?'') target,
       req_queryParameters :=
         (if CHR ''?'' \<in> set target
          then fold query_pair (split_on (CHR ''&'') (tl (dropWhile (\<lambda>x. x \<noteq> CHR ''?'') target)))
                 (req_queryParameters r)
          else req_queryParameters r)\<rparr>"
proof (cases "CHR ''?'' \<in> set target")
  case True
  have "drop (Suc (find_char (CHR ''?'') target)) target =
          tl (dropWhile (\<lambda>x. x \<noteq> CHR ''?'') target)"
    using drop_find_char [of "CHR ''?''" target] by (metis drop_Suc tl_drop)
  with True show ?thesis
    by (simp add: set_target_def Let_def setQueryParameters_def setPath_def query_loop_split
        find_char_eq_length_iff take_find_char)
next
  case False
  then have eq: "takeWhile (\<lambda>x. x \<noteq> CHR ''?'') target = target"
    by (auto simp: takeWhile_eq_all_conv)
  from False show ?thesis
    by (subst eq) (simp add: set_target_def Let_def setPath_def find_char_eq_length_iff)
qed

lemma processRequestLine_render:
  assumes "method_of_name m \<noteq> kInvalid" "CHR '' '' \<notin> set target"
    and "ver = ''HTTP/1.1'' \<or> ver = ''HTTP/1.0''" "req_method r = kInvalid"
  shows "processRequestLine (m @ CHR '' '' # target @ CHR '' '' # ver) r =
           Inr (True, setVersion_req ver (set_target target (r\<lparr>req_method := method_of_name m\<rparr>)))"
proof -
  have "version_of_suffix ver = Some ver" using assms(3) by (auto simp: version_of_suffix_def)
  then show ?thesis
    using assms method_name_chars [OF assms(1)]
    by (simp add: processRequestLine_def Let_def find_char_append setMethod_def)
qed

subsection \<open>The header block\<close>

lemma header_turn:
  assumes "wf_header h" "ctx_state c = kExpectHeaders"
  shows "parse_iter string_buffer t c (render_header h @ s) =
           Again (c\<lparr>ctx_request := (ctx_request c)\<lparr>req_headers :=
              (req_headers (ctx_request c))(to_lower (fst h) \<mapsto> snd h)\<rparr>\<rparr>) s"
proof -
  let ?line = "fst h @ CHR '':'' # CHR '' '' # snd h"
  have eq: "render_header h @ s = ?line @ CR # LF # s" by (simp add: render_header_def)
  have cr: "CR \<notin> set ?line" using assms(1) by (auto simp: wf_header_def)
  have "trim_left (CHR '' '' # snd h) = trim_left (snd h)"
    by (simp add: trim_left_def isspace_c_def)
  then show ?thesis
    unfolding eq turn_header_line [OF assms(2) cr]
    using assms(1)
    by (simp add: header_line_step_def find_char_append addHeader_req_def Let_def wf_header_def)
qed

lemma header_block:
  assumes "list_all wf_header hs" "ctx_state c = kExpectHeaders"
  shows "parse_str t c (concat (map render_header hs) @ s) =
           parse_str t (c\<lparr>ctx_request := (ctx_request c)\<lparr>req_headers :=
              req_headers (ctx_request c) ++ header_map hs\<rparr>\<rparr>) s"
  using assms
proof (induction hs arbitrary: c)
  case Nil
  then show ?case by (simp add: header_map_def)
next
  case (Cons h hs)
  then show ?case
    by (simp add: parse_loop.simps [of string_buffer t c] header_turn header_map_def)
qed

lemma blank_turn:
  assumes "ctx_state c = kExpectHeaders"
  shows "parse_iter string_buffer t c (CR # LF # s) =
           (let (ok, hasMore, c') = content_length_step c
            in if hasMore then Again c' s else Leave ok c' s)"
  using assms turn_header_line [of c "[]" t s]
  by (simp add: header_line_step_def find_char_def Let_def)

lemma end_without_body:
  assumes "ctx_state c = kExpectHeaders"
    and "req_method (ctx_request c) \<noteq> kPost" "req_method (ctx_request c) \<noteq> kPut"
  shows "parse_str t c (CR # LF # s) = Some (Inr (True, c\<lparr>ctx_state := kGotAll\<rparr>, s))"
  using assms by (simp add: parse_loop.simps [of string_buffer t c] blank_turn content_length_step_def)

lemma body_turn:
  assumes "ctx_state c = kExpectBody" "req_contentLength (ctx_request c) = length body"
  shows "parse_str t c (body @ s) = Some (Inr (True,
           c\<lparr>ctx_request := setBody_req body (ctx_request c), ctx_state := kGotAll\<rparr>, s))"
  using assms by (simp add: parse_loop.simps [of string_buffer t c] parse_iter_def)

lemma lower_content_length: "to_lower ''Content-Length'' = ''content-length''"
  by (simp add: lower_eval)

lemma end_with_body:
  assumes "ctx_state c = kExpectHeaders" "req_content (ctx_request c) = []"
    and "req_method (ctx_request c) = kPost \<or> req_method (ctx_request c) = kPut"
    and "getHeader ''Content-Length'' (ctx_request c) = nat_to_dec (length body)"
    and "length body \<le> ctx_maxBodyBytes c" "length body < 2 ^ 64"
  shows "parse_str t c (CR # LF # body @ s) =
    Some (Inr (True, c\<lparr>ctx_request := (ctx_request c)\<lparr>req_content := body,
       req_contentLength := length body\<rparr>, ctx_state := kGotAll\<rparr>, s))"
proof -
  let ?r = "setContentLength_req (length body) (ctx_request c)"
  have fc: "from_chars_u64 (nat_to_dec (length body)) =
      (length body, length (nat_to_dec (length body)), errc_ok)"
    using assms(6) by (rule from_chars_nat_to_dec)
  have step: "content_length_step c =
      (if body = [] then (True, False, c\<lparr>ctx_request := ?r, ctx_state := kGotAll\<rparr>)
       else (True, True, c\<lparr>ctx_request := ?r, ctx_state := kExpectBody\<rparr>))"
    using assms(3,4,5) fc by (auto simp: content_length_step_def Let_def)
  show ?thesis
  proof (cases "body = []")
    case True
    with step assms(1,2) show ?thesis
      by (cases "ctx_request c")
        (simp add: parse_loop.simps [of string_buffer t c] blank_turn setContentLength_req_def)
  next
    case False
    with step assms(1) have "parse_str t c (CR # LF # body @ s) =
        parse_str t (c\<lparr>ctx_request := ?r, ctx_state := kExpectBody\<rparr>) (body @ s)"
      by (simp add: parse_loop.simps [of string_buffer t c] blank_turn)
    then show ?thesis
      using body_turn [of "c\<lparr>ctx_request := ?r, ctx_state := kExpectBody\<rparr>" body t s]
      by (simp add: setContentLength_req_def setBody_req_def)
  qed
qed

lemma parse_rendered:
  assumes wf: "wf_request maxBody m target ver hs body"
  shows "parse_str t (new_context maxBody) (render_request m target ver hs body @ rest) =
           Some (Inr (True, \<lparr>ctx_state = kGotAll, ctx_request = denoted_request t m target ver hs body,
              ctx_maxBodyBytes = maxBody, ctx_parseErrorStatus = 400\<rparr>, rest))"
proof -
  let ?line = "m @ CHR '' '' # target @ CHR '' '' # ver"
  let ?s2 = "CR # LF # body @ rest"
  let ?s1 = "concat (map render_header hs) @ ?s2"
  let ?r1 = "denoted_request t m target ver [] []"
  let ?c1 = "\<lparr>ctx_state = kExpectHeaders, ctx_request = ?r1, ctx_maxBodyBytes = maxBody,
              ctx_parseErrorStatus = 400\<rparr>"
  let ?c2 = "?c1\<lparr>ctx_request := ?r1\<lparr>req_headers := header_map hs\<rparr>\<rparr>"
  have cr: "CR \<notin> set ?line"
    using wf method_name_chars [of m] by (auto simp: wf_request_def)
  have line: "processRequestLine ?line new_request =
          Inr (True, setVersion_req ver (set_target target (new_request\<lparr>req_method := method_of_name m\<rparr>)))"
    using wf by (intro processRequestLine_render) (auto simp: wf_request_def new_request_def)
  have "setReceiveTime t (setVersion_req ver
          (set_target target (new_request\<lparr>req_method := method_of_name m\<rparr>))) = ?r1"
    unfolding set_target_denoted
    by (simp add: new_request_def setReceiveTime_def setVersion_req_def denoted_request_def
        header_map_def)
  then have "parse_iter string_buffer t (new_context maxBody) (?line @ CR # LF # ?s1) = Again ?c1 ?s1"
    using turn_request_line [OF _ cr, of "new_context maxBody" t ?s1] line
    by (simp add: new_context_def)
  then have "parse_str t (new_context maxBody) (render_request m target ver hs body @ rest)
          = parse_str t ?c1 ?s1"
    by (simp add: render_request_def parse_loop.simps [of string_buffer t "new_context maxBody"])
  also have "\<dots> = parse_str t ?c2 ?s2"
    using wf header_block [of hs ?c1 t ?s2]
    by (simp add: wf_request_def denoted_request_def header_map_def)
  also have "\<dots> = Some (Inr (True, \<lparr>ctx_state = kGotAll,
      ctx_request = denoted_request t m target ver hs body,
      ctx_maxBodyBytes = maxBody, ctx_parseErrorStatus = 400\<rparr>, rest))"
  proof (cases "carries_body m")
    case False
    with wf have "req_method ?r1 \<noteq> kPost" "req_method ?r1 \<noteq> kPut" "body = []"
      by (simp_all add: method_of_name_body denoted_request_def wf_request_def)
    with end_without_body [of ?c2 t rest] show ?thesis by (simp add: denoted_request_def)
  next
    case True
    with wf have "header_map hs ''content-length'' = Some (nat_to_dec (length body))"
      "length body \<le> maxBody" "length body < 2 ^ 64" "req_method ?r1 = kPost \<or> req_method ?r1 = kPut"
      by (simp_all add: method_of_name_body denoted_request_def wf_request_def)
    moreover from this(1) have
      "getHeader ''Content-Length'' (?r1\<lparr>req_headers := header_map hs\<rparr>) = nat_to_dec (length body)"
      by (simp add: getHeader_def lower_content_length)
    ultimately show ?thesis
      using end_with_body [of ?c2 body t rest] by (simp add: denoted_request_def)
  qed
  finally show ?thesis .
qed

end
