(* ===== verification/Parser_Properties.thy ===== *)
theory Parser_Properties
  imports Parse_Roundtrip
begin

section \<open>What the request parser guarantees\<close>

text \<open>
  The properties of \<open>HttpRequest\<close> and \<open>HttpContext\<close>, over any buffer that obeys
  \<open>buffer_laws\<close>: the way a connection cuts its bytes makes no difference, a rendered
  request is read back, the parser returns and keeps its invariant from every state
  but \<open>kGotAll\<close>, and what happens to bytes behind a refused line.
\<close>

lemma parseRequest_new: "parseRequest B t (new_context n) b = parse_loop B t (new_context n) b"
  by (simp add: parseRequest_def new_context_def)

lemma ctx_state_new [simp]: "ctx_state (new_context n) = kExpectRequestLine"
  by (simp add: new_context_def)

lemma parse_leave:
  "parse_iter B t c b = Leave ok c' b' \<Longrightarrow> parse_loop B t c b = Some (Inr (ok, c', b'))"
  "parse_iter B t c b = Abort f \<Longrightarrow> parse_loop B t c b = Some (Inl f)"
  by (simp_all add: parse_loop.simps [of B t c b])

lemma parse_nothing: "parseRequest string_buffer t (new_context n) [] = Some (Inr (True, new_context n, []))"
  by (simp add: parseRequest_new parse_loop.simps [of string_buffer t "new_context n"]
      parse_iter_def ctx_state_new)

lemma gotAll_new [simp]: "\<not> gotAll (new_context n)" "\<not> gotAll (reset_context c)"
  by (simp_all add: gotAll_def new_context_def reset_context_eq)

lemma view_resultE:
  assumes "view_result B x = Some (Inr (ok, c, s))"
  obtains b where "x = Some (Inr (ok, c, b))" "readable B b = s"
proof (cases x)
  case (Some y)
  then show ?thesis using that assms by (cases y) (auto simp: view_result_def)
qed (use assms in \<open>simp add: view_result_def\<close>)

lemma view_result_Inl: "view_result B x = Some (Inl f) \<longleftrightarrow> x = Some (Inl f)"
  by (cases x) (auto simp: view_result_def map_sum_def split: sum.splits)

subsection \<open>Cutting the input\<close>

text \<open>C1: for every lawful buffer, feeding the parser of a fresh connection with the pieces
  \<open>us\<close> one after the other, as \<open>onMessage\<close> does, gives the result (verdict, request,
  unread bytes) that one call on their concatenation gives: no cut of the byte stream
  is observable.\<close>

theorem feed_pieces:
  assumes "buffer_laws B"
  shows "view_result B (feed B t (new_context n) (empty_buf B) us) =
           parseRequest string_buffer t (new_context n) (concat us)"
  using feed_refines [OF assms, of t "new_context n" "empty_buf B" us]
    feed_concat [OF parse_nothing, of n t us]
  by (simp add: empty_law [OF assms])

theorem feed_pieces_witness:
  "view_result string_buffer
     (feed string_buffer 7 (new_context 10) (empty_buf string_buffer)
        [''GET / HT'', ''TP/1.1'' @ [CR], [LF], crlf]) =
   parseRequest string_buffer 7 (new_context 10) (''GET / HTTP/1.1'' @ crlf @ crlf)"
  using feed_pieces [OF buffer_laws_string, of 7 10 "[''GET / HT'', ''TP/1.1'' @ [CR], [LF], crlf]"]
  by simp

text \<open>C2: the text of a well-formed request, cut into any pieces and followed by any bytes, is
  read as the request it denotes (method, path, decoded query string, header map with
  lower-case names, body), and exactly the bytes behind it stay in the buffer.\<close>

theorem parse_render_roundtrip:
  assumes "buffer_laws B" "wf_request maxBody m target ver hs body"
    and "concat us = render_request m target ver hs body @ rest"
  shows "\<exists>b. feed B t (new_context maxBody) (empty_buf B) us =
           Some (Inr (True, \<lparr>ctx_state = kGotAll,
             ctx_request = denoted_request t m target ver hs body,
             ctx_maxBodyBytes = maxBody, ctx_parseErrorStatus = 400\<rparr>, b)) \<and> readable B b = rest"
proof -
  have "parseRequest string_buffer t (new_context maxBody) (concat us) =
      Some (Inr (True, \<lparr>ctx_state = kGotAll,
        ctx_request = denoted_request t m target ver hs body,
        ctx_maxBodyBytes = maxBody, ctx_parseErrorStatus = 400\<rparr>, rest))"
    using parse_rendered [OF assms(2), of t rest] by (simp add: parseRequest_new assms(3))
  with feed_refines [OF assms(1), of t "new_context maxBody" "empty_buf B" us]
    feed_concat [OF parse_nothing, of maxBody t us]
  show ?thesis by (auto simp add: empty_law [OF assms(1)] elim!: view_resultE)
qed

theorem parse_render_roundtrip_witness:
  "\<exists>b. feed string_buffer 7 (new_context 100) (empty_buf string_buffer)
         [render_request ''POST'' ''/chat?x=1'' ''HTTP/1.1'' [(''Content-Length'', ''2'')] ''hi'', ''more''] =
       Some (Inr (True, \<lparr>ctx_state = kGotAll,
         ctx_request = denoted_request 7 ''POST'' ''/chat?x=1'' ''HTTP/1.1'' [(''Content-Length'', ''2'')] ''hi'',
         ctx_maxBodyBytes = 100, ctx_parseErrorStatus = 400\<rparr>, b)) \<and>
       readable string_buffer b = ''more''"
proof (rule parse_render_roundtrip)
  show "wf_request 100 ''POST'' ''/chat?x=1'' ''HTTP/1.1'' [(''Content-Length'', ''2'')] ''hi''"
    by (simp add: wf_request_def wf_header_def header_map_def carries_body_def method_of_name_def
        lower_content_length dec_eval trim_left_def trim_right_def isspace_c_def)
qed simp_all

subsection \<open>Termination and the invariant\<close>

text \<open>C27: \<open>parseRequest\<close> fails to return exactly when it is called on a context that is already
  complete: in state \<open>kGotAll\<close> no branch of its loop clears \<open>hasMore\<close>.\<close>

theorem parseRequest_hangs_iff:
  assumes "buffer_laws B"
  shows "parseRequest B t c b = None \<longleftrightarrow> gotAll c"
  using parse_loop_returns [OF assms, of "c\<lparr>ctx_parseErrorStatus := 400\<rparr>" t b]
  by (cases "gotAll c") (auto simp: parseRequest_def gotAll_def parse_loop_diverges)

theorem parseRequest_hangs_iff_witness:
  "parseRequest string_buffer 0 ((new_context 5)\<lparr>ctx_state := kGotAll\<rparr>) ''GET'' = None"
  using parseRequest_hangs_iff [OF buffer_laws_string, of 0 "(new_context 5)\<lparr>ctx_state := kGotAll\<rparr>" "''GET''"]
  by (simp add: gotAll_def)

text \<open>C3: from every context that satisfies the parser's invariant and is not complete,
  \<open>parseRequest\<close> returns without a failed assertion; when it accepts, the invariant holds
  again (a complete request has a known method, a version, a body of exactly the declared
  length, and that length is within the limit), and \<open>reset\<close> leads back to it.\<close>

theorem parseRequest_invariant:
  assumes "buffer_laws B" "ctx_inv c" "\<not> gotAll c"
  shows "\<exists>ok c' b'. parseRequest B t c b = Some (Inr (ok, c', b')) \<and> (ok \<longrightarrow> ctx_inv c') \<and>
           ctx_maxBodyBytes c' = ctx_maxBodyBytes c \<and>
           (ok \<and> gotAll c' \<longrightarrow>
              length (req_content (ctx_request c')) = req_contentLength (ctx_request c') \<and>
              req_contentLength (ctx_request c') \<le> ctx_maxBodyBytes c) \<and>
           reset_context c' = new_context (ctx_maxBodyBytes c)"
proof -
  from parse_loop_inv [of "c\<lparr>ctx_parseErrorStatus := 400\<rparr>" B t b] assms
  obtain ok c' b' where r: "parseRequest B t c b = Some (Inr (ok, c', b'))"
    and inv: "ok \<longrightarrow> ctx_inv c'" and mx: "ctx_maxBodyBytes c' = ctx_maxBodyBytes c"
    by (auto simp: parseRequest_def gotAll_def)
  have "reset_context c' = new_context (ctx_maxBodyBytes c)"
    using mx by (cases c') (simp add: reset_context_eq new_context_def)
  with r inv mx show ?thesis by (auto simp: ctx_inv_def gotAll_def Let_def)
qed

theorem parseRequest_invariant_witness:
  "\<exists>ok c' b'. parseRequest string_buffer 0 (new_context 5) ''PUT /'' = Some (Inr (ok, c', b')) \<and>
     (ok \<longrightarrow> ctx_inv c') \<and> ctx_maxBodyBytes c' = ctx_maxBodyBytes (new_context 5) \<and>
     (ok \<and> gotAll c' \<longrightarrow>
        length (req_content (ctx_request c')) = req_contentLength (ctx_request c') \<and>
        req_contentLength (ctx_request c') \<le> ctx_maxBodyBytes (new_context 5)) \<and>
     reset_context c' = new_context (ctx_maxBodyBytes (new_context 5))"
  by (rule parseRequest_invariant) simp_all

subsection \<open>Refused input\<close>

lemma refused_line_turn:
  assumes "method_of_name m \<noteq> kInvalid" "CHR '' '' \<notin> set tail" "CR \<notin> set tail"
  shows "parse_str t (new_context n) (m @ CHR '' '' # tail @ CR # LF # s) =
    Some (Inr (False, (new_context n)\<lparr>ctx_request := new_request\<lparr>req_method := method_of_name m\<rparr>\<rparr>,
      m @ CHR '' '' # tail @ CR # LF # s))"
proof -
  let ?line = "m @ CHR '' '' # tail"
  have cr: "CR \<notin> set ?line" using assms(3) method_name_chars [OF assms(1)] by simp
  have "processRequestLine ?line new_request =
          Inr (False, new_request\<lparr>req_method := method_of_name m\<rparr>)"
    using assms(1,2) method_name_chars [OF assms(1)]
    by (simp add: processRequestLine_def Let_def find_char_append find_char_eq_length_iff
        setMethod_def new_request_def)
  with turn_request_line [of "new_context n" ?line t s] cr show ?thesis
    by (intro parse_leave) (simp add: new_context_def)
qed

lemma second_call_aborts:
  assumes "ctx_state c = kExpectRequestLine" "req_method (ctx_request c) \<noteq> kInvalid"
    and "CHR '' '' \<in> set line" "CR \<notin> set line"
  shows "parse_str t c (line @ CR # LF # s) = Some (Inl AssertFailed)"
proof -
  have "find_char (CHR '' '') line < length line" using assms(3) by (simp add: find_char_less_iff)
  then have "processRequestLine line (ctx_request c) = Inl AssertFailed"
    using assms(2) by (simp add: processRequestLine_def Let_def setMethod_def)
  with turn_request_line [OF assms(1,4), of t s] show ?thesis
    by (intro parse_leave) simp
qed

text \<open>A request line with a known method but no second space (such as \<open>GET /\<close>) is refused with
  status 400 and stays in the buffer, the method stays set, and the next call of
  \<open>parseRequest\<close> on that connection, whatever arrived meanwhile, runs into the \<open>assert\<close> of
  \<open>setMethod\<close>, which ends the process.\<close>

theorem refused_line_then_abort:
  assumes "buffer_laws B" "method_of_name m \<noteq> kInvalid" "CHR '' '' \<notin> set tail" "CR \<notin> set tail"
    and "readable B b = m @ CHR '' '' # tail @ CR # LF # s"
  shows "\<exists>c' b'. parseRequest B t (new_context n) b = Some (Inr (False, c', b')) \<and>
           ctx_parseErrorStatus c' = 400 \<and> readable B b' = readable B b \<and>
           (\<forall>t' u. parseRequest B t' c' (append_buf B b' u) = Some (Inl AssertFailed))"
proof -
  let ?c = "(new_context n)\<lparr>ctx_request := new_request\<lparr>req_method := method_of_name m\<rparr>\<rparr>"
  let ?line = "m @ CHR '' '' # tail"
  have "view_result B (parseRequest B t (new_context n) b) = Some (Inr (False, ?c, readable B b))"
    using parseRequest_refines [OF assms(1), of t "new_context n" b]
      refused_line_turn [OF assms(2-4), of t n s] by (simp add: parseRequest_new assms(5))
  then obtain b' where b': "parseRequest B t (new_context n) b = Some (Inr (False, ?c, b'))"
    "readable B b' = readable B b" by (rule view_resultE)
  have "parseRequest B t' ?c (append_buf B b' u) = Some (Inl AssertFailed)" for t' u
  proof -
    have "readable B (append_buf B b' u) = ?line @ CR # LF # s @ u"
      by (simp add: append_law [OF assms(1)] b'(2) assms(5))
    moreover have "parse_str t' (?c\<lparr>ctx_parseErrorStatus := 400\<rparr>) (?line @ CR # LF # s @ u) =
        Some (Inl AssertFailed)"
      using assms(2-4) method_name_chars [OF assms(2)]
      by (intro second_call_aborts) (auto simp: new_context_def)
    ultimately show ?thesis
      using parseRequest_refines [OF assms(1), of t' ?c "append_buf B b' u"]
      by (subst view_result_Inl [of B, symmetric]) (simp add: parseRequest_def)
  qed
  with b' show ?thesis by (intro exI [of _ ?c] exI [of _ b']) (simp add: new_context_def)
qed

theorem refused_line_then_abort_witness:
  "\<exists>c' b'. parseRequest string_buffer 0 (new_context 5) (''GET /'' @ crlf) = Some (Inr (False, c', b')) \<and>
     ctx_parseErrorStatus c' = 400 \<and>
     readable string_buffer b' = readable string_buffer (''GET /'' @ crlf) \<and>
     (\<forall>t' u. parseRequest string_buffer t' c' (append_buf string_buffer b' u) = Some (Inl AssertFailed))"
  by (rule refused_line_then_abort [where m = "''GET''" and tail = "''/''" and s = "[]"])
    (simp_all add: method_of_name_def)

subsection \<open>The end of the header block\<close>

lemma content_length_cases:
  assumes "req_method (ctx_request c) = kPost \<or> req_method (ctx_request c) = kPut"
    and "cl = getHeader ''Content-Length'' (ctx_request c)"
  shows "content_length_step c =
    (if cl = [] \<or> \<not> list_all is_digit cl \<or> 2 ^ 64 \<le> dec_value cl then (False, False, c)
     else if ctx_maxBodyBytes c < dec_value cl
     then (False, False, c\<lparr>ctx_parseErrorStatus := 413\<rparr>)
     else (True, 0 < dec_value cl,
       c\<lparr>ctx_request := setContentLength_req (dec_value cl) (ctx_request c),
         ctx_state := (if 0 < dec_value cl then kExpectBody else kGotAll)\<rparr>))"
proof -
  obtain v p e where fc: "from_chars_u64 cl = (v, p, e)" by (cases "from_chars_u64 cl")
  have "e = errc_ok \<and> p = length cl \<longleftrightarrow> cl \<noteq> [] \<and> list_all is_digit cl \<and> dec_value cl < 2 ^ 64"
    and "e = errc_ok \<and> p = length cl \<Longrightarrow> v = dec_value cl"
    using from_chars_complete [of cl] fc by auto
  then show ?thesis using assms fc by (auto simp: content_length_step_def Let_def)
qed

text \<open>At the blank line of a POST or PUT the declared length decides: a missing, non-numeric or
  64-bit overflowing \<open>Content-Length\<close> is refused with 400, one above the limit of the
  context with 413 (and no byte of the body is waited for), and otherwise the parser waits
  for exactly that many bytes.\<close>

theorem body_length_verdict:
  assumes "buffer_laws B" "ctx_state c = kExpectHeaders"
    and "req_method (ctx_request c) = kPost \<or> req_method (ctx_request c) = kPut"
    and "readable B b = CR # LF # s" "cl = getHeader ''Content-Length'' (ctx_request c)"
    and "numeric = (cl \<noteq> [] \<and> list_all is_digit cl \<and> dec_value cl < 2 ^ 64)"
  shows "\<exists>ok c' b'. parseRequest B t c b = Some (Inr (ok, c', b')) \<and>
     (\<not> numeric \<longrightarrow> \<not> ok \<and> ctx_parseErrorStatus c' = 400) \<and>
     (numeric \<and> ctx_maxBodyBytes c < dec_value cl \<longrightarrow> \<not> ok \<and> ctx_parseErrorStatus c' = 413) \<and>
     (numeric \<and> dec_value cl \<le> ctx_maxBodyBytes c \<longrightarrow> ok \<and>
        (gotAll c' \<longleftrightarrow> dec_value cl \<le> length s) \<and>
        req_contentLength (ctx_request c') = dec_value cl)"
    (is "\<exists>ok c' b'. _ \<and> ?P ok c'")
proof -
  let ?c = "c\<lparr>ctx_parseErrorStatus := 400\<rparr>"
  let ?v = "parse_str t ?c (CR # LF # s)"
  have step: "content_length_step ?c =
      (if \<not> numeric then (False, False, ?c)
       else if ctx_maxBodyBytes c < dec_value cl
       then (False, False, ?c\<lparr>ctx_parseErrorStatus := 413\<rparr>)
       else (True, 0 < dec_value cl,
         ?c\<lparr>ctx_request := setContentLength_req (dec_value cl) (ctx_request c),
           ctx_state := (if 0 < dec_value cl then kExpectBody else kGotAll)\<rparr>))"
    using content_length_cases [of ?c cl] assms(3,5,6) by (auto simp: not_less)
  note blank = blank_turn [of ?c t s]
  have "\<exists>ok c' b'. ?v = Some (Inr (ok, c', b')) \<and> ?P ok c'"
  proof (cases "numeric \<and> dec_value cl \<le> ctx_maxBodyBytes c \<and> 0 < dec_value cl")
    case True
    let ?c1 = "?c\<lparr>ctx_request := setContentLength_req (dec_value cl) (ctx_request c),
        ctx_state := kExpectBody\<rparr>"
    from True step blank assms(2) have "parse_iter string_buffer t ?c (CR # LF # s) = Again ?c1 s"
      by simp
    then have "?v = parse_str t ?c1 s" by (simp add: parse_loop.simps [of string_buffer t ?c])
    moreover have "parse_str t ?c1 s = (if length s < dec_value cl then Some (Inr (True, ?c1, s))
        else Some (Inr (True, ?c1\<lparr>ctx_request := setBody_req (take (dec_value cl) s) (ctx_request ?c1),
               ctx_state := kGotAll\<rparr>, drop (dec_value cl) s)))"
      by (auto intro!: parse_leave simp: parse_iter_def setContentLength_req_def Let_def)
    ultimately show ?thesis
      using True by (auto simp: gotAll_def setContentLength_req_def setBody_req_def not_less)
  next
    case False
    then consider "\<not> numeric" | "numeric" "ctx_maxBodyBytes c < dec_value cl"
      | "numeric" "dec_value cl = 0" by fastforce
    then show ?thesis
    proof cases
      case 1
      with step blank assms(2) have "?v = Some (Inr (False, ?c, s))" by (intro parse_leave) simp
      with 1 show ?thesis by auto
    next
      case 2
      with step blank assms(2) have "?v = Some (Inr (False, ?c\<lparr>ctx_parseErrorStatus := 413\<rparr>, s))"
        by (intro parse_leave) simp
      with 2 show ?thesis by auto
    next
      case 3
      with step blank assms(2) have "?v = Some (Inr (True, ?c\<lparr>ctx_request :=
          setContentLength_req 0 (ctx_request c), ctx_state := kGotAll\<rparr>, s))"
        by (intro parse_leave) simp
      with 3 show ?thesis by (auto simp: gotAll_def setContentLength_req_def)
    qed
  qed
  then obtain ok c' s' where v: "?v = Some (Inr (ok, c', s'))" and P: "?P ok c'" by blast
  with parseRequest_refines [OF assms(1), of t c b]
  have "view_result B (parseRequest B t c b) = Some (Inr (ok, c', s'))"
    by (simp add: assms(4) parseRequest_def)
  then obtain b' where "parseRequest B t c b = Some (Inr (ok, c', b'))" by (rule view_resultE)
  with P show ?thesis by blast
qed

theorem body_length_verdict_witness:
  "\<exists>ok c' b'. parseRequest string_buffer 0 \<lparr>ctx_state = kExpectHeaders,
       ctx_request = new_request\<lparr>req_method := kPost, req_headers := [''content-length'' \<mapsto> ''11'']\<rparr>,
       ctx_maxBodyBytes = 10, ctx_parseErrorStatus = 400\<rparr> (CR # LF # ''x'') = Some (Inr (ok, c', b')) \<and>
     \<not> ok \<and> ctx_parseErrorStatus c' = 413"
  using body_length_verdict [OF buffer_laws_string, of "\<lparr>ctx_state = kExpectHeaders,
       ctx_request = new_request\<lparr>req_method := kPost, req_headers := [''content-length'' \<mapsto> ''11'']\<rparr>,
       ctx_maxBodyBytes = 10, ctx_parseErrorStatus = 400\<rparr>" "CR # LF # ''x''" "''x''" "''11''" True 0]
  by (auto simp: getHeader_def lower_content_length is_digit_def dec_value_def digit_val_def)

text \<open>A header line without a colon is refused with 400 but leaves the context as it was, the
  line dropped: the next call goes on as if the line had never been sent, so bytes sent
  after the refusal can complete the same request.\<close>

theorem refused_header_is_forgotten:
  assumes "buffer_laws B" "ctx_state c = kExpectHeaders" "line \<noteq> []"
    and "CHR '':'' \<notin> set line" "CR \<notin> set line" "readable B b = line @ CR # LF # s"
  shows "\<exists>c' b'. parseRequest B t c b = Some (Inr (False, c', b')) \<and> ctx_parseErrorStatus c' = 400 \<and>
     (\<forall>t' u. view_result B (parseRequest B t' c' (append_buf B b' u)) =
              parseRequest string_buffer t' c (s @ u))"
proof -
  let ?c = "c\<lparr>ctx_parseErrorStatus := 400\<rparr>"
  have "header_line_step line ?c = (False, False, ?c)"
    using assms(3,4) by (simp add: header_line_step_def find_char_less_iff Let_def)
  with turn_header_line [of ?c line t s] assms(2,5)
  have "parse_str t ?c (line @ CR # LF # s) = Some (Inr (False, ?c, s))"
    by (intro parse_leave) simp
  with parseRequest_refines [OF assms(1), of t c b]
  have "view_result B (parseRequest B t c b) = Some (Inr (False, ?c, s))"
    by (simp add: assms(6) parseRequest_def)
  then obtain b' where b': "parseRequest B t c b = Some (Inr (False, ?c, b'))" "readable B b' = s"
    by (rule view_resultE)
  have "view_result B (parseRequest B t' ?c (append_buf B b' u)) =
          parseRequest string_buffer t' c (s @ u)" for t' u
    using parseRequest_refines [OF assms(1), of t' ?c "append_buf B b' u"]
    by (simp add: append_law [OF assms(1)] b'(2)) (simp add: parseRequest_def)
  with b'(1) show ?thesis by (intro exI [of _ ?c] exI [of _ b']) simp
qed

theorem refused_header_is_forgotten_witness:
  "\<exists>c' b'. parseRequest string_buffer 0 ((new_context 9)\<lparr>ctx_state := kExpectHeaders\<rparr>)
       (''oops'' @ crlf) = Some (Inr (False, c', b')) \<and> ctx_parseErrorStatus c' = 400 \<and>
     (\<forall>t' u. view_result string_buffer (parseRequest string_buffer t' c' (append_buf string_buffer b' u)) =
        parseRequest string_buffer t' ((new_context 9)\<lparr>ctx_state := kExpectHeaders\<rparr>) ([] @ u))"
  by (rule refused_header_is_forgotten [where line = "''oops''"]) simp_all

subsection \<open>Query strings and header names\<close>

text \<open>The query string \<open>k1=v1&k2=v2&...\<close> is read as the map of its pairs, the last pair of a
  repeated key winning, and parameters set before are kept unless a pair replaces them.\<close>

theorem query_string_roundtrip:
  assumes "kvs \<noteq> []" "\<forall>(k, v) \<in> set kvs. CHR ''='' \<notin> set k \<and> CHR ''&'' \<notin> set k \<and> CHR ''&'' \<notin> set v"
  shows "req_queryParameters
           (setQueryParameters (intercalate ''&'' (map (\<lambda>(k, v). k @ CHR ''='' # v) kvs)) r) =
         req_queryParameters r ++ map_of (rev kvs)"
proof -
  let ?ps = "map (\<lambda>(k, v). k @ CHR ''='' # v) kvs"
  have "\<forall>x \<in> set ?ps. CHR ''&'' \<notin> set x" using assms(2) by auto
  with assms(1) have "split_on (CHR ''&'') (intercalate ''&'' ?ps) = ?ps"
    by (intro split_on_intercalate) auto
  moreover have "fold query_pair ?ps m = m ++ map_of (rev kvs)" for m
    using assms(2) by (intro fold_query_pairs) auto
  ultimately show ?thesis by (simp add: setQueryParameters_def query_loop_split)
qed

theorem query_string_roundtrip_witness:
  "req_queryParameters (setQueryParameters ''a=1&b=&a=2'' new_request) =
     [''a'' \<mapsto> ''2'', ''b'' \<mapsto> []]"
  using query_string_roundtrip [of "[(''a'', ''1''), (''b'', []), (''a'', ''2'')]" new_request]
  by (simp add: new_request_def fun_upd_twist)

end
