(* ===== verification/Http_Response.thy ===== *)
theory Http_Response
  imports Muduo_Buffer
begin

section \<open>HttpResponse\<close>

text \<open>
  \<open>HttpServer/include/http/HttpResponse.h\<close> and \<open>HttpServer/src/http/HttpResponse.cpp\<close>.
  The header fields are iterated in key order, so they are an ordered list of pairs.
  \<open>appendToBuffer\<close> writes through the buffer interface; \<open>response_text\<close> is what it
  writes, and \<open>client_read\<close> is a client that frames a response by its header block and
  \<open>Content-Length\<close>.
\<close>

datatype http_status =
  kUnknown | k200Ok | k204NoContent | k301MovedPermanently | k400BadRequest | k401Unauthorized
| k403Forbidden | k404NotFound | k409Conflict | k500InternalServerError

primrec status_number :: "http_status \<Rightarrow> nat" where
  "status_number kUnknown = 0"
| "status_number k200Ok = 200"
| "status_number k204NoContent = 204"
| "status_number k301MovedPermanently = 301"
| "status_number k400BadRequest = 400"
| "status_number k401Unauthorized = 401"
| "status_number k403Forbidden = 403"
| "status_number k404NotFound = 404"
| "status_number k409Conflict = 409"
| "status_number k500InternalServerError = 500"

record http_response =
  res_httpVersion :: bytes
  res_statusCode :: http_status
  res_statusMessage :: bytes
  res_closeConnection :: bool
  res_headers :: "(bytes, bytes) omap"
  res_body :: bytes

definition new_response :: "bool \<Rightarrow> http_response" where
  "new_response close =
     \<lparr>res_httpVersion = [], res_statusCode = kUnknown, res_statusMessage = [],
      res_closeConnection = close, res_headers = [], res_body = []\<rparr>"

definition addHeader :: "bytes \<Rightarrow> bytes \<Rightarrow> http_response \<Rightarrow> http_response" where
  "addHeader key v r = r\<lparr>res_headers := omap_set key v (res_headers r)\<rparr>"

definition setVersion :: "bytes \<Rightarrow> http_response \<Rightarrow> http_response" where
  "setVersion v r = r\<lparr>res_httpVersion := v\<rparr>"

definition setStatusCode :: "http_status \<Rightarrow> http_response \<Rightarrow> http_response" where
  "setStatusCode code r = r\<lparr>res_statusCode := code\<rparr>"

definition setStatusMessage :: "bytes \<Rightarrow> http_response \<Rightarrow> http_response" where
  "setStatusMessage m r = r\<lparr>res_statusMessage := m\<rparr>"

definition setCloseConnection :: "bool \<Rightarrow> http_response \<Rightarrow> http_response" where
  "setCloseConnection on r = r\<lparr>res_closeConnection := on\<rparr>"

definition setContentType :: "bytes \<Rightarrow> http_response \<Rightarrow> http_response" where
  "setContentType contentType r = addHeader ''Content-Type'' contentType r"

definition setContentLength :: "nat \<Rightarrow> http_response \<Rightarrow> http_response" where
  "setContentLength n r = addHeader ''Content-Length'' (nat_to_dec n) r"

definition setBody :: "bytes \<Rightarrow> http_response \<Rightarrow> http_response" where
  "setBody body r = r\<lparr>res_body := body\<rparr>"

definition setStatusLine :: "bytes \<Rightarrow> http_status \<Rightarrow> bytes \<Rightarrow> http_response \<Rightarrow> http_response" where
  "setStatusLine version code m r =
     r\<lparr>res_httpVersion := version, res_statusCode := code, res_statusMessage := m\<rparr>"

subsection \<open>Serialisation\<close>

abbreviation NUL :: char where "NUL \<equiv> CHR 0x00"

definition c_str :: "bytes \<Rightarrow> bytes" where
  \<comment> \<open>what a C string function sees of a \<open>std::string\<close>\<close>
  "c_str s = takeWhile (\<lambda>x. x \<noteq> NUL) s"

definition snprintf_32 :: "bytes \<Rightarrow> bytes" where
  \<comment> \<open>\<open>char buf[32]; snprintf(buf, sizeof buf, ...)\<close>: 31 bytes and the terminator\<close>
  "snprintf_32 s = take 31 s"

fun headerKeyEqualsIgnoreCase :: "bytes \<Rightarrow> bytes \<Rightarrow> bool" where
  "headerKeyEqualsIgnoreCase [] [] \<longleftrightarrow> True"
| "headerKeyEqualsIgnoreCase (k # ks) (a # as) \<longleftrightarrow> tolower_c k = a \<and> headerKeyEqualsIgnoreCase ks as"
| "headerKeyEqualsIgnoreCase _ _ \<longleftrightarrow> False"

definition append_header :: "'b buffer_ops \<Rightarrow> bytes \<times> bytes \<Rightarrow> 'b \<Rightarrow> 'b" where
  "append_header B h b =
     (if headerKeyEqualsIgnoreCase (fst h) ''content-length'' then b
      else append_buf B (append_buf B (append_buf B (append_buf B b (fst h)) '': '') (snd h)) crlf)"

definition appendToBuffer :: "'b buffer_ops \<Rightarrow> http_response \<Rightarrow> 'b \<Rightarrow> 'b" where
  "appendToBuffer B r b0 =
     (let b1 = append_buf B b0 (c_str (snprintf_32
                 (c_str (res_httpVersion r) @ '' '' @ nat_to_dec (status_number (res_statusCode r)) @ '' '')));
          b2 = append_buf B b1 (res_statusMessage r);
          b3 = append_buf B b2 crlf;
          b4 = (if res_closeConnection r then append_buf B b3 (''Connection: close'' @ crlf)
                else append_buf B b3 (''Connection: Keep-Alive'' @ crlf));
          b5 = append_buf B b4 (c_str (snprintf_32
                 (''Content-Length: '' @ nat_to_dec (length (res_body r)) @ crlf)));
          b6 = fold (append_header B) (res_headers r) b5;
          b7 = append_buf B b6 crlf
      in append_buf B b7 (res_body r))"

lemma headerKeyEqualsIgnoreCase_iff: "headerKeyEqualsIgnoreCase k a \<longleftrightarrow> to_lower k = a"
  by (induction k a rule: headerKeyEqualsIgnoreCase.induct) (auto simp: to_lower_def)

subsection \<open>The text of a response\<close>

definition status_line :: "http_response \<Rightarrow> bytes" where
  "status_line r =
     c_str (snprintf_32 (c_str (res_httpVersion r) @ '' '' @
       nat_to_dec (status_number (res_statusCode r)) @ '' '')) @ res_statusMessage r"

definition other_headers :: "http_response \<Rightarrow> (bytes \<times> bytes) list" where
  "other_headers r = filter (\<lambda>h. to_lower (fst h) \<noteq> ''content-length'') (res_headers r)"

definition field_line :: "bytes \<times> bytes \<Rightarrow> bytes" where
  "field_line h = fst h @ '': '' @ snd h"

definition header_lines :: "http_response \<Rightarrow> bytes list" where
  "header_lines r =
     (''Connection: '' @ (if res_closeConnection r then ''close'' else ''Keep-Alive'')) #
     (''Content-Length: '' @ nat_to_dec (length (res_body r))) #
     map field_line (other_headers r)"

definition response_text :: "http_response \<Rightarrow> bytes" where
  "response_text r =
     concat (map (\<lambda>l. l @ crlf) (status_line r # header_lines r)) @ crlf @ res_body r"

lemma fold_append_header:
  assumes "buffer_laws B"
  shows "readable B (fold (append_header B) hs b) =
    readable B b @ concat (map (\<lambda>h. field_line h @ crlf)
      (filter (\<lambda>h. to_lower (fst h) \<noteq> ''content-length'') hs))"
  by (induction hs arbitrary: b)
    (auto simp: append_header_def headerKeyEqualsIgnoreCase_iff append_law [OF assms] field_line_def)

lemma c_str_id: "NUL \<notin> set s \<Longrightarrow> c_str s = s"
  by (auto simp: c_str_def takeWhile_eq_all_conv)

lemma nat_to_dec_no [simp]: "\<not> is_digit c \<Longrightarrow> c \<notin> set (nat_to_dec n)"
  using nat_to_dec_digits by blast

lemma length_nat_to_dec: "n < 10 ^ k \<Longrightarrow> 0 < k \<Longrightarrow> length (nat_to_dec n) \<le> k"
proof (induction k arbitrary: n)
  case (Suc k)
  show ?case
  proof (cases "n < 10")
    case False
    then have "0 < k" using Suc.prems by (cases k) auto
    moreover have "n div 10 < 10 ^ k" using Suc.prems by (simp add: less_mult_imp_div_less)
    ultimately show ?thesis using Suc.IH [of "n div 10"] False by (subst nat_to_dec.simps) simp
  qed (subst nat_to_dec.simps, simp)
qed simp

lemma content_length_buf:
  assumes "n < 10 ^ 13"
  shows "c_str (snprintf_32 (''Content-Length: '' @ nat_to_dec n @ crlf)) =
           ''Content-Length: '' @ nat_to_dec n @ crlf"
proof -
  have "length (nat_to_dec n) \<le> 13" using assms by (rule length_nat_to_dec) simp
  then have "snprintf_32 (''Content-Length: '' @ nat_to_dec n @ crlf) =
      ''Content-Length: '' @ nat_to_dec n @ crlf"
    by (simp add: snprintf_32_def)
  moreover have "NUL \<notin> set (nat_to_dec n)" by (rule nat_to_dec_no) (simp add: is_digit_def)
  ultimately show ?thesis by (simp add: c_str_id)
qed

lemma appendToBuffer_text:
  assumes "buffer_laws B" "length (res_body r) < 10 ^ 13"
  shows "readable B (appendToBuffer B r b) = readable B b @ response_text r"
  using content_length_buf [OF assms(2)]
  by (simp add: appendToBuffer_def Let_def append_law [OF assms(1)] fold_append_header [OF assms(1)]
      response_text_def header_lines_def status_line_def other_headers_def comp_def)

subsection \<open>A client that frames responses\<close>

function read_lines :: "bytes \<Rightarrow> (bytes list \<times> bytes) option" where
  \<comment> \<open>the lines before the first empty line, and the bytes after it\<close>
  "read_lines s =
     (case str_find crlf s of
        None \<Rightarrow> None
      | Some n \<Rightarrow>
          if n = 0 then Some ([], drop 2 s)
          else map_option (\<lambda>(ls, r). (take n s # ls, r)) (read_lines (drop (n + 2) s)))"
  by pat_completeness auto
termination
  by (relation "measure length") (auto dest: crlf_bound)

declare read_lines.simps [simp del]

definition is_length_field :: "bytes \<Rightarrow> bool" where
  "is_length_field l \<longleftrightarrow> to_lower (takeWhile (\<lambda>x. x \<noteq> CHR '':'') l) = ''content-length''"

definition field_value :: "bytes \<Rightarrow> bytes" where
  "field_value l = drop 2 (dropWhile (\<lambda>x. x \<noteq> CHR '':'') l)"

definition client_read :: "bytes \<Rightarrow> (bytes \<times> bytes list \<times> bytes \<times> bytes) option" where
  \<comment> \<open>status line, header lines, body, the bytes behind the response\<close>
  "client_read s =
     (case read_lines s of
        Some (st # fs, rest) \<Rightarrow>
          (case filter is_length_field fs of
             l # _ \<Rightarrow>
               (let n = dec_value (field_value l)
                in if n \<le> length rest then Some (st, fs, take n rest, drop n rest) else None)
           | [] \<Rightarrow> None)
      | _ \<Rightarrow> None)"

lemma str_find_line: "CR \<notin> set a \<Longrightarrow> str_find crlf (a @ CR # LF # b) = Some (length a)"
proof (induction a)
  case (Cons x a)
  then have "take 2 (x # a @ CR # LF # b) \<noteq> crlf" by (cases a) auto
  with Cons show ?case by (simp add: numeral_2_eq_2)
qed simp

lemma read_lines_text:
  "\<forall>l \<in> set ls. l \<noteq> [] \<and> CR \<notin> set l \<Longrightarrow>
   read_lines (concat (map (\<lambda>l. l @ crlf) ls) @ crlf @ rest) = Some (ls, rest)"
  by (induction ls) (simp_all add: read_lines.simps str_find_line)

lemma length_field_eval:
  "is_length_field (''Content-Length: '' @ s)" "field_value (''Content-Length: '' @ s) = s"
  "\<not> is_length_field (''Connection: '' @ s)"
  by (simp_all add: is_length_field_def field_value_def lower_eval)

lemma filter_header_lines:
  "filter is_length_field ((''Connection: '' @ c) # (''Content-Length: '' @ s) # ls) =
     (''Content-Length: '' @ s) # filter is_length_field ls"
  using length_field_eval(1) [of s] length_field_eval(3) [of c] by simp

definition response_ok :: "http_response \<Rightarrow> bool" where
  "response_ok r \<longleftrightarrow> length (res_body r) < 10 ^ 13 \<and> CR \<notin> set (status_line r) \<and>
     list_all (\<lambda>h. CR \<notin> set (fst h) \<and> CR \<notin> set (snd h)) (res_headers r)"

lemma client_read_text:
  assumes "response_ok r"
  shows "client_read (response_text r @ rest) = Some (status_line r, header_lines r, res_body r, rest)"
proof -
  have nonempty: "status_line r \<noteq> []"
  proof -
    obtain d ds where d: "nat_to_dec (status_number (res_statusCode r)) = d # ds" and "is_digit d"
      using nat_to_dec_hd by blast
    then have "d \<noteq> NUL" by (auto simp: is_digit_def)
    show ?thesis
    proof (cases "c_str (res_httpVersion r)")
      case Nil
      with d \<open>d \<noteq> NUL\<close> show ?thesis by (simp add: status_line_def snprintf_32_def c_str_def)
    next
      case (Cons x xs)
      then have "x \<in> set (c_str (res_httpVersion r))" by simp
      then have "x \<noteq> NUL" by (auto simp: c_str_def dest: set_takeWhileD)
      with Cons show ?thesis
        by (simp add: status_line_def snprintf_32_def) (simp add: c_str_def)
    qed
  qed
  have "CR \<notin> set (nat_to_dec n)" for n by (rule nat_to_dec_no) (simp add: is_digit_def)
  then have "\<forall>l \<in> set (status_line r # header_lines r). l \<noteq> [] \<and> CR \<notin> set l"
    using assms nonempty
    by (auto simp: response_ok_def header_lines_def field_line_def other_headers_def list_all_iff)
  from read_lines_text [OF this, of "res_body r @ rest"]
  have "read_lines (response_text r @ rest) =
      Some (status_line r # header_lines r, res_body r @ rest)"
    by (simp add: response_text_def)
  moreover have "filter is_length_field (header_lines r) =
      (''Content-Length: '' @ nat_to_dec (length (res_body r))) #
      filter is_length_field (map field_line (other_headers r))"
    by (simp only: header_lines_def filter_header_lines)
  moreover have "dec_value (field_value (''Content-Length: '' @ nat_to_dec n)) = n" for n
    by (simp only: length_field_eval dec_value_nat_to_dec)
  ultimately show ?thesis by (simp add: client_read_def Let_def)
qed

text \<open>C23: a response whose fields hold no carriage return is framed right on the wire: whatever
  follows it on the connection, a client that reads header lines up to the blank line and
  then as many bytes as \<open>Content-Length\<close> says gets the status line, the header lines, exactly the
  body, and leaves the rest (so keep-alive responses do not run into each other).\<close>

theorem response_framing:
  assumes "buffer_laws B" "response_ok r"
  shows "client_read (readable B (appendToBuffer B r (empty_buf B)) @ rest) =
           Some (status_line r, header_lines r, res_body r, rest)"
  using client_read_text [OF assms(2), of rest] assms(2)
  by (simp add: appendToBuffer_text [OF assms(1)] response_ok_def empty_law [OF assms(1)])

theorem response_framing_witness:
  "client_read (readable string_buffer (appendToBuffer string_buffer
      \<lparr>res_httpVersion = ''HTTP/1.1'', res_statusCode = k200Ok, res_statusMessage = ''OK'',
       res_closeConnection = False, res_headers = [(''Content-Type'', ''text/html'')],
       res_body = ''hi''\<rparr> (empty_buf string_buffer)) @ ''HTTP'') =
   Some (''HTTP/1.1 200 OK'',
     [''Connection: Keep-Alive'', ''Content-Length: 2'', ''Content-Type: text/html''], ''hi'', ''HTTP'')"
proof -
  let ?r = "\<lparr>res_httpVersion = ''HTTP/1.1'', res_statusCode = k200Ok, res_statusMessage = ''OK'',
       res_closeConnection = False, res_headers = [(''Content-Type'', ''text/html'')],
       res_body = ''hi''\<rparr>"
  have line: "status_line ?r = ''HTTP/1.1 200 OK''"
    by (simp add: status_line_def snprintf_32_def c_str_def dec_eval)
  have "header_lines ?r =
      [''Connection: Keep-Alive'', ''Content-Length: 2'', ''Content-Type: text/html'']"
    by (simp add: header_lines_def other_headers_def field_line_def dec_eval lower_eval eval_nat_numeral)
  moreover have "response_ok ?r" unfolding response_ok_def line by simp
  ultimately show ?thesis
    using response_framing [OF buffer_laws_string, of ?r "''HTTP''"] line by simp
qed

text \<open>Whatever header fields a handler sets, the message carries exactly one \<open>Content-Length\<close>
  line, and its value is the size of the body: a field of that name set through
  \<open>setContentLength\<close> or \<open>addHeader\<close>, in any letter case, is not repeated.\<close>

theorem one_content_length:
  assumes "list_all (\<lambda>h. CHR '':'' \<notin> set (fst h)) (res_headers r)"
  shows "filter is_length_field (header_lines r) = [''Content-Length: '' @ nat_to_dec (length (res_body r))]"
proof -
  have "\<not> is_length_field (field_line h)" if "h \<in> set (other_headers r)" for h
  proof -
    have "CHR '':'' \<notin> set (fst h)" "to_lower (fst h) \<noteq> ''content-length''"
      using that assms by (auto simp: other_headers_def list_all_iff)
    moreover have "takeWhile (\<lambda>x. x \<noteq> CHR '':'') (field_line h) = fst h"
      using calculation(1) by (simp add: field_line_def takeWhile_until)
    ultimately show ?thesis by (simp add: is_length_field_def)
  qed
  then have "filter is_length_field (map field_line (other_headers r)) = []"
    by (auto simp: filter_empty_conv)
  then show ?thesis by (simp only: header_lines_def filter_header_lines)
qed

theorem one_content_length_witness:
  "filter is_length_field (header_lines (addHeader ''content-LENGTH'' ''7''
     (setContentLength 9 (setBody ''hello'' (new_response True))))) =
   [''Content-Length: '' @ nat_to_dec 5]"
  using one_content_length [of "addHeader ''content-LENGTH'' ''7''
     (setContentLength 9 (setBody ''hello'' (new_response True)))"]
  by (simp add: addHeader_def setContentLength_def setBody_def new_response_def eval_nat_numeral)

end
