(* ===== verification/Session.thy ===== *)
theory Session
  imports Http_Request Http_Response "HOL-Library.AList"
begin

section \<open>Sessions\<close>

text \<open>
  \<open>HttpServer/include/session/\<close> and \<open>HttpServer/src/session/\<close>.  A \<open>Session\<close> is shared by
  pointers, so sessions live in a heap: an address stands for the \<open>shared_ptr\<close>, and the storage
  maps an id to an address.  The n-th call of \<open>system_clock::now()\<close> returns \<open>sw_time w n\<close>
  (in nanoseconds) and the n-th draw of the random generator is \<open>sw_rand w n\<close>; nothing is
  assumed of either unless a lemma says so.  \<open>SessionStorage\<close> is an interface: the manager
  takes its operations as a record, \<open>MemorySessionStorage\<close> is the implementation.
\<close>

type_synonym addr = nat

record session =
  ses_id :: bytes
  ses_data :: "bytes \<rightharpoonup> bytes"
  ses_expiryTime :: int
  ses_maxAge :: int
  ses_hasManager :: bool         \<comment> \<open>\<open>sessionManager_\<close> is not null\<close>

record 's session_world =
  sw_heap :: "addr \<Rightarrow> session"
  sw_next :: addr                \<comment> \<open>addresses below are in use\<close>
  sw_store :: 's                 \<comment> \<open>the state of the storage object\<close>
  sw_time :: "nat \<Rightarrow> int"
  sw_ticks :: nat
  sw_rand :: "nat \<Rightarrow> nat"
  sw_draws :: nat

record 's storage_ops =
  st_save :: "addr \<Rightarrow> 's session_world \<Rightarrow> 's session_world"
  st_load :: "bytes \<Rightarrow> 's session_world \<Rightarrow> addr option \<times> 's session_world"
  st_remove :: "bytes \<Rightarrow> 's session_world \<Rightarrow> 's session_world"
  st_cleanExpired :: "'s session_world \<Rightarrow> 's session_world"

definition clock_now :: "'s session_world \<Rightarrow> int \<times> 's session_world" where
  "clock_now w = (sw_time w (sw_ticks w), w\<lparr>sw_ticks := sw_ticks w + 1\<rparr>)"

subsection \<open>Session\<close>

definition isExpired :: "addr \<Rightarrow> 's session_world \<Rightarrow> bool \<times> 's session_world" where
  "isExpired a w = (let (t, w1) = clock_now w in (ses_expiryTime (sw_heap w a) < t, w1))"

definition update_session :: "addr \<Rightarrow> (session \<Rightarrow> session) \<Rightarrow> 's session_world \<Rightarrow> 's session_world" where
  "update_session a f w = w\<lparr>sw_heap := (sw_heap w)(a := f (sw_heap w a))\<rparr>"

definition refresh :: "addr \<Rightarrow> 's session_world \<Rightarrow> 's session_world" where
  "refresh a w =
     (let (t, w1) = clock_now w
      in update_session a (\<lambda>x. x\<lparr>ses_expiryTime := t + ses_maxAge x * 1000000000\<rparr>) w1)"

definition make_session :: "bytes \<Rightarrow> int \<Rightarrow> 's session_world \<Rightarrow> addr \<times> 's session_world" where
  \<comment> \<open>\<open>std::make_shared<Session>(id, this, maxAge)\<close>\<close>
  "make_session i maxAge w =
     (let a = sw_next w;
          w1 = w\<lparr>sw_next := a + 1,
                 sw_heap := (sw_heap w)(a := \<lparr>ses_id = i, ses_data = Map.empty, ses_expiryTime = 0,
                   ses_maxAge = maxAge, ses_hasManager = True\<rparr>)\<rparr>
      in (a, refresh a w1))"

definition setManager :: "addr \<Rightarrow> 's session_world \<Rightarrow> 's session_world" where
  "setManager a = update_session a (\<lambda>x. x\<lparr>ses_hasManager := True\<rparr>)"

definition getValue :: "addr \<Rightarrow> bytes \<Rightarrow> 's session_world \<Rightarrow> bytes" where
  "getValue a key w = (case ses_data (sw_heap w a) key of Some v \<Rightarrow> v | None \<Rightarrow> [])"

definition updateSession :: "'s storage_ops \<Rightarrow> addr \<Rightarrow> 's session_world \<Rightarrow> 's session_world" where
  \<comment> \<open>\<open>SessionManager::updateSession\<close>\<close>
  "updateSession st a w = st_save st a w"

definition setValue ::
    "'s storage_ops \<Rightarrow> addr \<Rightarrow> bytes \<Rightarrow> bytes \<Rightarrow> 's session_world \<Rightarrow> 's session_world" where
  "setValue st a key v w =
     (let w1 = update_session a (\<lambda>x. x\<lparr>ses_data := (ses_data x)(key \<mapsto> v)\<rparr>) w
      in if ses_hasManager (sw_heap w1 a) then updateSession st a w1 else w1)"

definition remove_value :: "addr \<Rightarrow> bytes \<Rightarrow> 's session_world \<Rightarrow> 's session_world" where
  "remove_value a key = update_session a (\<lambda>x. x\<lparr>ses_data := (ses_data x)(key := None)\<rparr>)"

definition clear_session :: "addr \<Rightarrow> 's session_world \<Rightarrow> 's session_world" where
  "clear_session a = update_session a (\<lambda>x. x\<lparr>ses_data := Map.empty\<rparr>)"

subsection \<open>MemorySessionStorage\<close>

text \<open>The \<open>unordered_map\<close> as the list of its entries in iteration order.\<close>

type_synonym mem_store = "(bytes \<times> addr) list"

definition mem_save :: "addr \<Rightarrow> mem_store session_world \<Rightarrow> mem_store session_world" where
  "mem_save a w = w\<lparr>sw_store := AList.update (ses_id (sw_heap w a)) a (sw_store w)\<rparr>"

definition mem_load :: "bytes \<Rightarrow> mem_store session_world \<Rightarrow> addr option \<times> mem_store session_world" where
  "mem_load i w =
     (case map_of (sw_store w) i of
        Some a \<Rightarrow>
          (let (expired, w1) = isExpired a w
           in if \<not> expired then (Some a, w1)
              else (None, w1\<lparr>sw_store := AList.delete i (sw_store w1)\<rparr>))
      | None \<Rightarrow> (None, w))"

definition mem_remove :: "bytes \<Rightarrow> mem_store session_world \<Rightarrow> mem_store session_world" where
  "mem_remove i w = w\<lparr>sw_store := AList.delete i (sw_store w)\<rparr>"

fun clean_loop :: "mem_store \<Rightarrow> mem_store session_world \<Rightarrow> mem_store \<times> mem_store session_world" where
  \<comment> \<open>the entries the iteration keeps, in their order\<close>
  "clean_loop [] w = ([], w)"
| "clean_loop ((i, a) # rest) w =
     (let (expired, w1) = isExpired a w; (kept, w2) = clean_loop rest w1
      in if expired then (kept, w2) else ((i, a) # kept, w2))"

definition mem_cleanExpired :: "mem_store session_world \<Rightarrow> mem_store session_world" where
  "mem_cleanExpired w = (let (kept, w1) = clean_loop (sw_store w) w in w1\<lparr>sw_store := kept\<rparr>)"

definition memory_storage :: "mem_store storage_ops" where
  "memory_storage = \<lparr>st_save = mem_save, st_load = mem_load, st_remove = mem_remove,
     st_cleanExpired = mem_cleanExpired\<rparr>"

subsection \<open>SessionManager\<close>

definition draw :: "'s session_world \<Rightarrow> nat \<times> 's session_world" where
  \<comment> \<open>\<open>dist(rng_)\<close> of \<open>uniform_int_distribution<>(0, 15)\<close>\<close>
  "draw w = (sw_rand w (sw_draws w) mod 16, w\<lparr>sw_draws := sw_draws w + 1\<rparr>)"

fun draw_hex :: "nat \<Rightarrow> 's session_world \<Rightarrow> bytes \<times> 's session_world" where
  "draw_hex 0 w = ([], w)"
| "draw_hex (Suc n) w =
     (let (d, w1) = draw w; (s, w2) = draw_hex n w1 in (hex_digit d # s, w2))"

definition generateSessionId :: "'s session_world \<Rightarrow> bytes \<times> 's session_world" where
  "generateSessionId w = draw_hex 32 w"

definition getSessionIdFromCookie :: "http_request \<Rightarrow> bytes" where
  "getSessionIdFromCookie req =
     (let cookie = getHeader ''Cookie'' req
      in if cookie = [] then []
         else (case str_find ''sessionId='' cookie of
             Some p \<Rightarrow>
               (let pos = p + 10
                in case str_find_from (CHR '';'') pos cookie of
                     Some e \<Rightarrow> substr pos (e - pos) cookie
                   | None \<Rightarrow> drop pos cookie)
           | None \<Rightarrow> []))"

definition setSessionCookie :: "bytes \<Rightarrow> http_response \<Rightarrow> http_response" where
  "setSessionCookie i resp =
     addHeader ''Set-Cookie'' (''sessionId='' @ i @ ''; Path=/; HttpOnly'') resp"

definition find_session ::
    "'s storage_ops \<Rightarrow> bytes \<Rightarrow> 's session_world \<Rightarrow> addr option \<times> 's session_world" where
  "find_session st i w = (if i \<noteq> [] then st_load st i w else (None, w))"

definition not_usable :: "addr option \<Rightarrow> 's session_world \<Rightarrow> bool \<times> 's session_world" where
  \<comment> \<open>\<open>!session || session->isExpired()\<close>\<close>
  "not_usable s w = (case s of None \<Rightarrow> (True, w) | Some a \<Rightarrow> isExpired a w)"

definition new_session ::
    "http_response \<Rightarrow> 's session_world \<Rightarrow> addr \<times> http_response \<times> 's session_world" where
  "new_session resp w =
     (let (i, w1) = generateSessionId w; (a, w2) = make_session i 3600 w1
      in (a, setSessionCookie i resp, w2))"

definition getSession ::
    "'s storage_ops \<Rightarrow> http_request \<Rightarrow> http_response \<Rightarrow> 's session_world
      \<Rightarrow> addr \<times> http_response \<times> 's session_world" where
  "getSession st req resp w =
     (let (found, w1) = find_session st (getSessionIdFromCookie req) w;
          (stale, w2) = not_usable found w1;
          (a, resp', w3) =
            (if stale then new_session resp w2
             else (the found, resp, setManager (the found) w2))
      in (a, resp', st_save st a (refresh a w3)))"

definition destroySession :: "'s storage_ops \<Rightarrow> bytes \<Rightarrow> 's session_world \<Rightarrow> 's session_world" where
  "destroySession st i w = st_remove st i w"

definition cleanExpiredSessions :: "'s storage_ops \<Rightarrow> 's session_world \<Rightarrow> 's session_world" where
  "cleanExpiredSessions st w = st_cleanExpired st w"

end
