(* ===== verification/Session_Contract.thy ===== *)
theory Session_Contract
  imports Session
begin

section \<open>What the session layer guarantees\<close>

text \<open>
  \<open>session_storage\<close> states what \<open>SessionManager\<close> relies on in a \<open>SessionStorage\<close>: an id is
  mapped to the session saved last under it, an expired one is not handed out, and no
  operation touches the session objects.  The lemmas about the manager are proved from that
  alone; \<open>MemorySessionStorage\<close> is an instance.
\<close>

definition same_objects :: "'s session_world \<Rightarrow> 's session_world \<Rightarrow> bool" where
  "same_objects w w' \<longleftrightarrow>
     sw_heap w' = sw_heap w \<and> sw_next w' = sw_next w \<and> sw_time w' = sw_time w \<and>
     sw_rand w' = sw_rand w \<and> sw_draws w' = sw_draws w"

lemma same_objects_trans: "same_objects a b \<Longrightarrow> same_objects b c \<Longrightarrow> same_objects a c"
  by (simp add: same_objects_def)

locale session_storage =
  fixes st :: "'s storage_ops"
    and stored :: "'s \<Rightarrow> bytes \<Rightarrow> addr option"
    and ok :: "'s \<Rightarrow> bool"
  assumes save_law: "ok (sw_store w) \<Longrightarrow>
      stored (sw_store (st_save st a w)) = (stored (sw_store w))(ses_id (sw_heap w a) \<mapsto> a) \<and>
      same_objects w (st_save st a w) \<and> sw_ticks (st_save st a w) = sw_ticks w \<and>
      ok (sw_store (st_save st a w))"
    and load_hit: "ok (sw_store w) \<Longrightarrow> stored (sw_store w) i = Some a \<Longrightarrow>
      sw_time w (sw_ticks w) \<le> ses_expiryTime (sw_heap w a) \<Longrightarrow>
      st_load st i w = (Some a, w\<lparr>sw_ticks := sw_ticks w + 1\<rparr>)"
    and load_law: "ok (sw_store w) \<Longrightarrow> st_load st i w = (r, w') \<Longrightarrow>
      same_objects w w' \<and> sw_ticks w \<le> sw_ticks w' \<and> ok (sw_store w') \<and>
      (\<forall>j a. stored (sw_store w') j = Some a \<longrightarrow> stored (sw_store w) j = Some a) \<and>
      (\<forall>a. r = Some a \<longrightarrow> stored (sw_store w') i = Some a)"
    and remove_law: "ok (sw_store w) \<Longrightarrow>
      stored (sw_store (st_remove st i w)) = (stored (sw_store w))(i := None) \<and>
      same_objects w (st_remove st i w) \<and> sw_ticks (st_remove st i w) = sw_ticks w \<and>
      ok (sw_store (st_remove st i w))"
    and clean_law: "ok (sw_store w) \<Longrightarrow>
      same_objects w (st_cleanExpired st w) \<and> sw_ticks w \<le> sw_ticks (st_cleanExpired st w) \<and>
      ok (sw_store (st_cleanExpired st w)) \<and>
      (\<forall>i a. stored (sw_store (st_cleanExpired st w)) i = Some a \<longrightarrow>
        stored (sw_store w) i = Some a \<and>
        (\<exists>n \<ge> sw_ticks w. sw_time w n \<le> ses_expiryTime (sw_heap w a))) \<and>
      (\<forall>i a. stored (sw_store w) i = Some a \<and>
        (\<forall>n < sw_ticks (st_cleanExpired st w). sw_time w n \<le> ses_expiryTime (sw_heap w a)) \<longrightarrow>
        stored (sw_store (st_cleanExpired st w)) i = Some a)"
begin

definition inv :: "'s session_world \<Rightarrow> bool" where
  \<comment> \<open>every id leads to a session that carries it\<close>
  "inv w \<longleftrightarrow> ok (sw_store w) \<and>
     (\<forall>i a. stored (sw_store w) i = Some a \<longrightarrow> a < sw_next w \<and> ses_id (sw_heap w a) = i)"

lemma inv_isolated:
  "inv w \<Longrightarrow> stored (sw_store w) i = Some a \<Longrightarrow> stored (sw_store w) j = Some a \<Longrightarrow> i = j"
  by (auto simp: inv_def)

lemma inv_save: "inv w \<Longrightarrow> a < sw_next w \<Longrightarrow> inv (st_save st a w)"
  using save_law [of w a] by (auto simp: inv_def same_objects_def)

lemma inv_update:
  "inv w \<Longrightarrow> (\<And>x. ses_id (f x) = ses_id x) \<Longrightarrow> inv (update_session a f w)"
  by (auto simp: inv_def update_session_def)

lemma inv_ticks [simp]: "inv (w\<lparr>sw_ticks := n\<rparr>) = inv w"
  by (simp add: inv_def)

lemma inv_refresh: "inv w \<Longrightarrow> inv (refresh a w)"
  unfolding refresh_def clock_now_def Let_def prod.case
  by (rule inv_update) simp_all

lemma inv_shrink:
  assumes "inv w" "same_objects w w'" "ok (sw_store w')"
    and "\<And>j a. stored (sw_store w') j = Some a \<Longrightarrow> stored (sw_store w) j = Some a"
  shows "inv w'"
  using assms by (auto simp: inv_def same_objects_def)

lemma inv_load:
  assumes "inv w" "st_load st i w = (r, w')"
  shows "inv w'"
proof -
  have "ok (sw_store w)" using assms(1) by (simp add: inv_def)
  from load_law [OF this assms(2)] show ?thesis by (intro inv_shrink [OF assms(1)]) simp_all
qed

lemma inv_setValue:
  assumes "inv w" "a < sw_next w"
  shows "inv (setValue st a k v w)"
proof -
  let ?w1 = "update_session a (\<lambda>x. x\<lparr>ses_data := (ses_data x)(k \<mapsto> v)\<rparr>) w"
  have "inv ?w1" using assms(1) by (rule inv_update) simp
  moreover have "a < sw_next ?w1" using assms(2) by (simp add: update_session_def)
  ultimately show ?thesis
    by (simp add: setValue_def updateSession_def Let_def inv_save)
qed

lemma inv_destroy:
  assumes "inv w"
  shows "inv (destroySession st i w)"
proof -
  have "ok (sw_store w)" using assms by (simp add: inv_def)
  from remove_law [OF this, of i] show ?thesis
    unfolding destroySession_def by (intro inv_shrink [OF assms]) (simp_all split: if_splits)
qed

lemma inv_clean:
  assumes "inv w"
  shows "inv (cleanExpiredSessions st w)"
proof -
  have "ok (sw_store w)" using assms by (simp add: inv_def)
  note law = clean_law [OF this]
  show ?thesis
    unfolding cleanExpiredSessions_def by (rule inv_shrink [OF assms]) (use law in blast)+
qed

end

lemma draw_hex_frame:
  "draw_hex n w = (s, w') \<Longrightarrow> length s = n \<and>
   w' = w\<lparr>sw_draws := sw_draws w + n\<rparr> \<and> set s \<subseteq> hex_digit ` {..<16}"
proof (induction n arbitrary: w s w')
  case (Suc n)
  then obtain s1 where "s = hex_digit (sw_rand w (sw_draws w) mod 16) # s1"
    "draw_hex n (w\<lparr>sw_draws := sw_draws w + 1\<rparr>) = (s1, w')"
    by (auto simp: draw_def Let_def split: prod.splits)
  with Suc.IH [of "w\<lparr>sw_draws := sw_draws w + 1\<rparr>" s1 w'] show ?case by auto
qed simp

lemma hex_digit_codes: "d < 16 \<Longrightarrow>
   48 \<le> (of_char (hex_digit d) :: nat) \<and> (of_char (hex_digit d) :: nat) \<le> 102 \<and>
   (of_char (hex_digit d) :: nat) \<noteq> 59"
  by (auto simp: hex_digit_def of_char_digit_char of_char_mod_256)

lemma generated_id:
  assumes "generateSessionId w = (i, w')"
  shows "length i = 32" "CHR '';'' \<notin> set i" "i \<noteq> []" "w' = w\<lparr>sw_draws := sw_draws w + 32\<rparr>"
    "set i \<subseteq> hex_digit ` {..<16}"
proof -
  note f = draw_hex_frame [OF assms [unfolded generateSessionId_def]]
  then show "length i = 32" "w' = w\<lparr>sw_draws := sw_draws w + 32\<rparr>"
    "set i \<subseteq> hex_digit ` {..<16}" by simp_all
  then show "i \<noteq> []" by auto
  have "(of_char (CHR '';'') :: nat) = 59" by simp
  with f hex_digit_codes show "CHR '';'' \<notin> set i" by fastforce
qed

context session_storage
begin

text \<open>\<open>getSession\<close> on a session that is stored and not expired at both looks at the clock.\<close>

lemma getSession_found:
  assumes "ok (sw_store w)" "getSessionIdFromCookie req = i" "i \<noteq> []" "stored (sw_store w) i = Some a"
    and "sw_time w (sw_ticks w) \<le> ses_expiryTime (sw_heap w a)"
    and "sw_time w (sw_ticks w + 1) \<le> ses_expiryTime (sw_heap w a)"
  shows "getSession st req resp w =
    (a, resp, st_save st a (refresh a (setManager a (w\<lparr>sw_ticks := sw_ticks w + 2\<rparr>))))"
  using assms load_hit [OF assms(1,4,5)]
  by (simp add: getSession_def find_session_def not_usable_def isExpired_def clock_now_def)

lemma inv_find:
  assumes "inv w" "find_session st i w = (found, w1)"
  shows "inv w1 \<and> (\<forall>a. found = Some a \<longrightarrow> stored (sw_store w1) i = Some a)"
proof (cases "i = []")
  case False
  then have "st_load st i w = (found, w1)" using assms(2) by (simp add: find_session_def)
  with assms(1) inv_load [of w i found w1] load_law [of w i found w1] show ?thesis
    by (simp add: inv_def)
qed (use assms in \<open>auto simp: find_session_def\<close>)

lemma inv_new_session:
  assumes "inv w" "new_session resp w = (a, resp', w')"
  shows "inv w'" "a = sw_next w" "a < sw_next w'"
proof -
  obtain i w1 where g: "generateSessionId w = (i, w1)" by fastforce
  then have w1: "w1 = w\<lparr>sw_draws := sw_draws w + 32\<rparr>" by (rule generated_id)
  let ?m = "w1\<lparr>sw_next := sw_next w1 + 1, sw_heap := (sw_heap w1)(sw_next w1 :=
      \<lparr>ses_id = i, ses_data = Map.empty, ses_expiryTime = 0, ses_maxAge = 3600, ses_hasManager = True\<rparr>)\<rparr>"
  have "inv ?m" using assms(1) by (fastforce simp: inv_def w1)
  then have "inv (refresh (sw_next w1) ?m)" by (rule inv_refresh)
  moreover have "w' = refresh (sw_next w1) ?m" "a = sw_next w1"
    using assms(2) g by (auto simp: new_session_def make_session_def Let_def)
  ultimately show "inv w'" "a = sw_next w" "a < sw_next w'"
    by (simp_all add: w1 refresh_def clock_now_def update_session_def)
qed

lemma getSession_inv:
  assumes "inv w" "getSession st req resp w = (a, resp', w')"
  shows "inv w'" "a < sw_next w'" "stored (sw_store w') (ses_id (sw_heap w' a)) = Some a"
proof -
  obtain found w1 where f: "find_session st (getSessionIdFromCookie req) w = (found, w1)" by fastforce
  obtain stale w2 where u: "not_usable found w1 = (stale, w2)" by fastforce
  obtain b r w3 where st3: "(if stale then new_session resp w2
      else (the found, resp, setManager (the found) w2)) = (b, r, w3)" by (metis prod_cases3)
  have res: "a = b" "w' = st_save st b (refresh b w3)"
    using assms(2) by (auto simp: getSession_def f u st3)
  have w1: "inv w1 \<and> (\<forall>c. found = Some c \<longrightarrow> stored (sw_store w1) (getSessionIdFromCookie req) = Some c)"
    using assms(1) f by (rule inv_find)
  have w2: "inv w2" "sw_store w2 = sw_store w1"
    using u w1 by (auto simp: not_usable_def isExpired_def clock_now_def split: option.splits)
  have w3: "inv w3 \<and> b < sw_next w3"
  proof (cases stale)
    case True
    with st3 inv_new_session [OF w2(1)] show ?thesis by simp
  next
    case False
    then obtain c where found: "found = Some c"
      using u by (cases found) (simp_all add: not_usable_def)
    have c: "found = Some c" "w3 = setManager c w2" "b = c"
      using st3 False unfolding found by auto
    moreover have "inv (setManager c w2)"
      unfolding setManager_def using w2(1) by (rule inv_update) simp
    moreover have "c < sw_next w2" using w1 w2 c(1) by (auto simp: inv_def)
    ultimately show ?thesis by (simp add: setManager_def update_session_def)
  qed
  have nx: "sw_next (refresh b w3) = sw_next w3"
    by (simp add: refresh_def clock_now_def update_session_def)
  have i3: "inv (refresh b w3)" using w3 inv_refresh by blast
  then have ok3: "ok (sw_store (refresh b w3))" by (simp add: inv_def)
  note law = save_law [OF ok3, of b]
  show "inv w'" unfolding res using i3 w3 nx by (intro inv_save) simp_all
  show "a < sw_next w'" unfolding res using law w3 nx by (simp add: same_objects_def)
  have "sw_heap (st_save st b (refresh b w3)) = sw_heap (refresh b w3)"
    using law by (simp add: same_objects_def)
  then show "stored (sw_store w') (ses_id (sw_heap w' a)) = Some a"
    unfolding res by (simp only: law fun_upd_same)
qed

end

subsection \<open>MemorySessionStorage obeys the contract\<close>

lemma clean_loop_spec:
  assumes "clean_loop xs w = (kept, w')" "distinct (map fst xs)"
  shows "w' = w\<lparr>sw_ticks := sw_ticks w + length xs\<rparr>" "distinct (map fst kept)"
    "set kept \<subseteq> set xs"
    "\<forall>(i, a) \<in> set kept. \<exists>n \<ge> sw_ticks w. sw_time w n \<le> ses_expiryTime (sw_heap w a)"
    "\<forall>(i, a) \<in> set xs. (\<forall>n < sw_ticks w + length xs. sw_time w n \<le> ses_expiryTime (sw_heap w a)) \<longrightarrow>
       (i, a) \<in> set kept"
proof -
  have "w' = w\<lparr>sw_ticks := sw_ticks w + length xs\<rparr> \<and> distinct (map fst kept) \<and> set kept \<subseteq> set xs \<and>
    (\<forall>(i, a) \<in> set kept. \<exists>n \<ge> sw_ticks w. sw_time w n \<le> ses_expiryTime (sw_heap w a)) \<and>
    (\<forall>(i, a) \<in> set xs. (\<forall>n < sw_ticks w + length xs. sw_time w n \<le> ses_expiryTime (sw_heap w a)) \<longrightarrow>
       (i, a) \<in> set kept)"
    using assms
  proof (induction xs arbitrary: w kept w')
    case (Cons x xs)
    obtain i a where x: "x = (i, a)" by fastforce
    let ?w1 = "w\<lparr>sw_ticks := sw_ticks w + 1\<rparr>"
    obtain k w2 where r: "clean_loop xs ?w1 = (k, w2)" by fastforce
    have res: "w' = w2" "kept = (if ses_expiryTime (sw_heap w a) < sw_time w (sw_ticks w) then k else x # k)"
      using Cons.prems(1) r by (auto simp: x isExpired_def clock_now_def split: if_splits)
    have d: "distinct (map fst xs)" "fst x \<notin> fst ` set xs" using Cons.prems(2) by simp_all
    note ih = Cons.IH [OF r d(1)]
    have "distinct (map fst kept)" using ih d(2) by (auto simp: res)
    moreover have "\<forall>(i, a) \<in> set kept. \<exists>n \<ge> sw_ticks w. sw_time w n \<le> ses_expiryTime (sw_heap w a)"
    proof -
      have "\<exists>n \<ge> sw_ticks w. sw_time w n \<le> ses_expiryTime (sw_heap w b)" if "(j, b) \<in> set k" for j b
        using ih that by (fastforce dest: Suc_leD)
      then show ?thesis by (auto simp: res x not_less)
    qed
    moreover have "set kept \<subseteq> set (x # xs)" using ih by (auto simp: res)
    moreover have "w' = w\<lparr>sw_ticks := sw_ticks w + length (x # xs)\<rparr>" using ih by (simp add: res)
    moreover have "\<forall>(i, a) \<in> set (x # xs).
        (\<forall>n < sw_ticks w + length (x # xs). sw_time w n \<le> ses_expiryTime (sw_heap w a)) \<longrightarrow>
        (i, a) \<in> set kept"
    proof -
      have "\<not> (\<forall>n < sw_ticks w + length (x # xs). sw_time w n \<le> ses_expiryTime (sw_heap w a))"
        if "ses_expiryTime (sw_heap w a) < sw_time w (sw_ticks w)"
        using that by (auto intro!: exI [of _ "sw_ticks w"] simp: not_le)
      with ih show ?thesis by (auto simp: res x)
    qed
    ultimately show ?case by blast
  qed simp
  then show "w' = w\<lparr>sw_ticks := sw_ticks w + length xs\<rparr>" "distinct (map fst kept)"
    "set kept \<subseteq> set xs"
    "\<forall>(i, a) \<in> set kept. \<exists>n \<ge> sw_ticks w. sw_time w n \<le> ses_expiryTime (sw_heap w a)"
    "\<forall>(i, a) \<in> set xs. (\<forall>n < sw_ticks w + length xs. sw_time w n \<le> ses_expiryTime (sw_heap w a)) \<longrightarrow>
       (i, a) \<in> set kept" by blast+
qed

interpretation memory: session_storage memory_storage map_of "\<lambda>s. distinct (map fst s)"
proof
  fix w :: "mem_store session_world" and i a
  assume d: "distinct (map fst (sw_store w))"
  show "map_of (sw_store (st_save memory_storage a w)) =
      (map_of (sw_store w))(ses_id (sw_heap w a) \<mapsto> a) \<and>
      same_objects w (st_save memory_storage a w) \<and>
      sw_ticks (st_save memory_storage a w) = sw_ticks w \<and>
      distinct (map fst (sw_store (st_save memory_storage a w)))"
    using d by (simp add: memory_storage_def mem_save_def same_objects_def update_conv' distinct_update)
  show "map_of (sw_store (st_remove memory_storage i w)) = (map_of (sw_store w))(i := None) \<and>
      same_objects w (st_remove memory_storage i w) \<and>
      sw_ticks (st_remove memory_storage i w) = sw_ticks w \<and>
      distinct (map fst (sw_store (st_remove memory_storage i w)))"
    using d by (simp add: memory_storage_def mem_remove_def same_objects_def delete_conv' distinct_delete)
  show "st_load memory_storage i w = (Some a, w\<lparr>sw_ticks := sw_ticks w + 1\<rparr>)"
    if "map_of (sw_store w) i = Some a" "sw_time w (sw_ticks w) \<le> ses_expiryTime (sw_heap w a)"
    using that by (simp add: memory_storage_def mem_load_def isExpired_def clock_now_def)
  show "same_objects w w' \<and> sw_ticks w \<le> sw_ticks w' \<and> distinct (map fst (sw_store w')) \<and>
      (\<forall>j a. map_of (sw_store w') j = Some a \<longrightarrow> map_of (sw_store w) j = Some a) \<and>
      (\<forall>a. r = Some a \<longrightarrow> map_of (sw_store w') i = Some a)"
    if "st_load memory_storage i w = (r, w')" for r w'
  proof (cases "map_of (sw_store w) i")
    case None
    with that d show ?thesis by (simp add: memory_storage_def mem_load_def same_objects_def)
  next
    case (Some b)
    show ?thesis
    proof (cases "ses_expiryTime (sw_heap w b) < sw_time w (sw_ticks w)")
      case True
      with that Some have "r = None" "w' = w\<lparr>sw_ticks := sw_ticks w + 1, sw_store := AList.delete i (sw_store w)\<rparr>"
        by (auto simp: memory_storage_def mem_load_def isExpired_def clock_now_def)
      with d show ?thesis by (simp add: same_objects_def delete_conv' distinct_delete split: if_splits)
    next
      case False
      with that Some have "r = Some b" "w' = w\<lparr>sw_ticks := sw_ticks w + 1\<rparr>"
        by (auto simp: memory_storage_def mem_load_def isExpired_def clock_now_def)
      with d Some show ?thesis by (simp add: same_objects_def)
    qed
  qed
  obtain kept w' where c: "clean_loop (sw_store w) w = (kept, w')" by fastforce
  note spec = clean_loop_spec [OF c d]
  have eq: "st_cleanExpired memory_storage w =
      w\<lparr>sw_ticks := sw_ticks w + length (sw_store w), sw_store := kept\<rparr>"
    using spec(1) by (simp add: memory_storage_def mem_cleanExpired_def c)
  have sub: "map_of kept j = Some b \<Longrightarrow> map_of (sw_store w) j = Some b" for j b
    using spec(2,3) d by (auto simp: map_of_eq_Some_iff)
  have mem: "map_of kept j = Some b \<longleftrightarrow> (j, b) \<in> set kept" for j b
    using spec(2) by (simp add: map_of_eq_Some_iff)
  have mem': "map_of (sw_store w) j = Some b \<longleftrightarrow> (j, b) \<in> set (sw_store w)" for j b
    using d by (simp add: map_of_eq_Some_iff)
  show "same_objects w (st_cleanExpired memory_storage w) \<and>
      sw_ticks w \<le> sw_ticks (st_cleanExpired memory_storage w) \<and>
      distinct (map fst (sw_store (st_cleanExpired memory_storage w))) \<and>
      (\<forall>i a. map_of (sw_store (st_cleanExpired memory_storage w)) i = Some a \<longrightarrow>
        map_of (sw_store w) i = Some a \<and>
        (\<exists>n \<ge> sw_ticks w. sw_time w n \<le> ses_expiryTime (sw_heap w a))) \<and>
      (\<forall>i a. map_of (sw_store w) i = Some a \<and>
        (\<forall>n < sw_ticks (st_cleanExpired memory_storage w).
           sw_time w n \<le> ses_expiryTime (sw_heap w a)) \<longrightarrow>
        map_of (sw_store (st_cleanExpired memory_storage w)) i = Some a)"
    unfolding eq using spec(2,4,5) sub by (simp add: same_objects_def mem mem') blast
qed

subsection \<open>Properties of the session layer\<close>

definition sessions_ok :: "mem_store session_world \<Rightarrow> bool" where
  "sessions_ok w \<longleftrightarrow> distinct (map fst (sw_store w)) \<and>
     (\<forall>(i, a) \<in> set (sw_store w). a < sw_next w \<and> ses_id (sw_heap w a) = i)"

lemma sessions_ok_inv: "sessions_ok w \<longleftrightarrow> memory.inv w"
  by (auto simp: sessions_ok_def memory.inv_def)

lemma memory_storage_simps [simp]:
  "st_save memory_storage = mem_save" "st_load memory_storage = mem_load"
  "st_remove memory_storage = mem_remove" "st_cleanExpired memory_storage = mem_cleanExpired"
  by (simp_all add: memory_storage_def)

definition empty_sessions :: "(nat \<Rightarrow> int) \<Rightarrow> (nat \<Rightarrow> nat) \<Rightarrow> mem_store session_world" where
  "empty_sessions time rand =
     \<lparr>sw_heap = (\<lambda>_. \<lparr>ses_id = [], ses_data = Map.empty, ses_expiryTime = 0, ses_maxAge = 0,
        ses_hasManager = False\<rparr>),
      sw_next = 0, sw_store = [], sw_time = time, sw_ticks = 0, sw_rand = rand, sw_draws = 0\<rparr>"

lemma sessions_ok_empty [simp]: "sessions_ok (empty_sessions t r)"
  by (simp add: sessions_ok_def empty_sessions_def)

text \<open>C19: the store never mixes sessions up: every id leads to a session object carrying that id, so
  two ids never share one; \<open>getSession\<close> (which also leaves the session it returns stored under
  its own id), \<open>setValue\<close>, \<open>destroySession\<close> and \<open>cleanExpiredSessions\<close> all keep this, whatever
  the clock and the random generator return.\<close>

theorem session_store_invariant:
  assumes "sessions_ok w"
  shows "(\<forall>req resp a resp' w'. getSession memory_storage req resp w = (a, resp', w') \<longrightarrow>
             sessions_ok w' \<and> map_of (sw_store w') (ses_id (sw_heap w' a)) = Some a) \<and>
         (\<forall>b < sw_next w. \<forall>k v. sessions_ok (setValue memory_storage b k v w)) \<and>
         (\<forall>i. sessions_ok (destroySession memory_storage i w)) \<and>
         sessions_ok (cleanExpiredSessions memory_storage w)"
  using assms memory.getSession_inv [of w] memory.inv_setValue [of w] memory.inv_destroy [of w]
    memory.inv_clean [of w]
  unfolding sessions_ok_inv by blast

theorem session_store_invariant_witness:
  "sessions_ok (snd (snd (getSession memory_storage new_request (new_response True)
     (empty_sessions (\<lambda>_. 5) (\<lambda>n. n)))))"
proof -
  obtain a r w' where g: "getSession memory_storage new_request (new_response True)
      (empty_sessions (\<lambda>_. 5) (\<lambda>n. n)) = (a, r, w')" by (metis prod_cases3)
  with session_store_invariant [OF sessions_ok_empty, of "\<lambda>_. 5" "\<lambda>n. n"]
  have "sessions_ok w'" by blast
  then show ?thesis by (simp add: g)
qed

definition usable_session :: "bytes \<Rightarrow> addr \<Rightarrow> mem_store session_world \<Rightarrow> bool" where
  \<comment> \<open>stored under the id and not expired at the next two looks at the clock\<close>
  "usable_session i a w \<longleftrightarrow> i \<noteq> [] \<and> map_of (sw_store w) i = Some a \<and>
     sw_time w (sw_ticks w) \<le> ses_expiryTime (sw_heap w a) \<and>
     sw_time w (sw_ticks w + 1) \<le> ses_expiryTime (sw_heap w a)"

lemma cookie_id:
  assumes "req_headers req (to_lower ''Cookie'') = Some (pre @ ''sessionId='' @ i @ rest)"
    and "str_find ''sessionId='' (pre @ ''sessionId='') = Some (length pre)"
    and "CHR '';'' \<notin> set i" "rest = [] \<or> hd rest = CHR '';''"
  shows "getSessionIdFromCookie req = i"
proof -
  let ?c = "pre @ ''sessionId='' @ i @ rest"
  have f: "str_find ''sessionId='' ?c = Some (length pre)"
    using str_find_append [OF assms(2), of "i @ rest"] by simp
  have d: "drop (length pre + 10) ?c = i @ rest" by simp
  have h: "getHeader ''Cookie'' req = ?c" using assms(1) by (simp add: getHeader_def)
  have ne: "?c \<noteq> []" by simp
  have "(case str_find_from (CHR '';'') (length pre + 10) ?c of
           Some e \<Rightarrow> substr (length pre + 10) (e - (length pre + 10)) ?c
         | None \<Rightarrow> drop (length pre + 10) ?c) = i"
  proof (cases rest)
    case Nil
    with assms(3) show ?thesis
      by (simp only: str_find_from_def d) (simp add: find_char_less_iff)
  next
    case (Cons x xs)
    with assms(4) have r: "rest = CHR '';'' # xs" by simp
    show ?thesis
      unfolding str_find_from_def d substr_def
      by (simp only: r find_char_append [OF assms(3)]) simp
  qed
  with f h ne show ?thesis by (simp only: getSessionIdFromCookie_def Let_def if_False option.case)
qed

text \<open>The id read from a \<open>Cookie\<close> header is the text between the first occurrence of
  \<open>sessionId=\<close> and the next semicolon or the end.  The occurrence is not checked to be a whole
  cookie name: with \<open>pre\<close> = \<open>my\<close>, the value of a cookie \<open>mysessionId\<close> is taken.\<close>

theorem cookie_id_read:
  assumes "req_headers req (to_lower ''Cookie'') = Some (pre @ ''sessionId='' @ i @ rest)"
    and "str_find ''sessionId='' (pre @ ''sessionId='') = Some (length pre)"
    and "CHR '';'' \<notin> set i" "rest = [] \<or> hd rest = CHR '';''"
  shows "getSessionIdFromCookie req = i"
  using assms by (rule cookie_id)

theorem cookie_id_read_witness:
  "getSessionIdFromCookie (new_request\<lparr>req_headers :=
     [to_lower ''Cookie'' \<mapsto> ''mysessionId=evil; sessionId=good'']\<rparr>) = ''evil''"
  by (rule cookie_id_read [where pre = "''my''" and rest = "''; sessionId=good''"]) simp_all

definition one_session :: "mem_store session_world" where
  \<comment> \<open>one session \<open>s1\<close>, held at address 0 and stored\<close>
  "one_session = (empty_sessions (\<lambda>_. 5) (\<lambda>n. n))\<lparr>sw_next := 1, sw_store := [(''s1'', 0)],
     sw_heap := (\<lambda>_. \<lparr>ses_id = ''s1'', ses_data = Map.empty, ses_expiryTime = 9, ses_maxAge = 3600,
        ses_hasManager = True\<rparr>)\<rparr>"

lemma one_session_simps:
  "sw_heap one_session a = \<lparr>ses_id = ''s1'', ses_data = Map.empty, ses_expiryTime = 9,
     ses_maxAge = 3600, ses_hasManager = True\<rparr>"
  "sw_store one_session = [(''s1'', 0)]" "sw_time one_session n = 5" "sw_ticks one_session = 0"
  "sw_next one_session = 1"
  by (simp_all add: one_session_def empty_sessions_def)

definition cookie_request :: "bytes \<Rightarrow> http_request" where
  "cookie_request c = new_request\<lparr>req_headers := [to_lower ''Cookie'' \<mapsto> c]\<rparr>"

definition next_id :: "'s session_world \<Rightarrow> bytes" where
  \<comment> \<open>the hexadecimal digits of the next 32 draws of the generator\<close>
  "next_id w = map (\<lambda>k. hex_digit (sw_rand w (sw_draws w + k) mod 16)) [0..<32]"

lemma draw_hex_digits:
  "fst (draw_hex n w) = map (\<lambda>k. hex_digit (sw_rand w (sw_draws w + k) mod 16)) [0..<n]"
proof (induction n arbitrary: w)
  case (Suc n)
  show ?case
    using Suc [of "w\<lparr>sw_draws := sw_draws w + 1\<rparr>"]
    by (simp add: draw_def Let_def split_beta upt_conv_Cons map_Suc_upt [symmetric] comp_def del: upt_Suc)
qed simp

lemma generated_next_id: "generateSessionId w = (next_id w, w\<lparr>sw_draws := sw_draws w + 32\<rparr>)"
proof -
  obtain i w' where g: "generateSessionId w = (i, w')" by fastforce
  then have "i = fst (draw_hex 32 w)" by (simp add: generateSessionId_def)
  with generated_id(4) [OF g] g show ?thesis by (simp add: draw_hex_digits next_id_def)
qed

text \<open>The search for the session of the cookie changes the clock and may delete the entry of an expired one.\<close>

lemma search_frame:
  assumes "find_session memory_storage i w = (found, w1)" "not_usable found w1 = (stale, w2)"
    and "\<nexists>b. usable_session i b w"
  shows "stale" and "\<exists>s n. w2 = w\<lparr>sw_store := s, sw_ticks := n\<rparr> \<and> (\<forall>j. j \<noteq> i \<longrightarrow> map_of s j = map_of (sw_store w) j)"
proof -
  have "stale \<and> (\<exists>s n. w2 = w\<lparr>sw_store := s, sw_ticks := n\<rparr> \<and> (\<forall>j. j \<noteq> i \<longrightarrow> map_of s j = map_of (sw_store w) j))"
  proof (cases "i = [] \<or> map_of (sw_store w) i = None")
    case True
    then have "found = None" "w1 = w" using assms(1) by (auto simp: find_session_def mem_load_def split: if_splits)
    with assms(2) show ?thesis
      by (auto simp: not_usable_def intro!: exI [of _ "sw_store w"] exI [of _ "sw_ticks w"])
  next
    case False
    then obtain b where b: "map_of (sw_store w) i = Some b" "i \<noteq> []" by auto
    show ?thesis
    proof (cases "ses_expiryTime (sw_heap w b) < sw_time w (sw_ticks w)")
      case True
      with assms(1) b have "found = None"
        "w1 = w\<lparr>sw_store := AList.delete i (sw_store w), sw_ticks := sw_ticks w + 1\<rparr>"
        by (auto simp: find_session_def mem_load_def isExpired_def clock_now_def)
      with assms(2) show ?thesis
        by (auto simp: not_usable_def delete_conv' intro!: exI [of _ "AList.delete i (sw_store w)"]
            exI [of _ "sw_ticks w + 1"])
    next
      case False
      with assms(1) b have "found = Some b" "w1 = w\<lparr>sw_ticks := sw_ticks w + 1\<rparr>"
        by (auto simp: find_session_def mem_load_def isExpired_def clock_now_def)
      with assms(2,3) False b show ?thesis
        by (auto simp: not_usable_def isExpired_def clock_now_def usable_session_def
            intro!: exI [of _ "sw_store w"] exI [of _ "sw_ticks w + 2"])
    qed
  qed
  then show "stale" "\<exists>s n. w2 = w\<lparr>sw_store := s, sw_ticks := n\<rparr> \<and> (\<forall>j. j \<noteq> i \<longrightarrow> map_of s j = map_of (sw_store w) j)"
    by blast+
qed

lemma getSession_new:
  assumes "\<nexists>b. usable_session (getSessionIdFromCookie req) b w"
    and "getSession memory_storage req resp w = (a, resp', w')"
  shows "a = sw_next w \<and> sw_next w' = sw_next w + 1 \<and>
    sw_heap w' = (sw_heap w)(a := \<lparr>ses_id = next_id w, ses_data = Map.empty,
      ses_expiryTime = sw_time w (sw_ticks w' - 1) + 3600 * 1000000000, ses_maxAge = 3600, ses_hasManager = True\<rparr>) \<and>
    map_of (sw_store w') (next_id w) = Some a \<and>
    (\<forall>j. j \<noteq> next_id w \<and> j \<noteq> getSessionIdFromCookie req \<longrightarrow> map_of (sw_store w') j = map_of (sw_store w) j) \<and>
    resp' = setSessionCookie (next_id w) resp"
proof -
  let ?i = "getSessionIdFromCookie req"
  obtain found w1 where f: "find_session memory_storage ?i w = (found, w1)" by fastforce
  obtain stale w2 where u: "not_usable found w1 = (stale, w2)" by fastforce
  obtain s n where w2: "stale" "w2 = w\<lparr>sw_store := s, sw_ticks := n\<rparr>" "\<forall>j. j \<noteq> ?i \<longrightarrow> map_of s j = map_of (sw_store w) j"
    using search_frame [OF f u assms(1)] by blast
  have "next_id w2 = next_id w" by (simp add: w2(2) next_id_def)
  then have "getSession memory_storage req resp w =
      (let (a, w3) = make_session (next_id w) 3600 (w2\<lparr>sw_draws := sw_draws w2 + 32\<rparr>)
       in (a, setSessionCookie (next_id w) resp, mem_save a (refresh a w3)))"
    by (simp add: getSession_def f u w2(1) new_session_def generated_next_id Let_def split_beta)
  with assms(2) w2(2,3) show ?thesis
    by (auto simp: make_session_def refresh_def clock_now_def update_session_def mem_save_def update_conv' Let_def)
qed

text \<open>C20: what \<open>getSession\<close> does to the session layer, field by field (over a store in its invariant).  When the request's cookie names a stored
  session that is unexpired at both checks, that session is returned, without a cookie: its id and data stay,
  its expiry becomes its \<open>maxAge\<close> in seconds after the moment of the refresh, its manager is set, it stays stored
  under its id, and no other session object or entry changes.  In every other case (no cookie, unknown id, expired
  before or between the checks) a new session object is made without data, with the digits of the next 32 draws
  as id, an hour to live and the manager set; it is stored under that id, which goes into \<open>Set-Cookie\<close>, and
  no other session object changes, nor any entry but that of the cookie's id.\<close>

theorem getSession_spec:
  assumes "sessions_ok w" "getSession memory_storage req resp w = (a, resp', w')"
  shows "if (\<exists>b. usable_session (getSessionIdFromCookie req) b w)
    then usable_session (getSessionIdFromCookie req) a w \<and> resp' = resp \<and> sw_next w' = sw_next w \<and>
      sw_heap w' = (sw_heap w)(a := (sw_heap w a)\<lparr>ses_hasManager := True,
        ses_expiryTime := sw_time w (sw_ticks w' - 1) + ses_maxAge (sw_heap w a) * 1000000000\<rparr>) \<and>
      map_of (sw_store w') = map_of (sw_store w)
    else a = sw_next w \<and> sw_next w' = sw_next w + 1 \<and>
      sw_heap w' = (sw_heap w)(a := \<lparr>ses_id = next_id w, ses_data = Map.empty,
        ses_expiryTime = sw_time w (sw_ticks w' - 1) + 3600 * 1000000000, ses_maxAge = 3600, ses_hasManager = True\<rparr>) \<and>
      map_of (sw_store w') (next_id w) = Some a \<and>
      (\<forall>j. j \<noteq> next_id w \<and> j \<noteq> getSessionIdFromCookie req \<longrightarrow> map_of (sw_store w') j = map_of (sw_store w) j) \<and>
      resp' = setSessionCookie (next_id w) resp"
proof (cases "\<exists>b. usable_session (getSessionIdFromCookie req) b w")
  case True
  then obtain b where b: "usable_session (getSessionIdFromCookie req) b w" ..
  with assms memory.getSession_found [of w req "getSessionIdFromCookie req" b resp]
  have w': "a = b" "resp' = resp"
    "w' = mem_save b (refresh b (setManager b (w\<lparr>sw_ticks := sw_ticks w + 2\<rparr>)))"
    by (auto simp: usable_session_def sessions_ok_def)
  have "map_of (sw_store w) (ses_id (sw_heap w b)) = Some b"
    using b assms(1) by (auto simp: usable_session_def sessions_ok_def dest!: map_of_SomeD)
  with b w' True show ?thesis
    by (auto simp: mem_save_def refresh_def clock_now_def update_session_def setManager_def update_conv' map_upd_triv)
next
  case False
  show ?thesis unfolding if_not_P [OF False] by (rule getSession_new [OF False assms(2)])
qed

text \<open>Both branches: the cookie of the stored session, and a request without a cookie.\<close>

theorem getSession_spec_witness:
  "(\<exists>w'. getSession memory_storage (cookie_request ''sessionId=s1'') (new_response True) one_session =
       (0, new_response True, w') \<and> ses_expiryTime (sw_heap w' 0) = 3600000000005) \<and>
   (\<exists>r w'. getSession memory_storage new_request (new_response True) one_session = (1, r, w') \<and>
      map_of (sw_store w') ''s1'' = Some 0 \<and> map_of (sw_store w') (next_id one_session) = Some 1)"
proof
  have ok: "sessions_ok one_session" by (simp add: sessions_ok_def one_session_simps)
  have c: "getSessionIdFromCookie (cookie_request ''sessionId=s1'') = ''s1''"
    by (rule cookie_id [where pre = "[]" and rest = "[]"]) (simp_all add: cookie_request_def)
  then have u: "usable_session (getSessionIdFromCookie (cookie_request ''sessionId=s1'')) b one_session \<longleftrightarrow> b = 0" for b
    by (auto simp: usable_session_def one_session_simps)
  obtain a r w' where g: "getSession memory_storage (cookie_request ''sessionId=s1'') (new_response True) one_session =
      (a, r, w')" by (metis prod_cases3)
  with getSession_spec [OF ok g] u show "\<exists>w'. getSession memory_storage (cookie_request ''sessionId=s1'')
      (new_response True) one_session = (0, new_response True, w') \<and> ses_expiryTime (sw_heap w' 0) = 3600000000005"
    by (simp add: one_session_simps)
  obtain a r w' where g: "getSession memory_storage new_request (new_response True) one_session = (a, r, w')"
    by (metis prod_cases3)
  have n: "getSessionIdFromCookie new_request = []"
    by (simp add: getSessionIdFromCookie_def getHeader_def new_request_def)
  then have "\<not> (\<exists>b. usable_session (getSessionIdFromCookie new_request) b one_session)"
    by (simp add: usable_session_def)
  moreover have "''s1'' \<noteq> next_id one_session"
  proof
    assume "''s1'' = next_id one_session"
    then have "length ''s1'' = length (next_id one_session)" by (simp only:)
    then show False by (simp add: next_id_def)
  qed
  ultimately show "\<exists>r w'. getSession memory_storage new_request (new_response True) one_session = (1, r, w') \<and>
      map_of (sw_store w') ''s1'' = Some 0 \<and> map_of (sw_store w') (next_id one_session) = Some 1"
    using getSession_spec [OF ok g] g by (simp add: n one_session_simps)
qed

text \<open>A client that sends back the cookie of the session it was given gets the same session
  object, with the data a handler stored in it meanwhile, as long as it comes back before the
  session expires.\<close>

theorem session_comes_back:
  assumes "sessions_ok w" "getSession memory_storage req resp w = (a, resp1, w1)"
    and "ses_id (sw_heap w1 a) \<noteq> []" "key \<noteq> key'"
    and "getSessionIdFromCookie req2 = ses_id (sw_heap w1 a)"
    and "sw_time w1 (sw_ticks w1) \<le> ses_expiryTime (sw_heap w1 a)"
    and "sw_time w1 (sw_ticks w1 + 1) \<le> ses_expiryTime (sw_heap w1 a)"
    and "getSession memory_storage req2 resp2 (setValue memory_storage a key v w1) = (b, resp3, w2)"
  shows "b = a \<and> resp3 = resp2 \<and> getValue b key w2 = v \<and> getValue b key' w2 = getValue a key' w1"
proof -
  let ?w = "setValue memory_storage a key v w1"
  note inv = memory.getSession_inv [of w req resp a resp1 w1]
  have ok: "memory.inv w1" "a < sw_next w1" "map_of (sw_store w1) (ses_id (sw_heap w1 a)) = Some a"
    using inv assms(1,2) by (simp_all add: sessions_ok_inv)
  then have d: "distinct (map fst (sw_store ?w))"
    using memory.inv_setValue [of w1 a key v] by (simp add: memory.inv_def)
  have w: "sw_ticks ?w = sw_ticks w1" "sw_time ?w = sw_time w1"
    "ses_expiryTime (sw_heap ?w a) = ses_expiryTime (sw_heap w1 a)"
    "map_of (sw_store ?w) (ses_id (sw_heap w1 a)) = Some a"
    "ses_data (sw_heap ?w a) = (ses_data (sw_heap w1 a))(key \<mapsto> v)"
    using ok(3)
    by (simp_all add: setValue_def updateSession_def update_session_def mem_save_def Let_def
        update_conv')
  have "getSession memory_storage req2 resp2 ?w =
      (a, resp2, mem_save a (refresh a (setManager a (?w\<lparr>sw_ticks := sw_ticks ?w + 2\<rparr>))))"
    using memory.getSession_found [OF d assms(5,3) w(4)] assms(6,7) by (simp add: w(1,2,3))
  with assms(8) have "b = a" "resp3 = resp2" "ses_data (sw_heap w2 a) = ses_data (sw_heap ?w a)"
    by (auto simp: mem_save_def refresh_def clock_now_def update_session_def setManager_def)
  with w(5) assms(4) show ?thesis by (simp add: getValue_def)
qed

theorem session_comes_back_witness:
  "\<exists>w1 w2. getSession memory_storage (cookie_request ''sessionId=s1'') (new_response True) one_session =
       (0, new_response True, w1) \<and>
     getSession memory_storage (cookie_request ''sessionId=s1'') (new_response False)
       (setValue memory_storage 0 ''user'' ''7'' w1) = (0, new_response False, w2) \<and>
     getValue 0 ''user'' w2 = ''7''"
proof -
  let ?r = "cookie_request ''sessionId=s1''"
  have c: "getSessionIdFromCookie ?r = ''s1''"
    by (rule cookie_id [where pre = "[]" and rest = "[]"]) (simp_all add: cookie_request_def)
  have ok: "sessions_ok one_session" by (simp add: sessions_ok_def one_session_simps)
  obtain w1 where w1: "getSession memory_storage ?r (new_response True) one_session =
      (0, new_response True, w1)"
    and w1_def: "w1 = mem_save 0 (refresh 0 (setManager 0 (one_session\<lparr>sw_ticks := Suc (Suc 0)\<rparr>)))"
    using memory.getSession_found [of one_session ?r "''s1''" 0 "new_response True"] c
    by (simp add: one_session_simps)
  have s: "ses_id (sw_heap w1 0) = ''s1''" "sw_time w1 n \<le> ses_expiryTime (sw_heap w1 0)" for n
    by (simp_all add: w1_def mem_save_def refresh_def clock_now_def update_session_def setManager_def
        one_session_simps)
  obtain b r w2 where g: "getSession memory_storage ?r (new_response False)
      (setValue memory_storage 0 ''user'' ''7'' w1) = (b, r, w2)" by (metis prod_cases3)
  from session_comes_back [OF ok w1 _ _ _ s(2) s(2) g, of "''other''"] s(1) c
  have "b = 0" "r = new_response False" "getValue b ''user'' w2 = ''7''" by auto
  with w1 g show ?thesis by blast
qed

text \<open>\<open>destroySession\<close> does not end a session a request still holds: when that request stores a
  value afterwards, \<open>setValue\<close> saves the session again under its id, and the logged-out cookie
  is valid once more.\<close>

theorem destroyed_session_returns:
  assumes "ses_hasManager (sw_heap w a)" "ses_id (sw_heap w a) = i"
  shows "map_of (sw_store (destroySession memory_storage i w)) i = None \<and>
    map_of (sw_store (setValue memory_storage a k v (destroySession memory_storage i w))) i = Some a"
  using assms
  by (simp add: destroySession_def mem_remove_def setValue_def updateSession_def mem_save_def
      update_session_def update_conv' delete_conv')

theorem destroyed_session_returns_witness:
  "map_of (sw_store (setValue memory_storage 0 ''user'' ''7''
     (destroySession memory_storage ''s1'' one_session))) ''s1'' = Some 0"
  using destroyed_session_returns [of one_session 0 "''s1''" "''user''" "''7''"]
  by (simp add: one_session_simps)

text \<open>\<open>cleanExpiredSessions\<close> keeps every session that is unexpired at every look at the clock,
  keeps none that is expired at all of them, adds none and changes no object.\<close>

theorem clean_keeps_live:
  assumes "sessions_ok w" "w' = cleanExpiredSessions memory_storage w"
  shows "sw_heap w' = sw_heap w \<and>
    (\<forall>i a. map_of (sw_store w') i = Some a \<longrightarrow> map_of (sw_store w) i = Some a \<and>
           (\<exists>n \<ge> sw_ticks w. sw_time w n \<le> ses_expiryTime (sw_heap w a))) \<and>
    (\<forall>i a. map_of (sw_store w) i = Some a \<and>
           (\<forall>n < sw_ticks w'. sw_time w n \<le> ses_expiryTime (sw_heap w a)) \<longrightarrow>
           map_of (sw_store w') i = Some a)"
  using memory.clean_law [of w] assms
  unfolding sessions_ok_def same_objects_def cleanExpiredSessions_def by blast

theorem clean_keeps_live_witness:
  "map_of (sw_store (cleanExpiredSessions memory_storage one_session)) ''s1'' = Some 0"
proof -
  have "sessions_ok one_session" by (simp add: sessions_ok_def one_session_simps)
  from clean_keeps_live [OF this refl] show ?thesis by (simp add: one_session_simps)
qed

end
