(* ===== verification/Ssl_Connection.thy ===== *)
theory Ssl_Connection
  imports Muduo_Buffer
begin

section \<open>SslConnection\<close>

text \<open>
  \<open>HttpServer/include/ssl/SslConnection.h\<close>, \<open>SslTypes.h\<close> and
  \<open>HttpServer/src/ssl/SslConnection.cpp\<close>: the TLS state machine of one connection between
  muduo's connection and OpenSSL.  OpenSSL is not part of the repository: its functions are the
  fields of \<open>tls_ops\<close> over an unknown state \<open>'t\<close> (the \<open>SSL\<close> object and its two memory BIOs), and
  \<open>tls_laws\<close> is what its manual promises of them.  A loop whose end depends on OpenSSL returns
  \<open>None\<close> when it does not end.
\<close>

datatype SSLState = HANDSHAKE | ESTABLISHED | SHUTDOWN | ERROR

datatype SSLError = NONE | WANT_READ | WANT_WRITE | SYSCALL | SSL | UNKNOWN

datatype ssl_error_code =
  SSL_ERROR_NONE | SSL_ERROR_SSL | SSL_ERROR_WANT_READ | SSL_ERROR_WANT_WRITE
| SSL_ERROR_SYSCALL | SSL_ERROR_ZERO_RETURN | SSL_ERROR_OTHER

record 't tls_ops =
  SSL_new :: "'t \<Rightarrow> bool \<times> 't"                     \<comment> \<open>not null\<close>
  BIO_new :: "'t \<Rightarrow> bool \<times> 't"
  SSL_set_accept_state :: "'t \<Rightarrow> 't"
  SSL_do_handshake :: "'t \<Rightarrow> int \<times> 't"
  SSL_write :: "bytes \<Rightarrow> 't \<Rightarrow> int \<times> 't"
  SSL_read :: "nat \<Rightarrow> 't \<Rightarrow> int \<times> bytes \<times> 't"     \<comment> \<open>the code and the bytes put into the array\<close>
  SSL_get_error :: "int \<Rightarrow> 't \<Rightarrow> ssl_error_code"
  BIO_pending :: "'t \<Rightarrow> nat"                        \<comment> \<open>of the write BIO\<close>
  BIO_read :: "nat \<Rightarrow> 't \<Rightarrow> int \<times> bytes \<times> 't"     \<comment> \<open>from the write BIO\<close>
  BIO_write :: "bytes \<Rightarrow> 't \<Rightarrow> int \<times> 't"           \<comment> \<open>to the read BIO\<close>

record ('b, 't) ssl_conn =
  sc_ssl :: bool                 \<comment> \<open>\<open>ssl_\<close> is not null\<close>
  sc_readBio :: bool
  sc_writeBio :: bool
  sc_state :: SSLState
  sc_tls :: 't
  sc_readBuffer :: 'b
  sc_writeBuffer :: 'b
  sc_decryptedBuffer :: 'b
  sc_pendingPlain :: bytes
  sc_out :: "conn_action list"   \<comment> \<open>what was done to \<open>conn_\<close>\<close>

definition INT_MAX :: nat where "INT_MAX = 2147483647"

definition conn_send :: "bytes \<Rightarrow> ('b, 't) ssl_conn \<Rightarrow> ('b, 't) ssl_conn" where
  "conn_send d c = c\<lparr>sc_out := sc_out c @ [ConnSend d]\<rparr>"

definition conn_shutdown :: "('b, 't) ssl_conn \<Rightarrow> ('b, 't) ssl_conn" where
  "conn_shutdown c = c\<lparr>sc_out := sc_out c @ [ConnShutdown]\<rparr>"

definition SslConnection :: "'b buffer_ops \<Rightarrow> 't tls_ops \<Rightarrow> 't \<Rightarrow> ('b, 't) ssl_conn" where
  \<comment> \<open>the constructor; a half-made object has a null \<open>ssl_\<close>\<close>
  "SslConnection B T t =
     (let blank = (\<lambda>s r w t. \<lparr>sc_ssl = s, sc_readBio = r, sc_writeBio = w, sc_state = HANDSHAKE,
            sc_tls = t, sc_readBuffer = empty_buf B, sc_writeBuffer = empty_buf B,
            sc_decryptedBuffer = empty_buf B, sc_pendingPlain = [], sc_out = []\<rparr>);
          (ssl, t1) = SSL_new T t
      in if \<not> ssl then blank False False False t1
         else (let (r, t2) = BIO_new T t1; (w, t3) = BIO_new T t2
               in if \<not> r \<or> \<not> w then blank False r w t3
                  else blank True True True (SSL_set_accept_state T t3)))"

definition ssl_ok :: "('b, 't) ssl_conn \<Rightarrow> bool" where
  "ssl_ok c \<longleftrightarrow> sc_ssl c"

definition isHandshakeCompleted :: "('b, 't) ssl_conn \<Rightarrow> bool" where
  "isHandshakeCompleted c \<longleftrightarrow> sc_state c = ESTABLISHED"

subsection \<open>Moving bytes between the BIOs and the connection\<close>

partial_function (option) flushWriteBio ::
    "'t tls_ops \<Rightarrow> ('b, 't) ssl_conn \<Rightarrow> ('b, 't) ssl_conn option" where
  "flushWriteBio T c =
     (if sc_ssl c \<and> sc_writeBio c \<and> 0 < BIO_pending T (sc_tls c)
      then (let (n, d, t) = BIO_read T (min (BIO_pending T (sc_tls c)) 4096) (sc_tls c)
            in if 0 < n then flushWriteBio T (conn_send (take (nat n) d) (c\<lparr>sc_tls := t\<rparr>))
               else Some (c\<lparr>sc_tls := t\<rparr>))
      else Some c)"

function feed_loop ::
    "'t tls_ops \<Rightarrow> bytes \<Rightarrow> ('b, 't) ssl_conn \<Rightarrow> (bool \<times> ('b, 't) ssl_conn) option" where
  "feed_loop T p c =
     (if p = [] then Some (True, c)
      else (let chunk = min (length p) INT_MAX; (w, t) = BIO_write T (take chunk p) (sc_tls c)
            in if w \<noteq> int chunk
               then map_option (\<lambda>c'. (False, conn_shutdown c'))
                      (flushWriteBio T (c\<lparr>sc_tls := t, sc_state := ERROR\<rparr>))
               else feed_loop T (drop chunk p) (c\<lparr>sc_tls := t\<rparr>)))"
  by pat_completeness auto
termination
  by (relation "measure (\<lambda>(T, p, c). length p)") (auto simp: INT_MAX_def)

declare feed_loop.simps [simp del]

definition feedReadBio ::
    "'t tls_ops \<Rightarrow> bytes \<Rightarrow> ('b, 't) ssl_conn \<Rightarrow> (bool \<times> ('b, 't) ssl_conn) option" where
  "feedReadBio T d c = (if \<not> sc_readBio c then Some (d = [], c) else feed_loop T d c)"

subsection \<open>The handshake\<close>

definition handleHandshake :: "'t tls_ops \<Rightarrow> ('b, 't) ssl_conn \<Rightarrow> ('b, 't) ssl_conn option" where
  "handleHandshake T c =
     (let (ret, t) = SSL_do_handshake T (sc_tls c); c1 = c\<lparr>sc_tls := t\<rparr>
      in if ret = 1 then flushWriteBio T (c1\<lparr>sc_state := ESTABLISHED\<rparr>)
         else (case SSL_get_error T ret t of
             SSL_ERROR_WANT_READ \<Rightarrow> flushWriteBio T c1
           | SSL_ERROR_WANT_WRITE \<Rightarrow> flushWriteBio T c1
           | _ \<Rightarrow> flushWriteBio T (conn_shutdown c1)))"

definition startHandshake :: "'t tls_ops \<Rightarrow> ('b, 't) ssl_conn \<Rightarrow> ('b, 't) ssl_conn option" where
  "startHandshake T c =
     (if \<not> sc_ssl c then Some (c\<lparr>sc_state := ERROR\<rparr>)
      else handleHandshake T (c\<lparr>sc_tls := SSL_set_accept_state T (sc_tls c)\<rparr>))"

subsection \<open>Sending\<close>

definition kMaxSpins :: nat where "kMaxSpins = 65536"

fun drain_loop :: "'t tls_ops \<Rightarrow> nat \<Rightarrow> ('b, 't) ssl_conn \<Rightarrow> ('b, 't) ssl_conn option" where
  \<comment> \<open>the argument is \<open>kMaxSpins - spins\<close>\<close>
  "drain_loop T 0 c =
     (if sc_pendingPlain c = [] then flushWriteBio T c
      else Some (conn_shutdown (c\<lparr>sc_pendingPlain := [], sc_state := ERROR\<rparr>)))"
| "drain_loop T (Suc k) c =
     (if sc_pendingPlain c = [] then flushWriteBio T c
      else (let chunk = min (length (sc_pendingPlain c)) INT_MAX;
                (n, t) = SSL_write T (take chunk (sc_pendingPlain c)) (sc_tls c);
                c1 = c\<lparr>sc_tls := t\<rparr>
            in if 0 < n
               then Option.bind
                      (flushWriteBio T (c1\<lparr>sc_pendingPlain := drop (nat n) (sc_pendingPlain c)\<rparr>))
                      (drain_loop T k)
               else (case SSL_get_error T n t of
                   SSL_ERROR_WANT_READ \<Rightarrow> flushWriteBio T c1
                 | SSL_ERROR_WANT_WRITE \<Rightarrow> flushWriteBio T c1
                 | SSL_ERROR_ZERO_RETURN \<Rightarrow> flushWriteBio T (c1\<lparr>sc_pendingPlain := []\<rparr>)
                 | _ \<Rightarrow> map_option conn_shutdown
                          (flushWriteBio T (c1\<lparr>sc_pendingPlain := [], sc_state := ERROR\<rparr>)))))"

definition drainPendingPlain :: "'t tls_ops \<Rightarrow> ('b, 't) ssl_conn \<Rightarrow> ('b, 't) ssl_conn option" where
  "drainPendingPlain T c =
     (if \<not> sc_ssl c \<or> sc_state c \<noteq> ESTABLISHED then Some c else drain_loop T kMaxSpins c)"

definition onWriteComplete :: "'t tls_ops \<Rightarrow> ('b, 't) ssl_conn \<Rightarrow> ('b, 't) ssl_conn option" where
  "onWriteComplete T c =
     (if \<not> sc_ssl c then Some c
      else Option.bind (flushWriteBio T c) (\<lambda>c1.
        if sc_state c1 = HANDSHAKE then handleHandshake T c1
        else if sc_state c1 = ESTABLISHED
        then Option.bind (drainPendingPlain T c1) (flushWriteBio T)
        else Some c1))"

partial_function (option) send_loop ::
    "'t tls_ops \<Rightarrow> bytes \<Rightarrow> ('b, 't) ssl_conn \<Rightarrow> ('b, 't) ssl_conn option" where
  "send_loop T p c =
     (if p = [] then flushWriteBio T c
      else (let chunk = min (length p) INT_MAX; (n, t) = SSL_write T (take chunk p) (sc_tls c);
                c1 = c\<lparr>sc_tls := t\<rparr>
            in if 0 < n then Option.bind (flushWriteBio T c1) (send_loop T (drop (nat n) p))
               else (case SSL_get_error T n t of
                   SSL_ERROR_WANT_READ \<Rightarrow> Option.bind (flushWriteBio T c1)
                     (\<lambda>c2. drainPendingPlain T (c2\<lparr>sc_pendingPlain := sc_pendingPlain c2 @ p\<rparr>))
                 | SSL_ERROR_WANT_WRITE \<Rightarrow> Option.bind (flushWriteBio T c1)
                     (\<lambda>c2. drainPendingPlain T (c2\<lparr>sc_pendingPlain := sc_pendingPlain c2 @ p\<rparr>))
                 | SSL_ERROR_ZERO_RETURN \<Rightarrow> flushWriteBio T c1
                 | _ \<Rightarrow> map_option conn_shutdown
                          (flushWriteBio T (c1\<lparr>sc_pendingPlain := [], sc_state := ERROR\<rparr>)))))"

definition ssl_send :: "'t tls_ops \<Rightarrow> bytes \<Rightarrow> ('b, 't) ssl_conn \<Rightarrow> ('b, 't) ssl_conn option" where
  \<comment> \<open>\<open>SslConnection::send\<close>\<close>
  "ssl_send T d c =
     (if \<not> sc_ssl c then Some c
      else if sc_state c \<noteq> ESTABLISHED then Some c
      else if d = [] then Some c
      else send_loop T d c)"

subsection \<open>Receiving\<close>

definition getLastError :: "'t tls_ops \<Rightarrow> int \<Rightarrow> ('b, 't) ssl_conn \<Rightarrow> SSLError" where
  "getLastError T ret c =
     (case SSL_get_error T ret (sc_tls c) of
        SSL_ERROR_NONE \<Rightarrow> NONE
      | SSL_ERROR_WANT_READ \<Rightarrow> WANT_READ
      | SSL_ERROR_WANT_WRITE \<Rightarrow> WANT_WRITE
      | SSL_ERROR_SYSCALL \<Rightarrow> SYSCALL
      | SSL_ERROR_SSL \<Rightarrow> SSL
      | _ \<Rightarrow> UNKNOWN)"

definition handleError :: "SSLError \<Rightarrow> ('b, 't) ssl_conn \<Rightarrow> ('b, 't) ssl_conn" where
  "handleError e c =
     (case e of
        WANT_READ \<Rightarrow> c
      | WANT_WRITE \<Rightarrow> c
      | SSL \<Rightarrow> conn_shutdown (c\<lparr>sc_state := ERROR\<rparr>)
      | SYSCALL \<Rightarrow> conn_shutdown (c\<lparr>sc_state := ERROR\<rparr>)
      | UNKNOWN \<Rightarrow> conn_shutdown (c\<lparr>sc_state := ERROR\<rparr>)
      | NONE \<Rightarrow> c)"

partial_function (option) read_loop ::
    "'b buffer_ops \<Rightarrow> 't tls_ops \<Rightarrow> ('b, 't) ssl_conn \<Rightarrow> (int \<times> ('b, 't) ssl_conn) option" where
  "read_loop B T c =
     (let (ret, d, t) = SSL_read T 4096 (sc_tls c); c1 = c\<lparr>sc_tls := t\<rparr>
      in if 0 < ret
         then read_loop B T (c1\<lparr>sc_decryptedBuffer :=
                append_buf B (sc_decryptedBuffer c) (take (nat ret) d)\<rparr>)
         else Some (ret, c1))"

definition onRead ::
    "'b buffer_ops \<Rightarrow> 't tls_ops \<Rightarrow> 'b \<Rightarrow> ('b, 't) ssl_conn \<Rightarrow> ('b \<times> ('b, 't) ssl_conn) option" where
  \<comment> \<open>the input buffer and the connection afterwards\<close>
  "onRead B T buf c =
     (if \<not> sc_ssl c then Some (buf, c\<lparr>sc_state := ERROR\<rparr>)
      else if sc_state c = HANDSHAKE
      then (let n = length (readable B buf)
            in Option.bind (feedReadBio T (readable B buf) c) (\<lambda>(fed, c1).
                 if \<not> fed then Some (buf, c1)
                 else map_option (Pair (retrieve B n buf)) (handleHandshake T c1)))
      else if sc_state c = ESTABLISHED
      then (let n = length (readable B buf)
            in if n = 0 then Some (buf, c)
               else Option.bind (feedReadBio T (readable B buf) c) (\<lambda>(fed, c1).
                 if \<not> fed then Some (buf, c1)
                 else Option.bind (read_loop B T c1) (\<lambda>(ret, c2).
                   let e = getLastError T ret c2;
                       c3 = (if ret < 0 \<and> e \<noteq> WANT_READ \<and> e \<noteq> WANT_WRITE then handleError e c2 else c2)
                   in Option.bind (flushWriteBio T c3) (\<lambda>c4.
                        map_option (Pair (retrieve B n buf)) (drainPendingPlain T c4)))))
      else Some (buf, c))"

subsection \<open>The other members\<close>

definition onEncrypted :: "'b buffer_ops \<Rightarrow> bytes \<Rightarrow> ('b, 't) ssl_conn \<Rightarrow> ('b, 't) ssl_conn" where
  \<comment> \<open>\<open>TcpConnection::send(Buffer *)\<close> sends what is readable and empties the buffer\<close>
  "onEncrypted B d c =
     (let b = append_buf B (sc_writeBuffer c) d
      in conn_send (readable B b) (c\<lparr>sc_writeBuffer := retrieve B (length (readable B b)) b\<rparr>))"

definition onDecrypted :: "'b buffer_ops \<Rightarrow> bytes \<Rightarrow> ('b, 't) ssl_conn \<Rightarrow> ('b, 't) ssl_conn" where
  "onDecrypted B d c = c\<lparr>sc_decryptedBuffer := append_buf B (sc_decryptedBuffer c) d\<rparr>"

definition bioWrite :: "bytes \<Rightarrow> ('b, 't) ssl_conn option \<Rightarrow> int \<times> ('b, 't) ssl_conn option" where
  "bioWrite d c = (case c of None \<Rightarrow> (- 1, None) | Some c \<Rightarrow> (int (length d), Some (conn_send d c)))"

definition bioRead ::
    "'b buffer_ops \<Rightarrow> nat \<Rightarrow> ('b, 't) ssl_conn option \<Rightarrow> int \<times> bytes \<times> ('b, 't) ssl_conn option" where
  "bioRead B len c =
     (case c of None \<Rightarrow> (- 1, [], None)
      | Some c \<Rightarrow>
         (let rd = readable B (sc_readBuffer c); toRead = min len (length rd)
          in if rd = [] then (- 1, [], Some c)
             else (int toRead, take toRead rd,
                   Some (c\<lparr>sc_readBuffer := retrieve B toRead (sc_readBuffer c)\<rparr>))))"

definition bioCtrl :: "nat \<Rightarrow> int" where
  \<comment> \<open>\<open>BIO_CTRL_FLUSH\<close> is 11\<close>
  "bioCtrl cmd = (if cmd = 11 then 1 else 0)"

end
