(* ===== verification/Ssl_Properties.thy ===== *)
theory Ssl_Properties
  imports Ssl_Connection "HOL-Library.Sublist"
begin

section \<open>What the TLS layer guarantees\<close>

text \<open>
  \<open>tls_laws\<close> states the documented behaviour of the OpenSSL functions that
  \<open>SslConnection\<close> relies on, in terms of three observations of the OpenSSL object: the number
  of bytes in the write BIO, the number of decrypted bytes left to read, and the plaintext it
  has accepted so far.  \<open>null_tls\<close> (no encryption) obeys them.
\<close>

definition tls_laws ::
    "'t tls_ops \<Rightarrow> ('t \<Rightarrow> nat) \<Rightarrow> ('t \<Rightarrow> nat) \<Rightarrow> ('t \<Rightarrow> bytes) \<Rightarrow> bool" where
  "tls_laws T wsize rsize accepted \<longleftrightarrow>
     (\<forall>t. BIO_pending T t = wsize t) \<and>
     (\<forall>n t r d t'. 0 < n \<and> 0 < wsize t \<and> BIO_read T n t = (r, d, t') \<longrightarrow>
        0 < r \<and> wsize t' < wsize t \<and> accepted t' = accepted t) \<and>
     (\<forall>p t n t'. SSL_write T p t = (n, t') \<longrightarrow>
        nat n \<le> length p \<and> accepted t' = accepted t @ take (nat n) p) \<and>
     (\<forall>n t r d t'. SSL_read T n t = (r, d, t') \<longrightarrow>
        accepted t' = accepted t \<and> (0 < r \<longrightarrow> rsize t' < rsize t)) \<and>
     (\<forall>p t w t'. BIO_write T p t = (w, t') \<longrightarrow> accepted t' = accepted t) \<and>
     (\<forall>t ret t'. SSL_do_handshake T t = (ret, t') \<longrightarrow> accepted t' = accepted t) \<and>
     (\<forall>t. accepted (SSL_set_accept_state T t) = accepted t)"

lemma tls_lawsD:
  assumes "tls_laws T wsize rsize accepted"
  shows "BIO_pending T t = wsize t"
    and "0 < n \<Longrightarrow> 0 < wsize t \<Longrightarrow> BIO_read T n t = (r, d, t') \<Longrightarrow>
           0 < r \<and> wsize t' < wsize t \<and> accepted t' = accepted t"
    and "SSL_write T p t = (k, t') \<Longrightarrow> nat k \<le> length p \<and> accepted t' = accepted t @ take (nat k) p"
    and "SSL_read T n t = (r, d, t') \<Longrightarrow> accepted t' = accepted t \<and> (0 < r \<longrightarrow> rsize t' < rsize t)"
    and "BIO_write T p t = (k, t') \<Longrightarrow> accepted t' = accepted t"
    and "SSL_do_handshake T t = (k, t') \<Longrightarrow> accepted t' = accepted t"
    and "accepted (SSL_set_accept_state T t) = accepted t"
proof -
  note L = assms [unfolded tls_laws_def]
  show "BIO_pending T t = wsize t" using L by metis
  show "0 < n \<Longrightarrow> 0 < wsize t \<Longrightarrow> BIO_read T n t = (r, d, t') \<Longrightarrow>
      0 < r \<and> wsize t' < wsize t \<and> accepted t' = accepted t" using L by metis
  show "SSL_write T p t = (k, t') \<Longrightarrow> nat k \<le> length p \<and> accepted t' = accepted t @ take (nat k) p"
    using L by metis
  show "SSL_read T n t = (r, d, t') \<Longrightarrow> accepted t' = accepted t \<and> (0 < r \<longrightarrow> rsize t' < rsize t)"
    using L by metis
  show "BIO_write T p t = (k, t') \<Longrightarrow> accepted t' = accepted t" using L by metis
  show "SSL_do_handshake T t = (k, t') \<Longrightarrow> accepted t' = accepted t" using L by metis
  show "accepted (SSL_set_accept_state T t) = accepted t" using L by metis
qed

definition quiet :: "('t \<Rightarrow> bytes) \<Rightarrow> ('b, 't) ssl_conn \<Rightarrow> ('b, 't) ssl_conn \<Rightarrow> bool" where
  \<comment> \<open>only ciphertext moved: the OpenSSL object and the output changed, nothing else\<close>
  "quiet acc c c' \<longleftrightarrow> c' = c\<lparr>sc_tls := sc_tls c', sc_out := sc_out c'\<rparr> \<and>
     acc (sc_tls c') = acc (sc_tls c)"

lemma quiet_refl [simp]: "quiet acc c c"
  by (simp add: quiet_def)

lemma quiet_fields:
  assumes "quiet acc c c'"
  shows "sc_ssl c' = sc_ssl c" "sc_state c' = sc_state c" "sc_pendingPlain c' = sc_pendingPlain c"
    "sc_decryptedBuffer c' = sc_decryptedBuffer c" "acc (sc_tls c') = acc (sc_tls c)"
    "sc_readBio c' = sc_readBio c" "sc_writeBio c' = sc_writeBio c"
proof -
  have eq: "c' = c\<lparr>sc_tls := sc_tls c', sc_out := sc_out c'\<rparr>" using assms by (simp add: quiet_def)
  show "sc_ssl c' = sc_ssl c" "sc_state c' = sc_state c" "sc_pendingPlain c' = sc_pendingPlain c"
    "sc_decryptedBuffer c' = sc_decryptedBuffer c"
    "sc_readBio c' = sc_readBio c" "sc_writeBio c' = sc_writeBio c"
    by (subst eq, simp)+
  show "acc (sc_tls c') = acc (sc_tls c)" using assms by (simp add: quiet_def)
qed

lemma flush_returns:
  assumes L: "tls_laws T wsize rsize acc"
  shows "\<exists>c'. flushWriteBio T c = Some c' \<and> quiet acc c c'"
proof (induction "wsize (sc_tls c)" arbitrary: c rule: less_induct)
  case less
  note unf = flushWriteBio.simps [of T c]
  show ?case
  proof (cases "sc_ssl c \<and> sc_writeBio c \<and> 0 < wsize (sc_tls c)")
    case True
    obtain n d t where r: "BIO_read T (min (wsize (sc_tls c)) 4096) (sc_tls c) = (n, d, t)"
      by (metis prod_cases3)
    have law: "0 < n \<and> wsize t < wsize (sc_tls c) \<and> acc t = acc (sc_tls c)"
      using True by (intro tls_lawsD(2) [OF L _ _ r]) simp_all
    let ?c1 = "conn_send (take (nat n) d) (c\<lparr>sc_tls := t\<rparr>)"
    have "flushWriteBio T c = flushWriteBio T ?c1"
      using True r law by (subst unf) (simp add: tls_lawsD(1) [OF L])
    moreover obtain c' where "flushWriteBio T ?c1 = Some c'" "quiet acc ?c1 c'"
      using less [of ?c1] law by (auto simp: conn_send_def)
    ultimately show ?thesis
      using law by (cases c; cases c') (auto simp: quiet_def conn_send_def)
  next
    case False
    then show ?thesis by (subst unf) (auto simp: tls_lawsD(1) [OF L])
  qed
qed

lemma flushE:
  assumes "tls_laws T wsize rsize acc"
  obtains c' where "flushWriteBio T c = Some c'" "quiet acc c c'"
  using flush_returns [OF assms] by blast

subsection \<open>The plaintext stream\<close>

definition stream :: "('t \<Rightarrow> bytes) \<Rightarrow> ('b, 't) ssl_conn \<Rightarrow> bytes" where
  \<comment> \<open>what OpenSSL has accepted and what still waits for it\<close>
  "stream acc c = acc (sc_tls c) @ sc_pendingPlain c"

definition no_close :: "'t tls_ops \<Rightarrow> bool" where
  \<comment> \<open>the peer does not close the TLS connection\<close>
  "no_close T \<longleftrightarrow> (\<forall>n t. SSL_get_error T n t \<noteq> SSL_ERROR_ZERO_RETURN)"

definition keeps_stream ::
    "'t tls_ops \<Rightarrow> ('t \<Rightarrow> bytes) \<Rightarrow> bytes \<Rightarrow> ('b, 't) ssl_conn \<Rightarrow> ('b, 't) ssl_conn \<Rightarrow> bool" where
  "keeps_stream T acc s c c' \<longleftrightarrow>
     (sc_state c' = sc_state c \<or> sc_state c' = ERROR) \<and> sc_ssl c' = sc_ssl c \<and>
     sc_decryptedBuffer c' = sc_decryptedBuffer c \<and>
     prefix (stream acc c') s \<and>
     (no_close T \<and> sc_state c' \<noteq> ERROR \<longrightarrow> stream acc c' = s)"

lemma keeps_stream_quiet: "quiet acc c c' \<Longrightarrow> stream acc c = s \<Longrightarrow> keeps_stream T acc s c c'"
  by (simp add: keeps_stream_def stream_def quiet_fields)

lemma keeps_stream_step:
  "keeps_stream T acc s c1 c2 \<Longrightarrow> sc_state c1 = sc_state c \<Longrightarrow> sc_ssl c1 = sc_ssl c \<Longrightarrow>
   sc_decryptedBuffer c1 = sc_decryptedBuffer c \<Longrightarrow> keeps_stream T acc s c c2"
  by (auto simp: keeps_stream_def)

lemma drain_loop_stream:
  assumes L: "tls_laws T wsize rsize acc" and "sc_state c \<noteq> ERROR"
  shows "\<exists>c'. drain_loop T k c = Some c' \<and> keeps_stream T acc (stream acc c) c c'"
  using assms(2)
proof (induction k arbitrary: c)
  case 0
  obtain c' where "flushWriteBio T c = Some c'" "quiet acc c c'" by (rule flushE [OF L])
  then show ?case
    by (auto simp: keeps_stream_quiet)
      (simp add: keeps_stream_def stream_def conn_shutdown_def)
next
  case (Suc k)
  show ?case
  proof (cases "sc_pendingPlain c = []")
    case True
    obtain c' where "flushWriteBio T c = Some c'" "quiet acc c c'" by (rule flushE [OF L])
    with True show ?thesis by (simp add: keeps_stream_quiet)
  next
    case False
    let ?p = "sc_pendingPlain c"
    let ?chunk = "min (length ?p) INT_MAX"
    obtain n t where w: "SSL_write T (take ?chunk ?p) (sc_tls c) = (n, t)" by fastforce
    have law: "nat n \<le> ?chunk" "acc t = acc (sc_tls c) @ take (nat n) ?p"
      using tls_lawsD(3) [OF L w] by (auto simp: min_def split: if_splits)
    show ?thesis
    proof (cases "0 < n")
      case True
      let ?c1 = "c\<lparr>sc_tls := t, sc_pendingPlain := drop (nat n) ?p\<rparr>"
      obtain c2 where c2: "flushWriteBio T ?c1 = Some c2" "quiet acc ?c1 c2" by (rule flushE [OF L])
      have s: "stream acc c2 = stream acc c" "sc_state c2 = sc_state c" "sc_ssl c2 = sc_ssl c"
        "sc_decryptedBuffer c2 = sc_decryptedBuffer c"
        using law by (simp_all add: stream_def quiet_fields [OF c2(2)])
      with Suc.IH [of c2] Suc.prems obtain c' where
        "drain_loop T k c2 = Some c'" "keeps_stream T acc (stream acc c) c2 c'" by auto
      with c2(1) True False w s show ?thesis by (auto intro: keeps_stream_step)
    next
      case no: False
      then have a: "acc t = acc (sc_tls c)" using law by simp
      let ?c1 = "c\<lparr>sc_tls := t\<rparr>"
      have s1: "stream acc ?c1 = stream acc c" using a by (simp add: stream_def)
      obtain c2 where c2: "flushWriteBio T ?c1 = Some c2" "quiet acc ?c1 c2" by (rule flushE [OF L])
      obtain c3 where c3: "flushWriteBio T (?c1\<lparr>sc_pendingPlain := []\<rparr>) = Some c3"
        "quiet acc (?c1\<lparr>sc_pendingPlain := []\<rparr>) c3" by (rule flushE [OF L])
      obtain c4 where c4: "flushWriteBio T (?c1\<lparr>sc_pendingPlain := [], sc_state := ERROR\<rparr>) = Some c4"
        "quiet acc (?c1\<lparr>sc_pendingPlain := [], sc_state := ERROR\<rparr>) c4" by (rule flushE [OF L])
      have k2: "keeps_stream T acc (stream acc c) c c2"
        using keeps_stream_quiet [OF c2(2) s1] by (rule keeps_stream_step) simp_all
      have k3: "keeps_stream T acc (stream acc c) c c3" if "\<not> no_close T"
        using that a by (simp add: keeps_stream_def stream_def quiet_fields [OF c3(2)])
      have k4: "keeps_stream T acc (stream acc c) c (conn_shutdown c4)"
        using a by (simp add: keeps_stream_def stream_def conn_shutdown_def quiet_fields [OF c4(2)])
      have z: "SSL_get_error T n t = SSL_ERROR_ZERO_RETURN \<Longrightarrow> \<not> no_close T"
        by (auto simp: no_close_def)
      show ?thesis
        using False no w c2(1) c3(1) c4(1) k2 k3 k4 z
        by (cases "SSL_get_error T n t") simp_all
    qed
  qed
qed

lemma drain_stream:
  assumes "tls_laws T wsize rsize acc"
  shows "\<exists>c'. drainPendingPlain T c = Some c' \<and> keeps_stream T acc (stream acc c) c c'"
  using drain_loop_stream [OF assms, of c kMaxSpins]
  by (auto simp: drainPendingPlain_def keeps_stream_quiet)

lemma send_loop_stream:
  assumes L: "tls_laws T wsize rsize acc"
    and "sc_ssl c" "sc_state c = ESTABLISHED" "sc_pendingPlain c = []"
  shows "\<exists>c'. send_loop T p c = Some c' \<and> keeps_stream T acc (stream acc c @ p) c c'"
  using assms(2-)
proof (induction "length p" arbitrary: p c rule: less_induct)
  case less
  note unf = send_loop.simps [of T p c]
  show ?case
  proof (cases "p = []")
    case True
    obtain c' where "flushWriteBio T c = Some c'" "quiet acc c c'" by (rule flushE [OF L])
    with True show ?thesis by (subst unf) (simp add: keeps_stream_quiet)
  next
    case False
    let ?chunk = "min (length p) INT_MAX"
    obtain n t where w: "SSL_write T (take ?chunk p) (sc_tls c) = (n, t)" by fastforce
    have law: "nat n \<le> ?chunk" "acc t = acc (sc_tls c) @ take (nat n) p"
      using tls_lawsD(3) [OF L w] by (auto simp: min_def split: if_splits)
    let ?c1 = "c\<lparr>sc_tls := t\<rparr>"
    obtain c2 where c2: "flushWriteBio T ?c1 = Some c2" "quiet acc ?c1 c2" by (rule flushE [OF L])
    show ?thesis
    proof (cases "0 < n")
      case True
      have "length (drop (nat n) p) < length p" using True False by simp
      moreover have "sc_ssl c2" "sc_state c2 = ESTABLISHED" "sc_pendingPlain c2 = []"
        using less.prems by (simp_all add: quiet_fields [OF c2(2)])
      ultimately obtain c' where "send_loop T (drop (nat n) p) c2 = Some c'"
        "keeps_stream T acc (stream acc c2 @ drop (nat n) p) c2 c'" using less.hyps by blast
      moreover have "stream acc c2 @ drop (nat n) p = stream acc c @ p"
        using less.prems law by (simp add: stream_def quiet_fields [OF c2(2)])
      ultimately have "send_loop T p c = Some c' \<and> keeps_stream T acc (stream acc c @ p) c2 c'"
        using True False w c2(1) by (subst unf) simp
      then show ?thesis by (auto intro: keeps_stream_step simp: quiet_fields [OF c2(2)])
    next
      case no: False
      then have a: "acc t = acc (sc_tls c)" using law by simp
      let ?c3 = "c2\<lparr>sc_pendingPlain := sc_pendingPlain c2 @ p\<rparr>"
      obtain c4 where c4: "drainPendingPlain T ?c3 = Some c4"
        "keeps_stream T acc (stream acc ?c3) ?c3 c4" using drain_stream [OF L] by blast
      have k4: "keeps_stream T acc (stream acc c @ p) c c4"
      proof (rule keeps_stream_step)
        have "stream acc ?c3 = stream acc c @ p"
          using less.prems a by (simp add: stream_def quiet_fields [OF c2(2)])
        with c4(2) show "keeps_stream T acc (stream acc c @ p) ?c3 c4" by simp
      qed (simp_all add: quiet_fields [OF c2(2)])
      obtain c5 where c5: "flushWriteBio T (?c1\<lparr>sc_pendingPlain := [], sc_state := ERROR\<rparr>) = Some c5"
        "quiet acc (?c1\<lparr>sc_pendingPlain := [], sc_state := ERROR\<rparr>) c5" by (rule flushE [OF L])
      have k5: "keeps_stream T acc (stream acc c @ p) c (conn_shutdown c5)"
        using a less.prems
        by (simp add: keeps_stream_def stream_def conn_shutdown_def quiet_fields [OF c5(2)])
      have k2: "keeps_stream T acc (stream acc c @ p) c c2" if "\<not> no_close T"
        using that a less.prems by (simp add: keeps_stream_def stream_def quiet_fields [OF c2(2)])
      have z: "SSL_get_error T n t = SSL_ERROR_ZERO_RETURN \<Longrightarrow> \<not> no_close T"
        by (auto simp: no_close_def)
      show ?thesis
        using False no w c2(1) c4(1) c5(1) k2 k4 k5 z
        by (subst unf) (cases "SSL_get_error T n t", simp_all)
    qed
  qed
qed

subsection \<open>Every operation returns\<close>

lemma handshake_returns:
  assumes L: "tls_laws T wsize rsize acc"
  shows "\<exists>c'. handleHandshake T c = Some c' \<and> sc_ssl c' = sc_ssl c \<and> stream acc c' = stream acc c \<and>
    (sc_state c' = sc_state c \<or> sc_state c' = ESTABLISHED) \<and>
    sc_decryptedBuffer c' = sc_decryptedBuffer c"
proof -
  obtain r t where h: "SSL_do_handshake T (sc_tls c) = (r, t)" by fastforce
  have a: "acc t = acc (sc_tls c)" using tls_lawsD(6) [OF L h] .
  have fl: "\<exists>c'. flushWriteBio T x = Some c' \<and> sc_ssl c' = sc_ssl x \<and> stream acc c' = stream acc x \<and>
      sc_state c' = sc_state x \<and> sc_decryptedBuffer c' = sc_decryptedBuffer x" for x
    using flush_returns [OF L, of x] by (auto simp: stream_def quiet_fields)
  obtain c1 where c1: "flushWriteBio T (c\<lparr>sc_tls := t, sc_state := ESTABLISHED\<rparr>) = Some c1"
    "quiet acc (c\<lparr>sc_tls := t, sc_state := ESTABLISHED\<rparr>) c1" by (rule flushE [OF L])
  obtain c2 where c2: "flushWriteBio T (c\<lparr>sc_tls := t\<rparr>) = Some c2" "quiet acc (c\<lparr>sc_tls := t\<rparr>) c2"
    by (rule flushE [OF L])
  obtain c3 where c3: "flushWriteBio T (conn_shutdown (c\<lparr>sc_tls := t\<rparr>)) = Some c3"
    "quiet acc (conn_shutdown (c\<lparr>sc_tls := t\<rparr>)) c3" by (rule flushE [OF L])
  show ?thesis
  proof (cases "r = 1")
    case True
    with h c1(1) have "handleHandshake T c = Some c1" by (simp add: handleHandshake_def)
    with a show ?thesis by (simp add: stream_def quiet_fields [OF c1(2)])
  next
    case False
    have f2: "sc_ssl c2 = sc_ssl c \<and> stream acc c2 = stream acc c \<and> sc_state c2 = sc_state c \<and>
        sc_decryptedBuffer c2 = sc_decryptedBuffer c" using a by (simp add: stream_def quiet_fields [OF c2(2)])
    have f3: "sc_ssl c3 = sc_ssl c \<and> stream acc c3 = stream acc c \<and> sc_state c3 = sc_state c \<and>
        sc_decryptedBuffer c3 = sc_decryptedBuffer c"
      using a by (simp add: stream_def conn_shutdown_def quiet_fields [OF c3(2)])
    have "handleHandshake T c = Some c2 \<or> handleHandshake T c = Some c3"
      using False h c2(1) c3(1)
      by (cases "SSL_get_error T r t") (simp_all add: handleHandshake_def Let_def)
    with f2 f3 show ?thesis by auto
  qed
qed

lemma feed_loop_returns:
  assumes L: "tls_laws T wsize rsize acc"
  shows "\<exists>ok c'. feed_loop T p c = Some (ok, c') \<and> sc_ssl c' = sc_ssl c \<and> stream acc c' = stream acc c \<and>
    (sc_state c' = sc_state c \<or> sc_state c' = ERROR) \<and> sc_decryptedBuffer c' = sc_decryptedBuffer c"
proof (induction "length p" arbitrary: p c rule: less_induct)
  case less
  show ?case
  proof (cases "p = []")
    case True
    then show ?thesis by (intro exI [of _ True] exI [of _ c]) (simp add: feed_loop.simps)
  next
    case False
    let ?chunk = "min (length p) INT_MAX"
    obtain w t where w: "BIO_write T (take ?chunk p) (sc_tls c) = (w, t)" by fastforce
    have a: "acc t = acc (sc_tls c)" using tls_lawsD(5) [OF L w] .
    show ?thesis
    proof (cases "w = int ?chunk")
      case True
      then have "feed_loop T p c = feed_loop T (drop ?chunk p) (c\<lparr>sc_tls := t\<rparr>)"
        using False w by (simp add: feed_loop.simps [of T p c] Let_def)
      moreover have "length (drop ?chunk p) < length p" using False by (simp add: INT_MAX_def)
      ultimately show ?thesis
        using less.hyps [of "drop ?chunk p" "c\<lparr>sc_tls := t\<rparr>"] a by (simp add: stream_def)
    next
      case no: False
      let ?c1 = "c\<lparr>sc_tls := t, sc_state := ERROR\<rparr>"
      obtain c' where c': "flushWriteBio T ?c1 = Some c'" "quiet acc ?c1 c'" by (rule flushE [OF L])
      then have "feed_loop T p c = Some (False, conn_shutdown c')"
        using no False w by (simp add: feed_loop.simps [of T p c] Let_def)
      with a show ?thesis
        by (intro exI [of _ False] exI [of _ "conn_shutdown c'"])
          (simp add: conn_shutdown_def stream_def quiet_fields [OF c'(2)])
    qed
  qed
qed

lemma read_loop_returns:
  assumes L: "tls_laws T wsize rsize acc"
  shows "\<exists>r c'. read_loop B T c = Some (r, c') \<and> sc_ssl c' = sc_ssl c \<and> sc_state c' = sc_state c \<and>
    stream acc c' = stream acc c"
proof (induction "rsize (sc_tls c)" arbitrary: c rule: less_induct)
  case less
  note unf = read_loop.simps [of B T c]
  obtain r d t where rd: "SSL_read T 4096 (sc_tls c) = (r, d, t)" by (metis prod_cases3)
  have law: "acc t = acc (sc_tls c)" "0 < r \<Longrightarrow> rsize t < rsize (sc_tls c)"
    using tls_lawsD(4) [OF L rd] by simp_all
  show ?case
  proof (cases "0 < r")
    case True
    let ?c1 = "c\<lparr>sc_tls := t, sc_decryptedBuffer := append_buf B (sc_decryptedBuffer c) (take (nat r) d)\<rparr>"
    have "read_loop B T c = read_loop B T ?c1" using True rd by (subst unf) simp
    with less.hyps [of ?c1] law True show ?thesis by (simp add: stream_def)
  next
    case False
    then have "read_loop B T c = Some (r, c\<lparr>sc_tls := t\<rparr>)" using rd by (subst unf) simp
    with law show ?thesis by (simp add: stream_def)
  qed
qed

lemma send_loop_returns:
  assumes L: "tls_laws T wsize rsize acc"
  shows "\<exists>c'. send_loop T p c = Some c' \<and> sc_ssl c' = sc_ssl c \<and>
    (sc_state c' = sc_state c \<or> sc_state c' = ERROR)"
proof (induction "length p" arbitrary: p c rule: less_induct)
  case less
  note unf = send_loop.simps [of T p c]
  show ?case
  proof (cases "p = []")
    case True
    obtain c' where "flushWriteBio T c = Some c'" "quiet acc c c'" by (rule flushE [OF L])
    with True show ?thesis by (subst unf) (simp add: quiet_fields)
  next
    case False
    let ?chunk = "min (length p) INT_MAX"
    obtain n t where w: "SSL_write T (take ?chunk p) (sc_tls c) = (n, t)" by fastforce
    let ?c1 = "c\<lparr>sc_tls := t\<rparr>"
    obtain c2 where c2: "flushWriteBio T ?c1 = Some c2" "quiet acc ?c1 c2" by (rule flushE [OF L])
    show ?thesis
    proof (cases "0 < n")
      case True
      then have "send_loop T p c = send_loop T (drop (nat n) p) c2"
        using False w c2(1) by (subst unf) simp
      moreover have "length (drop (nat n) p) < length p" using True False by simp
      ultimately show ?thesis using less.hyps [of "drop (nat n) p" c2] by (simp add: quiet_fields [OF c2(2)])
    next
      case no: False
      let ?c3 = "c2\<lparr>sc_pendingPlain := sc_pendingPlain c2 @ p\<rparr>"
      let ?c4 = "?c1\<lparr>sc_pendingPlain := [], sc_state := ERROR\<rparr>"
      obtain c4 where c4: "drainPendingPlain T ?c3 = Some c4" "keeps_stream T acc (stream acc ?c3) ?c3 c4"
        using drain_stream [OF L] by blast
      obtain c5 where c5: "flushWriteBio T ?c4 = Some c5" "quiet acc ?c4 c5" by (rule flushE [OF L])
      have "send_loop T p c \<in> {Some c2, Some c4, Some (conn_shutdown c5)}"
        using False no w c2(1) c4(1) c5(1)
        by (subst unf) (cases "SSL_get_error T n t", simp_all)
      then show ?thesis
        using c4(2) by (auto simp: quiet_fields [OF c2(2)] quiet_fields [OF c5(2)] keeps_stream_def
            conn_shutdown_def)
    qed
  qed
qed

lemma send_returns:
  "tls_laws T wsize rsize acc \<Longrightarrow>
   \<exists>c'. ssl_send T d c = Some c' \<and> sc_ssl c' = sc_ssl c \<and>
     (sc_state c' = sc_state c \<or> sc_state c' = ERROR) \<and> (sc_state c \<noteq> ESTABLISHED \<longrightarrow> c' = c)"
  using send_loop_returns [of T wsize rsize acc d c] by (auto simp: ssl_send_def)

lemma written_returns:
  assumes L: "tls_laws T wsize rsize acc"
  shows "\<exists>c'. onWriteComplete T c = Some c' \<and> sc_ssl c' = sc_ssl c \<and>
    (sc_state c' = sc_state c \<or> sc_state c' = ERROR \<or> sc_state c = HANDSHAKE \<and> sc_state c' = ESTABLISHED) \<and>
    sc_decryptedBuffer c' = sc_decryptedBuffer c \<and>
    (sc_state c = HANDSHAKE \<longrightarrow> stream acc c' = stream acc c)"
proof (cases "sc_ssl c")
  case True
  obtain c1 where c1: "flushWriteBio T c = Some c1" "quiet acc c c1" by (rule flushE [OF L])
  note f1 = quiet_fields [OF c1(2)]
  obtain c2 where c2: "handleHandshake T c1 = Some c2" "sc_ssl c2 = sc_ssl c1"
    "stream acc c2 = stream acc c1" "sc_state c2 = sc_state c1 \<or> sc_state c2 = ESTABLISHED"
    "sc_decryptedBuffer c2 = sc_decryptedBuffer c1" using handshake_returns [OF L] by metis
  obtain c3 where c3: "drainPendingPlain T c1 = Some c3" "keeps_stream T acc (stream acc c1) c1 c3"
    using drain_stream [OF L] by blast
  obtain c4 where c4: "flushWriteBio T c3 = Some c4" "quiet acc c3 c4" by (rule flushE [OF L])
  have s1: "stream acc c1 = stream acc c" by (simp add: stream_def f1)
  have k: "sc_state c4 = sc_state c1 \<or> sc_state c4 = ERROR" "sc_ssl c4 = sc_ssl c1"
    "sc_decryptedBuffer c4 = sc_decryptedBuffer c1"
    using c3(2) by (auto simp: quiet_fields [OF c4(2)] keeps_stream_def)
  show ?thesis
  proof (cases "sc_state c")
    case HANDSHAKE
    then have "onWriteComplete T c = Some c2" using True c1(1) c2(1) by (simp add: onWriteComplete_def f1)
    with HANDSHAKE c2 s1 f1 show ?thesis by auto
  next
    case ESTABLISHED
    then have "onWriteComplete T c = Some c4"
      using True c1(1) c3(1) c4(1) by (simp add: onWriteComplete_def f1)
    with ESTABLISHED k f1 show ?thesis by auto
  qed (use True c1 f1 in \<open>simp_all add: onWriteComplete_def\<close>)
qed (simp add: onWriteComplete_def)

lemma onRead_handshake:
  assumes L: "tls_laws T wsize rsize acc" and "sc_ssl c" "sc_state c = HANDSHAKE"
  shows "\<exists>b c'. onRead B T buf c = Some (b, c') \<and> sc_ssl c' \<and> stream acc c' = stream acc c \<and>
    sc_state c' \<in> {HANDSHAKE, ESTABLISHED, ERROR} \<and> sc_decryptedBuffer c' = sc_decryptedBuffer c"
proof -
  obtain ok c1 where f: "feedReadBio T (readable B buf) c = Some (ok, c1)" "sc_ssl c1 = sc_ssl c"
    "stream acc c1 = stream acc c" "sc_state c1 = sc_state c \<or> sc_state c1 = ERROR"
    "sc_decryptedBuffer c1 = sc_decryptedBuffer c"
  proof (cases "sc_readBio c")
    case True
    with feed_loop_returns [OF L, of "readable B buf" c] that show ?thesis
      by (auto simp: feedReadBio_def split: if_splits)
  qed (use that in \<open>simp add: feedReadBio_def\<close>)
  obtain c2 where h: "handleHandshake T c1 = Some c2" "sc_ssl c2 = sc_ssl c1"
    "stream acc c2 = stream acc c1" "sc_state c2 = sc_state c1 \<or> sc_state c2 = ESTABLISHED"
    "sc_decryptedBuffer c2 = sc_decryptedBuffer c1" using handshake_returns [OF L] by metis
  show ?thesis
  proof (cases ok)
    case True
    with f h assms(2,3) show ?thesis by (auto simp: onRead_def)
  next
    case False
    with f assms(2,3) show ?thesis by (auto simp: onRead_def)
  qed
qed

lemma onRead_established:
  assumes L: "tls_laws T wsize rsize acc" and "sc_ssl c" "sc_state c = ESTABLISHED"
  shows "\<exists>b c'. onRead B T buf c = Some (b, c') \<and> sc_ssl c' \<and> sc_state c' \<in> {ESTABLISHED, ERROR}"
proof (cases "readable B buf = []")
  case False
  obtain ok c1 where f: "feedReadBio T (readable B buf) c = Some (ok, c1)" "sc_ssl c1"
    "sc_state c1 \<in> {ESTABLISHED, ERROR}"
    using feed_loop_returns [OF L, of "readable B buf" c] assms(2,3)
    by (cases "sc_readBio c") (auto simp: feedReadBio_def split: if_splits)
  obtain r c2 where r: "read_loop B T c1 = Some (r, c2)" "sc_ssl c2 = sc_ssl c1" "sc_state c2 = sc_state c1"
    using read_loop_returns [OF L] by metis
  let ?e = "getLastError T r c2"
  let ?c3 = "if r < 0 \<and> ?e \<noteq> WANT_READ \<and> ?e \<noteq> WANT_WRITE then handleError ?e c2 else c2"
  have c3: "sc_ssl ?c3 = sc_ssl c2" "sc_state ?c3 \<in> {sc_state c2, ERROR}"
    by (auto simp: handleError_def conn_shutdown_def split: SSLError.split)
  obtain c4 where c4: "flushWriteBio T ?c3 = Some c4" "quiet acc ?c3 c4" by (rule flushE [OF L])
  obtain c5 where c5: "drainPendingPlain T c4 = Some c5" "keeps_stream T acc (stream acc c4) c4 c5"
    using drain_stream [OF L] by blast
  show ?thesis
  proof (cases ok)
    case True
    then have "onRead B T buf c = Some (retrieve B (length (readable B buf)) buf, c5)"
      using False f(1) r(1) c4(1) c5(1) assms(2,3) by (simp add: onRead_def Let_def)
    moreover have "sc_ssl c5 \<and> sc_state c5 \<in> {ESTABLISHED, ERROR}"
      using c5(2) c3 r(2,3) f(2,3) by (auto simp: keeps_stream_def quiet_fields [OF c4(2)])
    ultimately show ?thesis by blast
  next
    case no: False
    with False f assms(2,3) show ?thesis by (simp add: onRead_def)
  qed
qed (use assms in \<open>simp add: onRead_def\<close>)

subsection \<open>The state machine\<close>

inductive tls_step :: "'b buffer_ops \<Rightarrow> 't tls_ops \<Rightarrow> ('b, 't) ssl_conn \<Rightarrow> ('b, 't) ssl_conn \<Rightarrow> bool"
  for B T where
  step_send: "ssl_send T d c = Some c' \<Longrightarrow> tls_step B T c c'"
| step_read: "onRead B T buf c = Some (buf', c') \<Longrightarrow> tls_step B T c c'"
| step_written: "onWriteComplete T c = Some c' \<Longrightarrow> tls_step B T c c'"

inductive tls_run :: "'b buffer_ops \<Rightarrow> 't tls_ops \<Rightarrow> ('b, 't) ssl_conn \<Rightarrow> bool" for B T where
  \<comment> \<open>a connection the server put into \<open>sslConns_\<close>, after any calls\<close>
  run_start: "SslConnection B T t = c0 \<Longrightarrow> ssl_ok c0 \<Longrightarrow> startHandshake T c0 = Some c \<Longrightarrow> tls_run B T c"
| run_step: "tls_run B T c \<Longrightarrow> tls_step B T c c' \<Longrightarrow> tls_run B T c'"

definition tls_inv :: "'b buffer_ops \<Rightarrow> ('t \<Rightarrow> bytes) \<Rightarrow> ('b, 't) ssl_conn \<Rightarrow> bool" where
  "tls_inv B acc c \<longleftrightarrow> sc_ssl c \<and> sc_state c \<noteq> SHUTDOWN \<and>
     (sc_state c = HANDSHAKE \<longrightarrow> stream acc c = [] \<and> sc_decryptedBuffer c = empty_buf B)"

lemma tls_step_inv:
  assumes L: "tls_laws T wsize rsize acc" and "tls_inv B acc c" "tls_step B T c c'"
  shows "tls_inv B acc c' \<and> (sc_state c = ERROR \<longrightarrow> sc_state c' = ERROR)"
  using assms(3)
proof cases
  case (step_send d)
  with send_returns [OF L, of d c] assms(2) show ?thesis by (auto simp: tls_inv_def)
next
  case (step_read buf buf')
  note inv = assms(2) [unfolded tls_inv_def]
  show ?thesis
  proof (cases "sc_state c")
    case HANDSHAKE
    with onRead_handshake [OF L, of c B buf] inv step_read show ?thesis by (auto simp: tls_inv_def)
  next
    case ESTABLISHED
    with onRead_established [OF L, of c B buf] inv step_read show ?thesis by (auto simp: tls_inv_def)
  next
    case ERROR
    with inv step_read show ?thesis by (auto simp: tls_inv_def onRead_def)
  qed (use inv in simp)
next
  case step_written
  with written_returns [OF L, of c] assms(2) show ?thesis by (auto simp: tls_inv_def)
qed

text \<open>C30: however OpenSSL behaves within its contract, no plaintext crosses the TLS layer before the
  handshake is complete: in every reachable connection that is still in \<open>HANDSHAKE\<close> OpenSSL has
  been given no plaintext, none waits for it, and the decrypted buffer is empty; no run reaches
  \<open>SHUTDOWN\<close>, and \<open>ERROR\<close> is never left.\<close>

theorem no_plaintext_before_handshake:
  assumes "tls_laws T wsize rsize acc" "tls_run B T c"
    and "\<And>t. ssl_ok (SslConnection B T t) \<Longrightarrow> acc (sc_tls (SslConnection B T t)) = []"
  shows "sc_state c \<noteq> SHUTDOWN \<and>
    (sc_state c = HANDSHAKE \<longrightarrow> acc (sc_tls c) = [] \<and> sc_pendingPlain c = [] \<and>
       sc_decryptedBuffer c = empty_buf B) \<and>
    (\<forall>c'. tls_step B T c c' \<and> sc_state c = ERROR \<longrightarrow> sc_state c' = ERROR)"
proof -
  have "tls_inv B acc c"
    using assms(2)
  proof (induction rule: tls_run.induct)
    case (run_start t c0 c)
    have c0: "sc_ssl c0" "sc_state c0 = HANDSHAKE" "sc_pendingPlain c0 = []"
      "sc_decryptedBuffer c0 = empty_buf B" "acc (sc_tls c0) = []"
      using run_start(1,2) assms(3) [of t]
      by (auto simp: SslConnection_def ssl_ok_def Let_def split: prod.splits if_splits)
    let ?c1 = "c0\<lparr>sc_tls := SSL_set_accept_state T (sc_tls c0)\<rparr>"
    have "acc (sc_tls ?c1) = []" using c0(5) tls_lawsD(7) [OF assms(1)] by simp
    moreover have "handleHandshake T ?c1 = Some c"
      using run_start(3) c0(1) by (simp add: startHandshake_def)
    ultimately show ?case
      using handshake_returns [OF assms(1), of ?c1] c0(1-4) by (auto simp: tls_inv_def stream_def)
  qed (use tls_step_inv [OF assms(1)] in blast)
  with tls_step_inv [OF assms(1) this] show ?thesis by (auto simp: tls_inv_def stream_def)
qed

subsection \<open>An engine without encryption\<close>

type_synonym null_state = "bytes \<times> bytes \<times> bytes"
  \<comment> \<open>write BIO, bytes to read, plaintext accepted\<close>

definition null_tls :: "null_state tls_ops" where
  "null_tls =
     \<lparr>SSL_new = (\<lambda>_. (True, ([], [], []))), BIO_new = Pair True, SSL_set_accept_state = id, SSL_do_handshake = Pair 1,
      SSL_write = (\<lambda>p (w, r, a). (int (length p), (w @ p, r, a @ p))),
      SSL_read = (\<lambda>n (w, r, a). (if r = [] then - 1 else int (min n (length r)), take n r, (w, drop n r, a))),
      SSL_get_error = (\<lambda>_ _. SSL_ERROR_WANT_READ),
      BIO_pending = (\<lambda>(w, r, a). length w),
      BIO_read = (\<lambda>n (w, r, a). (int (min n (length w)), take n w, (drop n w, r, a))),
      BIO_write = (\<lambda>p (w, r, a). (int (length p), (w, r @ p, a)))\<rparr>"

lemma null_tls_laws: "tls_laws null_tls (length \<circ> fst) (length \<circ> fst \<circ> snd) (snd \<circ> snd)"
  by (auto simp: tls_laws_def null_tls_def split: if_splits)

lemma no_close_null: "no_close null_tls"
  by (simp add: no_close_def null_tls_def)

definition null_conn :: "SSLState \<Rightarrow> bytes \<Rightarrow> (bytes, null_state) ssl_conn" where
  "null_conn s p = \<lparr>sc_ssl = True, sc_readBio = True, sc_writeBio = True, sc_state = s,
     sc_tls = ([], [], []), sc_readBuffer = [], sc_writeBuffer = [], sc_decryptedBuffer = [],
     sc_pendingPlain = p, sc_out = []\<rparr>"

theorem no_plaintext_before_handshake_witness:
  "\<exists>c. tls_run string_buffer null_tls c \<and> sc_state c \<noteq> SHUTDOWN"
proof -
  have new: "SslConnection string_buffer null_tls ([], [], []) = null_conn HANDSHAKE []"
    by (simp add: SslConnection_def null_tls_def null_conn_def)
  obtain c where c: "handleHandshake null_tls (null_conn HANDSHAKE []) = Some c"
    using handshake_returns [OF null_tls_laws] by blast
  have "startHandshake null_tls (null_conn HANDSHAKE []) = Some c"
    using c by (simp add: startHandshake_def null_conn_def) (simp add: null_tls_def)
  then have run: "tls_run string_buffer null_tls c"
    using new by (intro run_start [where t = "([], [], [])"]) (simp_all add: ssl_ok_def null_conn_def)
  have "(snd \<circ> snd) (sc_tls (SslConnection string_buffer null_tls t)) = []" for t
    by (simp add: SslConnection_def null_tls_def)
  with no_plaintext_before_handshake [OF null_tls_laws run] run show ?thesis by blast
qed

text \<open>Every operation of the TLS layer comes back: given what OpenSSL promises (a non-empty memory
  BIO is drained by reading it, a successful read leaves less to read), \<open>send\<close>, \<open>onRead\<close> and
  \<open>onWriteComplete\<close> return in every state.\<close>

theorem tls_operations_return:
  assumes "tls_laws T wsize rsize acc"
  shows "ssl_send T d c \<noteq> None \<and> onRead B T buf c \<noteq> None \<and> onWriteComplete T c \<noteq> None"
proof -
  have "onRead B T buf c \<noteq> None"
  proof (cases "sc_ssl c \<and> (sc_state c = HANDSHAKE \<or> sc_state c = ESTABLISHED)")
    case True
    with onRead_handshake [OF assms, of c B buf] onRead_established [OF assms, of c B buf]
    show ?thesis by auto
  qed (auto simp: onRead_def)
  with send_returns [OF assms, of d c] written_returns [OF assms, of c] show ?thesis by auto
qed

theorem tls_operations_return_witness:
  "onRead string_buffer null_tls ''x'' (null_conn ESTABLISHED ''y'') \<noteq> None"
  using tls_operations_return [OF null_tls_laws, of "[]" "null_conn ESTABLISHED ''y''" string_buffer "''x''"]
  by blast

text \<open>C21: on an established connection where nothing of an earlier \<open>send\<close> still waits, \<open>send\<close> keeps the
  plaintext stream intact: what OpenSSL has accepted plus what waits afterwards is always a prefix of the old
  stream followed by the new data (nothing is reordered, repeated or made up), and it is exactly that unless
  the connection failed or \<open>SSL_get_error\<close> can report that the peer closed it (\<open>no_close\<close>);
  \<open>drainPendingPlain\<close> after it only moves bytes from the second part to the first.  Without the
  condition it is false: see \<open>send_overtakes_pending\<close>.\<close>

theorem send_keeps_stream:
  assumes "tls_laws T wsize rsize acc" "sc_ssl c" "sc_state c = ESTABLISHED" "sc_pendingPlain c = []"
  shows "\<exists>c' c''. ssl_send T d c = Some c' \<and> drainPendingPlain T c' = Some c'' \<and>
    prefix (stream acc c') (acc (sc_tls c) @ d) \<and> prefix (stream acc c'') (stream acc c') \<and>
    (no_close T \<and> sc_state c' = ESTABLISHED \<longrightarrow> stream acc c' = acc (sc_tls c) @ d) \<and>
    (no_close T \<and> sc_state c'' = ESTABLISHED \<longrightarrow> stream acc c'' = stream acc c')"
proof -
  have "\<exists>c'. ssl_send T d c = Some c' \<and> keeps_stream T acc (stream acc c @ d) c c'"
    using send_loop_stream [OF assms, of d] assms(2,3)
    by (auto simp: ssl_send_def intro: keeps_stream_quiet)
  then obtain c' where c': "ssl_send T d c = Some c'" "keeps_stream T acc (stream acc c @ d) c c'" by blast
  moreover obtain c'' where "drainPendingPlain T c' = Some c''" "keeps_stream T acc (stream acc c') c' c''"
    using drain_stream [OF assms(1)] by blast
  ultimately show ?thesis
    using assms(4) by (auto simp: keeps_stream_def stream_def)
qed

theorem send_keeps_stream_witness:
  "\<exists>c'. ssl_send null_tls ''abc'' (null_conn ESTABLISHED []) = Some c' \<and>
     prefix (stream (snd \<circ> snd) c') ''abc''"
  using send_keeps_stream [OF null_tls_laws, of "null_conn ESTABLISHED []" "''abc''"]
  by (auto simp: null_conn_def)

text \<open>\<open>send\<close> does not look at the plaintext that still waits: called while \<open>pendingPlain_\<close> is not
  empty, it hands the new data to OpenSSL first, and the older bytes follow behind it.\<close>

theorem send_overtakes_pending:
  assumes "tls_laws T wsize rsize acc" "sc_ssl c" "sc_state c = ESTABLISHED"
    and "d \<noteq> []" "length d \<le> INT_MAX" "fst (SSL_write T d (sc_tls c)) = int (length d)"
  shows "\<exists>c'. ssl_send T d c = Some c' \<and> acc (sc_tls c') = acc (sc_tls c) @ d \<and>
    sc_pendingPlain c' = sc_pendingPlain c"
proof -
  obtain t where w: "SSL_write T d (sc_tls c) = (int (length d), t)" using assms(6) by (metis prod.collapse)
  have a: "acc t = acc (sc_tls c) @ d" using tls_lawsD(3) [OF assms(1) w] by simp
  let ?c1 = "c\<lparr>sc_tls := t\<rparr>"
  obtain c2 where c2: "flushWriteBio T ?c1 = Some c2" "quiet acc ?c1 c2" by (rule flushE [OF assms(1)])
  obtain c3 where c3: "flushWriteBio T c2 = Some c3" "quiet acc c2 c3" by (rule flushE [OF assms(1)])
  have "send_loop T d c = send_loop T [] c2"
    using assms(4,5) w c2(1) by (subst send_loop.simps) (simp add: min_def)
  also have "\<dots> = Some c3" using c3(1) by (subst send_loop.simps) simp
  finally have "ssl_send T d c = Some c3" using assms(2-4) by (simp add: ssl_send_def)
  with a show ?thesis by (simp add: quiet_fields [OF c2(2)] quiet_fields [OF c3(2)])
qed

theorem send_overtakes_pending_witness:
  "\<exists>c'. ssl_send null_tls ''new'' (null_conn ESTABLISHED ''old'') = Some c' \<and>
     snd (snd (sc_tls c')) = ''new'' \<and> sc_pendingPlain c' = ''old''"
  using send_overtakes_pending [OF null_tls_laws, of "null_conn ESTABLISHED ''old''" "''new''"]
  by (simp add: null_conn_def null_tls_def INT_MAX_def)

text \<open>The read that completes the handshake decrypts nothing: whatever application data arrived
  behind the client's last handshake message (the usual case in TLS 1.3), the decrypted buffer
  is what it was before, and the data waits in OpenSSL until the next packet.\<close>

theorem handshake_leaves_data:
  assumes "sc_state c = HANDSHAKE" "sc_ssl c" "tls_laws T wsize rsize acc"
  shows "\<exists>b c'. onRead B T buf c = Some (b, c') \<and> sc_decryptedBuffer c' = sc_decryptedBuffer c"
  using onRead_handshake [OF assms(3,2,1), of B buf] by auto

theorem handshake_leaves_data_witness:
  "\<exists>b c'. onRead string_buffer null_tls ''Finished GET /'' (null_conn HANDSHAKE []) = Some (b, c') \<and>
     sc_decryptedBuffer c' = []"
  using handshake_leaves_data [OF _ _ null_tls_laws, of "null_conn HANDSHAKE []" string_buffer
      "''Finished GET /''"]
  by (simp add: null_conn_def)

end
