(* ===== verification/Handler.thy ===== *)
theory Handler
  imports Http_Request Http_Response
begin

section \<open>Request handlers\<close>

text \<open>
  \<open>HttpServer/include/router/RouterHandler.h\<close> and the callback type of \<open>Router.h\<close>.  A handler
  reads the request, writes the response through its pointer and may change the state \<open>'s\<close> of
  the application.  It returns, throws or brings the process down; what it wrote before it
  threw stays written.  A null \<open>HandlerPtr\<close> and an empty \<open>std::function\<close> are \<open>None\<close>.
\<close>

datatype thrown_value =
  ThrowResponse http_response      \<comment> \<open>\<open>throw response\<close>: caught as \<open>const HttpResponse &\<close>\<close>
| ThrowStd bytes                   \<comment> \<open>an exception derived from \<open>std::exception\<close>, its \<open>what()\<close>\<close>
| ThrowOther                       \<comment> \<open>anything else\<close>

type_synonym 's handler =
  "http_request \<Rightarrow> http_response \<Rightarrow> 's \<Rightarrow> (thrown_value, unit) outcome \<times> http_response \<times> 's"

definition call_handler ::
    "'s handler option \<Rightarrow> http_request \<Rightarrow> http_response \<Rightarrow> 's
      \<Rightarrow> (thrown_value, unit) outcome \<times> http_response \<times> 's" where
  \<comment> \<open>\<open>handler->handle(req, resp)\<close>\<close>
  "call_handler h req resp s =
     (case h of None \<Rightarrow> (Crash NullDeref, resp, s) | Some f \<Rightarrow> f req resp s)"

definition call_callback ::
    "'s handler option \<Rightarrow> http_request \<Rightarrow> http_response \<Rightarrow> 's
      \<Rightarrow> (thrown_value, unit) outcome \<times> http_response \<times> 's" where
  \<comment> \<open>\<open>callback(req, resp)\<close>\<close>
  "call_callback h req resp s =
     (case h of None \<Rightarrow> (Throw (ThrowStd ''bad_function_call''), resp, s) | Some f \<Rightarrow> f req resp s)"

definition then_true ::
    "(thrown_value, unit) outcome \<times> 'r \<Rightarrow> (thrown_value, bool) outcome \<times> 'r" where
  \<comment> \<open>\<open>...; return true;\<close>\<close>
  "then_true x = (case fst x of Ok _ \<Rightarrow> Ok True | Throw e \<Rightarrow> Throw e | Crash f \<Rightarrow> Crash f, snd x)"

lemma then_true_not_false: "fst (then_true x) \<noteq> Ok False"
  by (simp add: then_true_def split: outcome.split)

end
