(* ===== verification/Router.thy ===== *)
theory Router
  imports Handler "HOL-Library.Sublist"
begin

section \<open>Router\<close>

text \<open>
  \<open>HttpServer/include/router/Router.h\<close> and \<open>HttpServer/src/router/Router.cpp\<close>: two exact maps and
  two maps of regular-expression routes, grouped by method and static prefix.  A pattern whose
  literal text has no regular-expression metacharacter is compiled to tokens, and matching is
  that of the expression (\<open>seg_match\<close> is its declarative meaning).  The matching of any other
  pattern is the standard library's ECMAScript engine, an argument (\<open>regex_engine\<close>).
\<close>

subsection \<open>Patterns\<close>

datatype token = TLit char | TSeg    \<comment> \<open>a literal character, \<open>([^/]+)\<close>\<close>

datatype path_regex = Segments "token list" | Ecma bytes

record regex_engine =
  rx_valid :: "bytes \<Rightarrow> bool"                          \<comment> \<open>\<open>std::regex(text)\<close> does not throw\<close>
  rx_match :: "bytes \<Rightarrow> bytes \<Rightarrow> bytes list option"    \<comment> \<open>the captures of a full match\<close>

function replace_params :: "bytes \<Rightarrow> token list" where
  \<comment> \<open>\<open>regex_replace(pattern, "/:([^/]+)", "/([^/]+)")\<close>, leftmost matches first\<close>
  "replace_params [] = []"
| "replace_params (c # s) =
     (if c = CHR ''/'' \<and> take 1 s = '':'' \<and> takeWhile (\<lambda>x. x \<noteq> CHR ''/'') (drop 1 s) \<noteq> []
      then TLit (CHR ''/'') # TSeg # replace_params (dropWhile (\<lambda>x. x \<noteq> CHR ''/'') (drop 1 s))
      else TLit c # replace_params s)"
  by pat_completeness auto
termination
proof (relation "measure length", goal_cases)
  case (2 c s)
  have "length (dropWhile (\<lambda>x. x \<noteq> CHR ''/'') (drop 1 s)) \<le> length (drop 1 s)"
    by (rule length_dropWhile_le)
  also have "\<dots> \<le> length s" by simp
  finally show ?case by (simp del: length_drop)
qed simp_all

definition metacharacters :: bytes where
  "metacharacters = ''^$.*+?()[]{}|'' @ [CHR 0x5C]"

definition plain_token :: "token \<Rightarrow> bool" where
  "plain_token t = (case t of TLit c \<Rightarrow> c \<notin> set metacharacters | TSeg \<Rightarrow> True)"

definition token_text :: "token \<Rightarrow> bytes" where
  "token_text t = (case t of TLit c \<Rightarrow> [c] | TSeg \<Rightarrow> ''([^/]+)'')"

definition convertToRegex :: "bytes \<Rightarrow> path_regex" where
  "convertToRegex pathPattern =
     (let ts = replace_params pathPattern
      in if list_all plain_token ts then Segments ts
         else Ecma (''^'' @ concat (map token_text ts) @ ''$''))"

fun match_tokens :: "token list \<Rightarrow> bytes \<Rightarrow> bytes list option" where
  "match_tokens [] s = (if s = [] then Some [] else None)"
| "match_tokens (TLit c # ts) s =
     (case s of [] \<Rightarrow> None | x # xs \<Rightarrow> if x = c then match_tokens ts xs else None)"
| "match_tokens (TSeg # ts) s =
     (let v = takeWhile (\<lambda>x. x \<noteq> CHR ''/'') s
      in if v = [] then None
         else map_option ((#) v) (match_tokens ts (dropWhile (\<lambda>x. x \<noteq> CHR ''/'') s)))"

definition regex_match :: "regex_engine \<Rightarrow> bytes \<Rightarrow> path_regex \<Rightarrow> bytes list option" where
  "regex_match E path rx =
     (case rx of Segments ts \<Rightarrow> match_tokens ts path | Ecma text \<Rightarrow> rx_match E text path)"

definition routeStaticPrefixFromPattern :: "bytes \<Rightarrow> bytes" where
  "routeStaticPrefixFromPattern pathPattern =
     (case str_find ''/:'' pathPattern of None \<Rightarrow> [] | Some pos \<Rightarrow> substr 0 (pos + 1) pathPattern)"

definition pathPrefixesForLookup :: "bytes \<Rightarrow> bytes list" where
  "pathPrefixesForLookup path =
     (if path = [] \<or> path ! 0 \<noteq> CHR ''/'' then [[]]
      else remdups_adj (sort_key (\<lambda>k. - int (length k))
             ([] # map (\<lambda>i. substr 0 (i + 1) path)
                     (filter (\<lambda>i. path ! i = CHR ''/'') [1..<length path]) @ [path])))"

subsection \<open>The routing tables\<close>

type_synonym route_key = "http_method \<times> bytes"

record 's route_obj =
  ro_method :: http_method
  ro_regex :: path_regex
  ro_target :: "'s handler option"

record 's router =
  rt_handlers :: "route_key \<rightharpoonup> 's handler option"
  rt_callbacks :: "route_key \<rightharpoonup> 's handler option"
  rt_regexHandlers :: "route_key \<rightharpoonup> 's route_obj list"
  rt_regexCallbacks :: "route_key \<rightharpoonup> 's route_obj list"

definition new_router :: "'s router" where
  "new_router = \<lparr>rt_handlers = Map.empty, rt_callbacks = Map.empty,
     rt_regexHandlers = Map.empty, rt_regexCallbacks = Map.empty\<rparr>"

definition registerHandler :: "http_method \<Rightarrow> bytes \<Rightarrow> 's handler option \<Rightarrow> 's router \<Rightarrow> 's router" where
  "registerHandler m path h R = R\<lparr>rt_handlers := (rt_handlers R)((m, path) \<mapsto> h)\<rparr>"

definition registerCallback :: "http_method \<Rightarrow> bytes \<Rightarrow> 's handler option \<Rightarrow> 's router \<Rightarrow> 's router" where
  "registerCallback m path h R = R\<lparr>rt_callbacks := (rt_callbacks R)((m, path) \<mapsto> h)\<rparr>"

definition bucket_push ::
    "route_key \<Rightarrow> 's route_obj \<Rightarrow> (route_key \<rightharpoonup> 's route_obj list) \<Rightarrow> (route_key \<rightharpoonup> 's route_obj list)" where
  \<comment> \<open>\<open>buckets[key].emplace_back(...)\<close>\<close>
  "bucket_push k x bs = bs(k \<mapsto> (case bs k of None \<Rightarrow> [] | Some xs \<Rightarrow> xs) @ [x])"

definition regex_valid :: "regex_engine \<Rightarrow> path_regex \<Rightarrow> bool" where
  "regex_valid E rx = (case rx of Segments _ \<Rightarrow> True | Ecma text \<Rightarrow> rx_valid E text)"

definition addRegexHandler ::
    "regex_engine \<Rightarrow> http_method \<Rightarrow> bytes \<Rightarrow> 's handler option \<Rightarrow> 's router
      \<Rightarrow> (thrown_value, 's router) outcome" where
  "addRegexHandler E m path h R =
     (let rx = convertToRegex path
      in if \<not> regex_valid E rx then Throw (ThrowStd ''regex_error'')
         else Ok (R\<lparr>rt_regexHandlers := bucket_push (m, routeStaticPrefixFromPattern path)
                \<lparr>ro_method = m, ro_regex = rx, ro_target = h\<rparr> (rt_regexHandlers R)\<rparr>))"

definition addRegexCallback ::
    "regex_engine \<Rightarrow> http_method \<Rightarrow> bytes \<Rightarrow> 's handler option \<Rightarrow> 's router
      \<Rightarrow> (thrown_value, 's router) outcome" where
  "addRegexCallback E m path h R =
     (let rx = convertToRegex path
      in if \<not> regex_valid E rx then Throw (ThrowStd ''regex_error'')
         else Ok (R\<lparr>rt_regexCallbacks := bucket_push (m, routeStaticPrefixFromPattern path)
                \<lparr>ro_method = m, ro_regex = rx, ro_target = h\<rparr> (rt_regexCallbacks R)\<rparr>))"

subsection \<open>Routing a request\<close>

definition param_key :: "nat \<Rightarrow> bytes" where
  "param_key i = ''param'' @ nat_to_dec i"

definition extractPathParameters :: "bytes list \<Rightarrow> http_request \<Rightarrow> http_request" where
  \<comment> \<open>the captures of the match, from index 1 on\<close>
  "extractPathParameters caps r =
     fold (\<lambda>(i, v). setPathParameters (param_key i) v) (enumerate 1 caps) r"

fun find_in_bucket ::
    "regex_engine \<Rightarrow> http_method \<Rightarrow> bytes \<Rightarrow> 's route_obj list \<Rightarrow> ('s route_obj \<times> bytes list) option" where
  "find_in_bucket E m path [] = None"
| "find_in_bucket E m path (x # xs) =
     (case (if ro_method x = m then regex_match E path (ro_regex x) else None) of
        Some caps \<Rightarrow> Some (x, caps)
      | None \<Rightarrow> find_in_bucket E m path xs)"

fun find_by_prefix ::
    "regex_engine \<Rightarrow> http_method \<Rightarrow> bytes \<Rightarrow> (route_key \<rightharpoonup> 's route_obj list) \<Rightarrow> bytes list
      \<Rightarrow> ('s route_obj \<times> bytes list) option" where
  "find_by_prefix E m path bs [] = None"
| "find_by_prefix E m path bs (p # ps) =
     (case bs (m, p) of
        None \<Rightarrow> find_by_prefix E m path bs ps
      | Some xs \<Rightarrow>
          (case find_in_bucket E m path xs of
             Some r \<Rightarrow> Some r
           | None \<Rightarrow> find_by_prefix E m path bs ps))"

definition route ::
    "regex_engine \<Rightarrow> 's router \<Rightarrow> http_request \<Rightarrow> http_response \<Rightarrow> 's
      \<Rightarrow> (thrown_value, bool) outcome \<times> http_response \<times> 's" where
  "route E R req resp s =
     (let m = req_method req; pathStr = req_path req
      in case rt_handlers R (m, pathStr) of
           Some h \<Rightarrow> then_true (call_handler h req resp s)
         | None \<Rightarrow>
        (case rt_callbacks R (m, pathStr) of
           Some cb \<Rightarrow> then_true (call_callback cb req resp s)
         | None \<Rightarrow>
        (case find_by_prefix E m pathStr (rt_regexHandlers R) (pathPrefixesForLookup pathStr) of
           Some (x, caps) \<Rightarrow>
             then_true (call_handler (ro_target x) (extractPathParameters caps req) resp s)
         | None \<Rightarrow>
        (case find_by_prefix E m pathStr (rt_regexCallbacks R) (pathPrefixesForLookup pathStr) of
           Some (x, caps) \<Rightarrow>
             then_true (call_callback (ro_target x) (extractPathParameters caps req) resp s)
         | None \<Rightarrow> (Ok False, resp, s)))))"

subsection \<open>Matching is the meaning of the expression\<close>

inductive seg_match :: "token list \<Rightarrow> bytes \<Rightarrow> bytes list \<Rightarrow> bool" where
  seg_end: "seg_match [] [] []"
| seg_lit: "seg_match ts s caps \<Longrightarrow> seg_match (TLit c # ts) (c # s) caps"
| seg_cap: "v \<noteq> [] \<Longrightarrow> CHR ''/'' \<notin> set v \<Longrightarrow> seg_match ts s caps \<Longrightarrow>
    seg_match (TSeg # ts) (v @ s) (v # caps)"

code_pred seg_match .

inductive_cases seg_endE: "seg_match [] s caps"
inductive_cases seg_litE: "seg_match (TLit c # ts) s caps"

fun seg_delimited :: "token list \<Rightarrow> bool" where
  \<comment> \<open>a capture is followed by the end or by a slash\<close>
  "seg_delimited [] \<longleftrightarrow> True"
| "seg_delimited (TLit c # ts) \<longleftrightarrow> seg_delimited ts"
| "seg_delimited (TSeg # ts) \<longleftrightarrow> (ts = [] \<or> hd ts = TLit (CHR ''/'')) \<and> seg_delimited ts"

lemma hd_replace_params: "s \<noteq> [] \<Longrightarrow> replace_params s \<noteq> [] \<and> hd (replace_params s) = TLit (hd s)"
  by (cases s) auto

lemma replace_params_empty [simp]: "replace_params s = [] \<longleftrightarrow> s = []"
  by (cases s) auto

lemma seg_delimited_replace: "seg_delimited (replace_params p)"
proof (induction p rule: replace_params.induct)
  case (2 c s)
  let ?r = "dropWhile (\<lambda>x. x \<noteq> CHR ''/'') (drop 1 s)"
  have "?r \<noteq> [] \<Longrightarrow> hd ?r = CHR ''/''" using hd_dropWhile [of "\<lambda>x. x \<noteq> CHR ''/''" "drop 1 s"] by simp
  with 2 hd_replace_params [of ?r] show ?case by auto
qed simp

lemma match_tokens_sound: "match_tokens ts s = Some caps \<Longrightarrow> seg_match ts s caps"
proof (induction ts s arbitrary: caps rule: match_tokens.induct)
  case (3 ts s)
  let ?v = "takeWhile (\<lambda>x. x \<noteq> CHR ''/'') s" and ?r = "dropWhile (\<lambda>x. x \<noteq> CHR ''/'') s"
  from 3 obtain cs where "?v \<noteq> []" "caps = ?v # cs" "seg_match ts ?r cs"
    by (auto simp: Let_def split: if_splits)
  moreover have "CHR ''/'' \<notin> set ?v" by (auto dest: set_takeWhileD)
  ultimately show ?case
    using seg_cap [of ?v ts ?r cs] by simp
qed (auto intro: seg_match.intros split: if_splits list.splits)

lemma match_tokens_complete:
  "seg_match ts s caps \<Longrightarrow> seg_delimited ts \<Longrightarrow> match_tokens ts s = Some caps"
proof (induction rule: seg_match.induct)
  case (seg_cap v ts s caps)
  have "s = [] \<or> hd s = CHR ''/'' \<and> s \<noteq> []"
  proof (cases ts)
    case Nil
    with seg_cap.hyps(3) show ?thesis by (auto elim: seg_endE)
  next
    case (Cons t ts')
    with seg_cap.prems seg_cap.hyps(3) show ?thesis by (auto elim: seg_litE)
  qed
  then have "takeWhile (\<lambda>x. x \<noteq> CHR ''/'') (v @ s) = v \<and> dropWhile (\<lambda>x. x \<noteq> CHR ''/'') (v @ s) = s"
  proof
    assume "s = []"
    with seg_cap.hyps(2) show ?thesis by (auto simp: takeWhile_eq_all_conv)
  next
    assume "hd s = CHR ''/'' \<and> s \<noteq> []"
    with seg_cap.hyps(2) show ?thesis by (cases s) (auto simp: takeWhile_until dropWhile_until)
  qed
  with seg_cap show ?case by (simp add: Let_def)
qed simp_all

lemma match_tokens_iff:
  "match_tokens (replace_params p) s = Some caps \<longleftrightarrow> seg_match (replace_params p) s caps"
  using match_tokens_sound match_tokens_complete seg_delimited_replace by blast

subsection \<open>Static prefixes\<close>

lemma match_prefix:
  assumes "str_find ''/:'' p = Some pos" "match_tokens (replace_params p) s = Some caps"
  shows "take (pos + 1) s = take (pos + 1) p \<and> pos < length s \<and> s ! pos = CHR ''/''"
  using assms
proof (induction p arbitrary: pos s)
  case (Cons c p)
  show ?case
  proof (cases "take 2 (c # p) = ''/:''")
    case True
    then have "c = CHR ''/''" "take 1 p = '':''" "pos = 0" using Cons.prems(1) by (auto simp: numeral_2_eq_2)
    moreover from this Cons.prems(2) obtain s' where "s = CHR ''/'' # s'"
      by (auto split: if_splits list.splits)
    ultimately show ?thesis by simp
  next
    case False
    then obtain j where j: "str_find ''/:'' p = Some j" "pos = Suc j"
      using Cons.prems(1) by (auto simp: numeral_2_eq_2 split: if_splits)
    have "replace_params (c # p) = TLit c # replace_params p" using False by (auto simp: numeral_2_eq_2)
    with Cons.prems(2) obtain s' where "s = c # s'" "match_tokens (replace_params p) s' = Some caps"
      by (auto split: list.splits if_splits)
    with Cons.IH [OF j(1)] j(2) show ?thesis by simp
  qed
qed simp

lemma set_pathPrefixes:
  "set (pathPrefixesForLookup path) =
     (if path = [] \<or> path ! 0 \<noteq> CHR ''/'' then {[]}
      else insert [] (insert path
        ((\<lambda>i. substr 0 (i + 1) path) ` {i. 1 \<le> i \<and> i < length path \<and> path ! i = CHR ''/''})))"
proof (cases "path = [] \<or> path ! 0 \<noteq> CHR ''/''")
  case False
  then show ?thesis
    by (simp only: pathPrefixesForLookup_def if_False remdups_adj_set set_sort) auto
qed (simp add: pathPrefixesForLookup_def)

lemma static_prefix_looked_up:
  assumes "match_tokens (replace_params p) path = Some caps"
    and "routeStaticPrefixFromPattern p \<noteq> ''/''" "take 1 p = ''/''"
  shows "routeStaticPrefixFromPattern p \<in> set (pathPrefixesForLookup path)"
proof (cases "str_find ''/:'' p")
  case None
  then show ?thesis
    by (simp add: routeStaticPrefixFromPattern_def set_pathPrefixes)
next
  case (Some pos)
  note pre = match_prefix [OF Some assms(1)]
  then have eq: "routeStaticPrefixFromPattern p = take (pos + 1) path"
    using Some by (simp add: routeStaticPrefixFromPattern_def substr_def)
  have "path \<noteq> [] \<and> path ! 0 = CHR ''/''"
  proof -
    have "take 1 path = take 1 p"
      using pre by (metis (no_types, opaque_lifting) le_add2 min.absorb1 take_take)
    with assms(3) show ?thesis by (cases path) auto
  qed
  moreover have "pos \<noteq> 0"
  proof
    assume "pos = 0"
    with eq assms(2) calculation show False by (cases path) auto
  qed
  moreover have "take (pos + 1) path \<in>
      (\<lambda>i. substr 0 (i + 1) path) ` {i. 1 \<le> i \<and> i < length path \<and> path ! i = CHR ''/''}"
    using pre calculation(2) by (intro image_eqI [of _ _ pos]) (simp_all add: substr_def)
  ultimately show ?thesis unfolding eq set_pathPrefixes by simp
qed

lemma root_prefix_never:
  assumes "path \<noteq> ''/''"
  shows "''/'' \<notin> set (pathPrefixesForLookup path)"
proof -
  have "''/'' \<noteq> substr 0 (i + 1) path" if "1 \<le> i" "i < length path" for i
  proof
    assume "''/'' = substr 0 (i + 1) path"
    then have "length (substr 0 (i + 1) path) = length ''/''" by (simp only:)
    with that show False by (simp add: substr_def)
  qed
  then have "''/'' \<notin> (\<lambda>i. substr 0 (i + 1) path) `
      {i. 1 \<le> i \<and> i < length path \<and> path ! i = CHR ''/''}" by blast
  with assms show ?thesis by (simp add: set_pathPrefixes)
qed

lemma remdups_adj_strict:
  "sorted_wrt (\<lambda>a b. f a \<le> f b) xs \<Longrightarrow> inj_on f (set xs) \<Longrightarrow>
   sorted_wrt (\<lambda>a b. (f a :: 'b::linorder) < f b) (remdups_adj xs)"
proof (induction xs rule: remdups_adj.induct)
  case (3 x y xs)
  show ?case
  proof (cases "x = y")
    case False
    then have "f x < f y" using 3 by (auto simp: inj_on_def order_less_le)
    then have "\<forall>z \<in> set (y # xs). f x < f z" using 3 by auto
    with 3 False show ?thesis by auto
  qed (use 3 in auto)
qed simp_all

lemma pathPrefixes_descending:
  "sorted_wrt (\<lambda>a b. length b < length a) (pathPrefixesForLookup path)"
proof (cases "path = [] \<or> path ! 0 \<noteq> CHR ''/''")
  case False
  let ?xs = "[] # map (\<lambda>i. substr 0 (i + 1) path)
      (filter (\<lambda>i. path ! i = CHR ''/'') [1..<length path]) @ [path]"
  let ?f = "\<lambda>k. - int (length k)"
  have tk: "k = take (length k) path" if "k \<in> set ?xs" for k
    using that by (auto simp: substr_def)
  have "inj_on ?f (set ?xs)"
  proof (rule inj_onI)
    fix a b assume "a \<in> set ?xs" "b \<in> set ?xs" "?f a = ?f b"
    with tk [of a] tk [of b] show "a = b" by simp
  qed
  moreover have "sorted_wrt (\<lambda>a b. ?f a \<le> ?f b) (sort_key ?f ?xs)"
    using sorted_sort_key [of ?f ?xs] by (simp add: sorted_map)
  ultimately have "sorted_wrt (\<lambda>a b. ?f a < ?f b) (remdups_adj (sort_key ?f ?xs))"
    by (intro remdups_adj_strict) (simp_all only: set_sort)
  with False show ?thesis by (simp add: pathPrefixesForLookup_def)
qed (simp add: pathPrefixesForLookup_def)

subsection \<open>The buckets implement a linear scan\<close>

text \<open>
  The specification of the router is the list of registrations in their order; of the pattern
  routes whose method and expression match and whose static prefix is looked up, it takes
  the ones with the longest static prefix, and of these the first.
\<close>

type_synonym 's route_entry = "http_method \<times> bytes \<times> 's handler option"

datatype 's registration =
    RegisterHandler http_method bytes "'s handler option"
  | RegisterCallback http_method bytes "'s handler option"
  | AddRegexHandler http_method bytes "'s handler option"
  | AddRegexCallback http_method bytes "'s handler option"

fun register_one :: "regex_engine \<Rightarrow> 's registration \<Rightarrow> 's router \<Rightarrow> (thrown_value, 's router) outcome" where
  "register_one E (RegisterHandler m p h) R = Ok (registerHandler m p h R)"
| "register_one E (RegisterCallback m p h) R = Ok (registerCallback m p h R)"
| "register_one E (AddRegexHandler m p h) R = addRegexHandler E m p h R"
| "register_one E (AddRegexCallback m p h) R = addRegexCallback E m p h R"

fun register_all ::
    "regex_engine \<Rightarrow> 's registration list \<Rightarrow> 's router \<Rightarrow> (thrown_value, 's router) outcome" where
  "register_all E [] R = Ok R"
| "register_all E (g # gs) R =
     (case register_one E g R of
        Ok R' \<Rightarrow> register_all E gs R' | Throw e \<Rightarrow> Throw e | Crash f \<Rightarrow> Crash f)"

definition exact_handlers :: "'s registration list \<Rightarrow> (route_key \<times> 's handler option) list" where
  "exact_handlers gs = [((m, p), h). RegisterHandler m p h \<leftarrow> gs]"

definition exact_callbacks :: "'s registration list \<Rightarrow> (route_key \<times> 's handler option) list" where
  "exact_callbacks gs = [((m, p), h). RegisterCallback m p h \<leftarrow> gs]"

definition regex_handlers :: "'s registration list \<Rightarrow> 's route_entry list" where
  "regex_handlers gs = [(m, p, h). AddRegexHandler m p h \<leftarrow> gs]"

definition regex_callbacks :: "'s registration list \<Rightarrow> 's route_entry list" where
  "regex_callbacks gs = [(m, p, h). AddRegexCallback m p h \<leftarrow> gs]"

definition looked_up :: "bytes \<Rightarrow> bytes \<Rightarrow> bool" where
  \<comment> \<open>the static prefixes tried for a path: none, the path, and its directories except the root\<close>
  "looked_up path q \<longleftrightarrow> q = [] \<or>
     take 1 path = ''/'' \<and> (q = path \<or> prefix q path \<and> last q = CHR ''/'' \<and> q \<noteq> ''/'')"

lemma looked_up_iff: "q \<in> set (pathPrefixesForLookup path) \<longleftrightarrow> looked_up path q"
proof (cases "take 1 path = ''/''")
  case True
  then obtain xs where path: "path = CHR ''/'' # xs" by (cases path) auto
  have "(\<exists>i. q = substr 0 (i + 1) path \<and> 1 \<le> i \<and> i < length path \<and> path ! i = CHR ''/'') \<longleftrightarrow>
      prefix q path \<and> last q = CHR ''/'' \<and> q \<noteq> ''/'' \<and> q \<noteq> []" (is "?L \<longleftrightarrow> ?R")
  proof
    assume ?L
    then obtain i where i: "q = take (Suc i) path" "1 \<le> i" "i < length path" "path ! i = CHR ''/''"
      by (auto simp: substr_def)
    then have "q = take i path @ [CHR ''/'']" by (simp add: take_Suc_conv_app_nth)
    then have "last q = CHR ''/'' \<and> q \<noteq> []" by simp
    with i show ?R by (auto simp: take_is_prefix path)
  next
    assume r: ?R
    then obtain zs where zs: "path = q @ zs" by (auto simp: prefix_def)
    have "length q \<noteq> 1"
    proof
      assume "length q = 1"
      then obtain c where "q = [c]" by (auto simp: length_Suc_conv)
      with r show False by simp
    qed
    with r zs show ?L
      by (intro exI [of _ "length q - 1"]) (cases q; auto simp: substr_def nth_append last_conv_nth Suc_le_eq)
  qed
  with True path show ?thesis by (auto simp: set_pathPrefixes looked_up_def image_iff)
next
  case False
  then have "path = [] \<or> path ! 0 \<noteq> CHR ''/''" by (cases path) auto
  with False show ?thesis by (simp add: set_pathPrefixes looked_up_def)
qed

definition entry_captures :: "regex_engine \<Rightarrow> bytes \<Rightarrow> 's route_entry \<Rightarrow> bytes list option" where
  "entry_captures E path e = regex_match E path (convertToRegex (fst (snd e)))"

definition entry_prefix :: "'s route_entry \<Rightarrow> bytes" where
  "entry_prefix e = routeStaticPrefixFromPattern (fst (snd e))"

definition candidates :: "regex_engine \<Rightarrow> http_method \<Rightarrow> bytes \<Rightarrow> 's route_entry list \<Rightarrow> 's route_entry list" where
  "candidates E m path es =
     filter (\<lambda>e. fst e = m \<and> entry_captures E path e \<noteq> None \<and> looked_up path (entry_prefix e)) es"

definition tried ::
    "regex_engine \<Rightarrow> http_method \<Rightarrow> bytes \<Rightarrow> bytes list \<Rightarrow> 's route_entry list \<Rightarrow> 's route_entry list" where
  "tried E m path qs es =
     filter (\<lambda>e. fst e = m \<and> entry_captures E path e \<noteq> None \<and> entry_prefix e \<in> set qs) es"

lemma tried_candidates: "tried E m path (pathPrefixesForLookup path) es = candidates E m path es"
  by (simp add: tried_def candidates_def looked_up_iff)

fun pick_longest :: "'s route_entry list \<Rightarrow> 's route_entry option" where
  "pick_longest [] = None"
| "pick_longest (e # es) =
     (case pick_longest es of
        None \<Rightarrow> Some e
      | Some e' \<Rightarrow> if length (entry_prefix e') \<le> length (entry_prefix e) then Some e else Some e')"

definition entry_obj :: "'s route_entry \<Rightarrow> 's route_obj" where
  "entry_obj e =
     \<lparr>ro_method = fst e, ro_regex = convertToRegex (fst (snd e)), ro_target = snd (snd e)\<rparr>"

definition bucket :: "http_method \<Rightarrow> bytes \<Rightarrow> 's route_entry list \<Rightarrow> 's route_entry list" where
  "bucket m p es = filter (\<lambda>e. fst e = m \<and> entry_prefix e = p) es"

definition buckets_of :: "'s route_entry list \<Rightarrow> route_key \<rightharpoonup> 's route_obj list" where
  "buckets_of es = (\<lambda>(m, p). if bucket m p es = [] then None
     else Some (map entry_obj (bucket m p es)))"

lemma buckets_snoc:
  "bucket_push (m, routeStaticPrefixFromPattern p)
     \<lparr>ro_method = m, ro_regex = convertToRegex p, ro_target = h\<rparr> (buckets_of es) =
   buckets_of (es @ [(m, p, h)])"
  by (auto simp: bucket_push_def buckets_of_def bucket_def entry_obj_def entry_prefix_def fun_eq_iff)

definition registered :: "'s registration list \<Rightarrow> 's router \<Rightarrow> bool" where
  "registered gs R \<longleftrightarrow>
     rt_handlers R = map_of (rev (exact_handlers gs)) \<and> rt_callbacks R = map_of (rev (exact_callbacks gs)) \<and>
     rt_regexHandlers R = buckets_of (regex_handlers gs) \<and> rt_regexCallbacks R = buckets_of (regex_callbacks gs)"

lemmas registrations = exact_handlers_def exact_callbacks_def regex_handlers_def regex_callbacks_def

lemma registered_new: "registered [] new_router"
  by (simp add: registered_def registrations new_router_def buckets_of_def bucket_def fun_eq_iff)

lemma registered_one: "register_one E g R = Ok R' \<Longrightarrow> registered gs R \<Longrightarrow> registered (gs @ [g]) R'"
  using buckets_snoc [of _ _ _ "regex_handlers gs"] buckets_snoc [of _ _ _ "regex_callbacks gs"]
  by (cases g) (auto simp: registered_def registrations registerHandler_def registerCallback_def
      addRegexHandler_def addRegexCallback_def Let_def split: if_splits)

lemma registered_all: "register_all E gs R = Ok R' \<Longrightarrow> registered gs0 R \<Longrightarrow> registered (gs0 @ gs) R'"
proof (induction gs arbitrary: R gs0)
  case (Cons g gs)
  then obtain R1 where "register_one E g R = Ok R1" "register_all E gs R1 = Ok R'"
    by (auto split: outcome.splits)
  with Cons.IH [of R1 "gs0 @ [g]"] registered_one Cons.prems(2) show ?case by fastforce
qed simp

lemma find_by_prefix_empty [simp]: "find_by_prefix E m path Map.empty ps = None"
  by (induction ps) simp_all

lemma find_in_bucket_map:
  "\<forall>e \<in> set es. fst e = m \<Longrightarrow>
   find_in_bucket E m path (map entry_obj es) =
     (case filter (\<lambda>e. entry_captures E path e \<noteq> None) es of
        [] \<Rightarrow> None | e # _ \<Rightarrow> Some (entry_obj e, the (entry_captures E path e)))"
  by (induction es) (auto simp: entry_obj_def entry_captures_def split: option.split)

lemma pick_longest_mem: "pick_longest es = Some e \<Longrightarrow> e \<in> set es"
  by (induction es arbitrary: e) (auto split: option.splits if_splits)

lemma pick_longest_None [simp]: "pick_longest es = None \<longleftrightarrow> es = []"
  by (cases es) (auto split: option.splits)

lemma pick_longest_hd:
  assumes "\<forall>e \<in> set es. length (entry_prefix e) \<le> n"
    and "\<exists>e \<in> set es. length (entry_prefix e) = n"
  shows "pick_longest es = Some (hd (filter (\<lambda>e. length (entry_prefix e) = n) es))"
  using assms
proof (induction es)
  case (Cons e es)
  show ?case
  proof (cases "length (entry_prefix e) = n")
    case True
    with Cons.prems(1) show ?thesis by (auto dest: pick_longest_mem split: option.split)
  next
    case False
    with Cons have "pick_longest es = Some (hd (filter (\<lambda>e. length (entry_prefix e) = n) es))"
      and *: "filter (\<lambda>e. length (entry_prefix e) = n) es \<noteq> []" by (auto simp: filter_empty_conv)
    moreover have "length (entry_prefix (hd (filter (\<lambda>e. length (entry_prefix e) = n) es))) = n"
      using hd_in_set [OF *] by simp
    ultimately show ?thesis using False Cons.prems(1) by auto
  qed
qed simp

lemma find_by_prefix_spec:
  assumes "sorted_wrt (\<lambda>a b. length b < length a) ps"
  shows "find_by_prefix E m path (buckets_of es) ps =
    map_option (\<lambda>e. (entry_obj e, the (entry_captures E path e))) (pick_longest (tried E m path ps es))"
  using assms
proof (induction ps)
  case Nil
  then show ?case by (simp add: tried_def)
next
  case (Cons p ps)
  let ?C = "tried E m path (p # ps) es"
  let ?F = "filter (\<lambda>e. entry_captures E path e \<noteq> None) (bucket m p es)"
  have shorter: "\<forall>q \<in> set ps. length q < length p" using Cons.prems by simp
  have mine: "filter (\<lambda>e. length (entry_prefix e) = length p) ?C = ?F"
    using shorter by (auto simp: tried_def bucket_def intro!: filter_cong)
  have found: "find_by_prefix E m path (buckets_of es) (p # ps) =
      (case ?F of [] \<Rightarrow> find_by_prefix E m path (buckets_of es) ps
       | e # _ \<Rightarrow> Some (entry_obj e, the (entry_captures E path e)))"
    using find_in_bucket_map [of "bucket m p es" m E path]
    by (auto simp: buckets_of_def bucket_def split: list.split)
  show ?case
  proof (cases ?F)
    case Nil
    then have "?C = tried E m path ps es"
      by (auto simp: tried_def bucket_def filter_empty_conv intro!: filter_cong)
    with Nil found Cons.IH Cons.prems show ?thesis by simp
  next
    case (Cons e fs)
    have "pick_longest ?C = Some (hd (filter (\<lambda>e. length (entry_prefix e) = length p) ?C))"
    proof (rule pick_longest_hd)
      show "\<forall>e \<in> set ?C. length (entry_prefix e) \<le> length p"
        using shorter by (auto simp: tried_def order_less_imp_le)
      have "e \<in> set ?F" using Cons by simp
      then show "\<exists>e \<in> set ?C. length (entry_prefix e) = length p" unfolding mine [symmetric] by auto
    qed
    with Cons found mine show ?thesis by simp
  qed
qed

subsection \<open>Path parameters\<close>

lemma nat_to_dec_inj: "nat_to_dec a = nat_to_dec b \<longleftrightarrow> a = b"
  by (metis dec_value_nat_to_dec)

lemma param_key_inj [simp]: "param_key i = param_key j \<longleftrightarrow> i = j"
  by (simp add: param_key_def nat_to_dec_inj)

lemma setPathParameters_get [simp]:
  "req_pathParameters (setPathParameters k v r) = (req_pathParameters r)(k \<mapsto> v)"
  by (simp add: setPathParameters_def)

lemma extract_other:
  "i < k \<Longrightarrow>
   req_pathParameters (fold (\<lambda>(j, v). setPathParameters (param_key j) v) (enumerate k caps) r) (param_key i) =
   req_pathParameters r (param_key i)"
  by (induction caps arbitrary: k r) simp_all

lemma extract_param:
  "i < length caps \<Longrightarrow>
   req_pathParameters (fold (\<lambda>(j, v). setPathParameters (param_key j) v) (enumerate k caps) r)
     (param_key (k + i)) = Some (caps ! i)"
proof (induction caps arbitrary: k i r)
  case (Cons v caps)
  show ?case
  proof (cases i)
    case 0
    then show ?thesis
      using extract_other [of k "Suc k" caps "setPathParameters (param_key k) v r"]
      by simp
  next
    case (Suc j)
    with Cons.IH [of j "Suc k" "setPathParameters (param_key k) v r"] Cons.prems
    show ?thesis by simp
  qed
qed simp

lemma extractPathParameters_nth:
  "i < length caps \<Longrightarrow> getPathParameters (param_key (i + 1)) (extractPathParameters caps r) = caps ! i"
  using extract_param [of i caps 1 r]
  by (simp add: getPathParameters_def extractPathParameters_def)

lemma find_candidates:
  "find_by_prefix E m path (buckets_of es) (pathPrefixesForLookup path) =
    map_option (\<lambda>e. (entry_obj e, the (entry_captures E path e))) (pick_longest (candidates E m path es))"
  using find_by_prefix_spec [OF pathPrefixes_descending, of E m path es] by (simp add: tried_candidates)

lemma route_scan:
  assumes "register_all E gs new_router = Ok R"
  shows "route E R req resp s =
    (let m = req_method req; path = req_path req;
         with_captures = (\<lambda>e. extractPathParameters (the (entry_captures E path e)) req)
     in case map_of (rev (exact_handlers gs)) (m, path) of
          Some h \<Rightarrow> then_true (call_handler h req resp s)
        | None \<Rightarrow>
       (case map_of (rev (exact_callbacks gs)) (m, path) of
          Some h \<Rightarrow> then_true (call_callback h req resp s)
        | None \<Rightarrow>
       (case pick_longest (candidates E m path (regex_handlers gs)) of
          Some e \<Rightarrow> then_true (call_handler (snd (snd e)) (with_captures e) resp s)
        | None \<Rightarrow>
       (case pick_longest (candidates E m path (regex_callbacks gs)) of
          Some e \<Rightarrow> then_true (call_callback (snd (snd e)) (with_captures e) resp s)
        | None \<Rightarrow> (Ok False, resp, s)))))"
proof -
  have "registered gs R" using registered_all [OF assms registered_new] by simp
  then show ?thesis
    by (simp add: route_def Let_def registered_def find_candidates entry_obj_def split: option.split)
qed

subsection \<open>Patterns of segments\<close>

text \<open>What a route pattern means, without its expression: a list of segments, each a literal or a named
  parameter, fits a path of as many segments that agree on the literals and have some text for each parameter.\<close>

datatype segment = Literal bytes | Param bytes

fun segment_text :: "segment \<Rightarrow> bytes" where
  "segment_text (Literal l) = l"
| "segment_text (Param name) = CHR '':'' # name"

definition joined :: "bytes list \<Rightarrow> bytes" where
  "joined parts = concat (map ((#) (CHR ''/'')) parts)"

fun segment_fits :: "segment \<Rightarrow> bytes \<Rightarrow> bool" where
  "segment_fits (Literal l) part \<longleftrightarrow> part = l"
| "segment_fits (Param name) part \<longleftrightarrow> part \<noteq> [] \<and> CHR ''/'' \<notin> set part"

fun wf_segment :: "segment \<Rightarrow> bool" where
  \<comment> \<open>no slash inside, no metacharacter in a literal, which does not start with the colon\<close>
  "wf_segment (Literal l) \<longleftrightarrow> set l \<inter> set (CHR ''/'' # metacharacters) = {} \<and> take 1 l \<noteq> '':''"
| "wf_segment (Param name) \<longleftrightarrow> name \<noteq> [] \<and> CHR ''/'' \<notin> set name"

fun param_values :: "segment list \<Rightarrow> bytes list \<Rightarrow> bytes list" where
  "param_values (Param name # gs) (v # vs) = v # param_values gs vs"
| "param_values (Literal l # gs) (v # vs) = param_values gs vs"
| "param_values _ _ = []"

fun segment_tokens :: "segment \<Rightarrow> token list" where
  "segment_tokens (Literal l) = TLit (CHR ''/'') # map TLit l"
| "segment_tokens (Param name) = [TLit (CHR ''/''), TSeg]"

lemma replace_params_literal:
  "CHR ''/'' \<notin> set l \<Longrightarrow> replace_params (l @ r) = map TLit l @ replace_params r"
  by (induction l) auto

lemma joined_simps [simp]: "joined [] = []" "joined (v # vs) = CHR ''/'' # v @ joined vs"
  by (simp_all add: joined_def)

lemma joined_next: "joined vs = [] \<or> (\<exists>ws. joined vs = CHR ''/'' # ws)"
  by (cases vs) simp_all

lemma replace_segments:
  "list_all wf_segment gs \<Longrightarrow> replace_params (joined (map segment_text gs)) = concat (map segment_tokens gs)"
proof (induction gs)
  case (Cons g gs)
  let ?r = "joined (map segment_text gs)"
  show ?case
  proof (cases g)
    case (Literal l)
    with Cons.prems have "take 1 (l @ ?r) \<noteq> '':''" "CHR ''/'' \<notin> set l"
      using joined_next [of "map segment_text gs"] by (cases l; auto)+
    with Cons Literal show ?thesis by (simp add: replace_params_literal)
  next
    case (Param name)
    with Cons.prems have n: "name \<noteq> []" "CHR ''/'' \<notin> set name" by simp_all
    have "takeWhile (\<lambda>x. x \<noteq> CHR ''/'') (name @ ?r) = name \<and> dropWhile (\<lambda>x. x \<noteq> CHR ''/'') (name @ ?r) = ?r"
      using joined_next [of "map segment_text gs"] n(2)
      by (auto simp: takeWhile_until dropWhile_until takeWhile_eq_all_conv)
    with Cons Param n(1) show ?thesis by simp
  qed
qed simp

lemma plain_segments: "list_all wf_segment gs \<Longrightarrow> list_all plain_token (concat (map segment_tokens gs))"
proof (induction gs)
  case (Cons g gs)
  have "list_all plain_token (segment_tokens g)"
    using Cons.prems by (cases g) (auto simp: plain_token_def list_all_iff metacharacters_def)
  with Cons show ?case by simp
qed simp

inductive_cases seg_capE: "seg_match (TSeg # ts) s caps"

lemma seg_match_literal: "seg_match (map TLit l @ ts) s caps \<longleftrightarrow> (\<exists>s'. s = l @ s' \<and> seg_match ts s' caps)"
  by (induction l arbitrary: s) (auto intro: seg_lit elim!: seg_litE)

lemma parts_Cons:
  "(\<exists>parts. list_all2 segment_fits (g # gs) parts \<and> P parts) \<longleftrightarrow> (\<exists>v vs. segment_fits g v \<and> list_all2 segment_fits gs vs \<and> P (v # vs))"
  by (auto simp: list_all2_Cons1)

lemma seg_match_segments:
  "seg_match (concat (map segment_tokens gs)) s caps \<longleftrightarrow>
    (\<exists>parts. list_all2 segment_fits gs parts \<and> s = joined parts \<and> caps = param_values gs parts)"
proof (induction gs arbitrary: s caps)
  case Nil
  show ?case by (auto intro: seg_end elim: seg_endE)
next
  case (Cons g gs)
  show ?case
  proof (cases g)
    case (Literal l)
    have "seg_match (concat (map segment_tokens (g # gs))) s caps \<longleftrightarrow>
        (\<exists>s'. s = CHR ''/'' # l @ s' \<and> seg_match (concat (map segment_tokens gs)) s' caps)"
      using seg_match_literal [of "CHR ''/'' # l" "concat (map segment_tokens gs)" s caps] Literal by simp
    also have "\<dots> \<longleftrightarrow> (\<exists>v vs. segment_fits g v \<and> list_all2 segment_fits gs vs \<and> s = joined (v # vs) \<and> caps = param_values (g # gs) (v # vs))"
      unfolding Cons.IH Literal by (simp only: segment_fits.simps joined_simps param_values.simps) blast
    finally show ?thesis unfolding parts_Cons .
  next
    case (Param name)
    have "seg_match (concat (map segment_tokens (g # gs))) s caps \<longleftrightarrow>
        (\<exists>v s' cs. s = CHR ''/'' # v @ s' \<and> caps = v # cs \<and> v \<noteq> [] \<and> CHR ''/'' \<notin> set v \<and>
           seg_match (concat (map segment_tokens gs)) s' cs)"
      unfolding Param by (auto intro!: seg_lit seg_cap elim!: seg_litE seg_capE)
    also have "\<dots> \<longleftrightarrow> (\<exists>v vs. segment_fits g v \<and> list_all2 segment_fits gs vs \<and> s = joined (v # vs) \<and> caps = param_values (g # gs) (v # vs))"
      unfolding Cons.IH Param by (simp only: segment_fits.simps joined_simps param_values.simps) blast
    finally show ?thesis unfolding parts_Cons .
  qed
qed

subsection \<open>What the router guarantees\<close>

definition no_regex :: regex_engine where
  \<comment> \<open>an engine that knows no expression, enough for patterns without metacharacters\<close>
  "no_regex = \<lparr>rx_valid = \<lambda>_. False, rx_match = \<lambda>_ _. None\<rparr>"

text \<open>C28: what a route pattern means, from its text to its captures: for a pattern of literal segments (without
  slashes and metacharacters, not starting with a colon) and named parameters, the expression \<open>convertToRegex\<close> makes of
  it matches a path exactly when the path has as many segments, equal to the literals and non-empty at
  the parameters, and the captures are the segments at the parameters, in order.\<close>

theorem pattern_meaning:
  assumes "list_all wf_segment gs"
  shows "regex_match E path (convertToRegex (joined (map segment_text gs))) = Some caps \<longleftrightarrow>
    (\<exists>parts. list_all2 segment_fits gs parts \<and> path = joined parts \<and> caps = param_values gs parts)"
  using plain_segments [OF assms] match_tokens_iff [of "joined (map segment_text gs)" path caps]
  by (simp add: convertToRegex_def regex_match_def replace_segments [OF assms] seg_match_segments)

theorem pattern_meaning_witness:
  "regex_match no_regex ''/u/7/to/x'' (convertToRegex ''/u/:id/to/:who'') = Some [''7'', ''x''] \<and>
   regex_match no_regex ''/u/7/to'' (convertToRegex ''/u/:id/to/:who'') \<noteq> Some [''7'']"
proof -
  let ?gs = "[Literal ''u'', Param ''id'', Literal ''to'', Param ''who'']"
  have wf: "list_all wf_segment ?gs" by (simp add: metacharacters_def)
  have rendered: "joined (map segment_text ?gs) = ''/u/:id/to/:who''" by simp
  have "list_all2 segment_fits ?gs [''u'', ''7'', ''to'', ''x''] \<and> ''/u/7/to/x'' = joined [''u'', ''7'', ''to'', ''x''] \<and>
      [''7'', ''x''] = param_values ?gs [''u'', ''7'', ''to'', ''x'']" by simp
  moreover have "\<not> (\<exists>parts. list_all2 segment_fits ?gs parts \<and> ''/u/7/to'' = joined parts \<and> [''7''] = param_values ?gs parts)"
    by (auto simp: list_all2_Cons1)
  ultimately show ?thesis
    using pattern_meaning [OF wf, of no_regex "''/u/7/to/x''" "[''7'', ''x'']"]
      pattern_meaning [OF wf, of no_regex "''/u/7/to''" "[''7'']"] unfolding rendered by blast
qed

text \<open>A request whose method and path are registered exactly is given to that handler, before any
  callback or pattern, with the request and response untouched.\<close>

theorem exact_route_first:
  assumes "rt_handlers R (req_method req, req_path req) = Some h"
  shows "route E R req resp s = then_true (call_handler h req resp s)"
  using assms by (simp add: route_def Let_def)

theorem exact_route_first_witness:
  "route no_regex (registerHandler kGet ''/a'' (Some (\<lambda>_ resp s. (Ok (), setBody ''hit'' resp, s + 1)))
       (new_router :: nat router)) (new_request\<lparr>req_method := kGet, req_path := ''/a''\<rparr>)
     (new_response True) 4 =
   (Ok True, setBody ''hit'' (new_response True), 5)"
  using exact_route_first [of "registerHandler kGet ''/a''
      (Some (\<lambda>_ resp s. (Ok (), setBody ''hit'' resp, s + 1))) (new_router :: nat router)"
      "new_request\<lparr>req_method := kGet, req_path := ''/a''\<rparr>"
      "Some (\<lambda>_ resp s. (Ok (), setBody ''hit'' resp, s + 1))" no_regex "new_response True" 4]
  by (simp add: registerHandler_def new_request_def then_true_def call_handler_def)

text \<open>C16: what a router answers, in terms of the registrations made on a new one, in their order.
  A request goes to the last handler registered for exactly its method and path, else to the last such callback, else
  to the pattern handler, else to the pattern callback, that was registered first among those of the longest static
  prefix whose method and expression match and whose prefix is looked up (\<open>looked_up\<close>: none, the path itself
  or one of its directories other than \<open>/\<close>; so a pattern like \<open>/:id\<close> is never found).  Pattern routes get the
  request with the captures as \<open>param1\<close>, \<open>param2\<close>, ...; without any route the answer is \<open>false\<close>, the
  response and the state untouched.\<close>

theorem dynamic_route_scan:
  assumes "register_all E gs new_router = Ok R"
  shows "route E R req resp s =
    (let m = req_method req; path = req_path req;
         with_captures = (\<lambda>e. extractPathParameters (the (entry_captures E path e)) req)
     in case map_of (rev (exact_handlers gs)) (m, path) of
          Some h \<Rightarrow> then_true (call_handler h req resp s)
        | None \<Rightarrow>
       (case map_of (rev (exact_callbacks gs)) (m, path) of
          Some h \<Rightarrow> then_true (call_callback h req resp s)
        | None \<Rightarrow>
       (case pick_longest (candidates E m path (regex_handlers gs)) of
          Some e \<Rightarrow> then_true (call_handler (snd (snd e)) (with_captures e) resp s)
        | None \<Rightarrow>
       (case pick_longest (candidates E m path (regex_callbacks gs)) of
          Some e \<Rightarrow> then_true (call_callback (snd (snd e)) (with_captures e) resp s)
        | None \<Rightarrow> (Ok False, resp, s)))))"
  using assms by (rule route_scan)

theorem dynamic_route_scan_witness:
  "\<exists>R. register_all no_regex [RegisterHandler kGet ''/u'' None, AddRegexCallback kGet ''/u/:x'' None,
        AddRegexHandler kGet ''/u/:id'' (Some (\<lambda>r resp s. (Ok (), resp, getPathParameters (param_key 1) r))),
        AddRegexHandler kGet ''/u/:a/:b'' None] new_router = Ok R \<and>
     route no_regex R (new_request\<lparr>req_method := kGet, req_path := ''/u/7''\<rparr>) (new_response True) [] =
       (Ok True, new_response True, ''7'')"
proof -
  let ?e = "(kGet, ''/u/:id'', Some (\<lambda>r resp s. (Ok (), resp, getPathParameters (param_key 1) r)))"
  let ?gs = "[RegisterHandler kGet ''/u'' None, AddRegexCallback kGet ''/u/:x'' None,
        AddRegexHandler kGet ''/u/:id'' (Some (\<lambda>r resp s. (Ok (), resp, getPathParameters (param_key 1) r))),
        AddRegexHandler kGet ''/u/:a/:b'' None]"
  obtain R where R: "register_all no_regex ?gs (new_router :: bytes router) = Ok R"
    by (auto simp: addRegexHandler_def addRegexCallback_def convertToRegex_def regex_valid_def plain_token_def
        metacharacters_def Let_def)
  have "regex_handlers ?gs = [?e, (kGet, ''/u/:a/:b'', None)]" by (simp add: registrations)
  then have "candidates no_regex kGet ''/u/7'' (regex_handlers ?gs) = [?e]"
    by (simp add: candidates_def entry_captures_def regex_match_def convertToRegex_def looked_up_def
        plain_token_def metacharacters_def entry_prefix_def routeStaticPrefixFromPattern_def substr_def)
  moreover have "exact_handlers ?gs = [((kGet, ''/u''), None)]" "exact_callbacks ?gs = []"
    by (simp_all add: registrations)
  ultimately have "route no_regex R (new_request\<lparr>req_method := kGet, req_path := ''/u/7''\<rparr>) (new_response True) [] =
       (Ok True, new_response True, ''7'')"
    using dynamic_route_scan [OF R, of "new_request\<lparr>req_method := kGet, req_path := ''/u/7''\<rparr>" "new_response True" "[]"]
      extractPathParameters_nth [of 0 "[''7'']" "new_request\<lparr>req_method := kGet, req_path := ''/u/7''\<rparr>"]
    by (simp add: then_true_def call_handler_def entry_captures_def regex_match_def convertToRegex_def
        plain_token_def metacharacters_def)
  with R show ?thesis by blast
qed

text \<open>Every registration whose pattern has literal text between a leading slash and its first
  parameter and matches the path is found by the bucket lookup: the static prefix of the
  pattern is among the prefixes tried for the path.\<close>

theorem no_route_lost:
  assumes "match_tokens (replace_params p) path = Some caps"
    and "routeStaticPrefixFromPattern p \<noteq> ''/''" "take 1 p = ''/''"
  shows "routeStaticPrefixFromPattern p \<in> set (pathPrefixesForLookup path)"
  using assms by (rule static_prefix_looked_up)

theorem no_route_lost_witness:
  "routeStaticPrefixFromPattern ''/u/:id'' \<in> set (pathPrefixesForLookup ''/u/7'')"
  using no_route_lost [of "''/u/:id''" "''/u/7''" "[''7'']"]
  by (simp add: routeStaticPrefixFromPattern_def substr_def)

text \<open>A pattern that starts with a parameter (\<open>/:id\<close>, \<open>/:a/b\<close>) is registered under the prefix
  \<open>/\<close>, which is not among the prefixes tried for any path but \<open>/\<close> itself, so the route
  is never reached: the request is answered as if the pattern had not been registered,
  although its expression matches.\<close>

theorem root_parameter_unreachable:
  assumes "addRegexHandler E m (CHR ''/'' # CHR '':'' # p) h new_router = Ok R" "req_path req \<noteq> ''/''"
  shows "route E R req resp s = (Ok False, resp, s)"
proof -
  let ?e = "(m, CHR ''/'' # CHR '':'' # p, h)" and ?g = "AddRegexHandler m (CHR ''/'' # CHR '':'' # p) h"
  have "entry_prefix ?e = ''/''"
    by (simp add: entry_prefix_def routeStaticPrefixFromPattern_def substr_def)
  with root_prefix_never [OF assms(2)]
  have "candidates E (req_method req) (req_path req) [?e] = []"
    by (simp add: candidates_def looked_up_iff)
  moreover have "register_all E [?g] new_router = Ok R" using assms(1) by simp
  ultimately show ?thesis using route_scan [of E "[?g]" R req resp s] by (simp add: registrations Let_def candidates_def)
qed

theorem root_parameter_unreachable_witness:
  "\<exists>R. addRegexHandler no_regex kGet ''/:id'' (Some (\<lambda>_ resp s. (Ok (), resp, s))) new_router = Ok R \<and>
     route no_regex R (new_request\<lparr>req_method := kGet, req_path := ''/7''\<rparr>) (new_response True) () =
       (Ok False, new_response True, ()) \<and>
     match_tokens (replace_params ''/:id'') ''/7'' = Some [''7'']"
proof -
  let ?h = "Some (\<lambda>_ resp s. (Ok (), resp, s))"
  obtain R where R: "addRegexHandler no_regex kGet ''/:id'' ?h (new_router :: unit router) = Ok R"
    by (auto simp: addRegexHandler_def convertToRegex_def regex_valid_def plain_token_def metacharacters_def)
  have "route no_regex R (new_request\<lparr>req_method := kGet, req_path := ''/7''\<rparr>) (new_response True) () =
       (Ok False, new_response True, ())"
    by (rule root_parameter_unreachable [OF R]) simp
  with R show ?thesis by auto
qed

end
