(* ===== verification/Middleware.thy ===== *)
theory Middleware
  imports Handler
begin

section \<open>Middleware\<close>

text \<open>
  \<open>HttpServer/include/middleware/\<close>, \<open>HttpServer/src/middleware/MiddlewareChain.cpp\<close> and
  \<open>HttpServer/src/middleware/cors/CorsMiddleware.cpp\<close>.  A middleware is a pair of functions on
  the request, the response and the state \<open>'s\<close> of the server's objects, in which the member
  \<open>requestOrigin_\<close> of the CORS middleware has its place (a \<open>get\<close> and a \<open>put\<close>).  The chain holds
  pointers, \<open>None\<close> the null pointer.
\<close>

subsection \<open>The chain\<close>

record 's middleware =
  mw_before :: "http_request \<Rightarrow> 's \<Rightarrow> (thrown_value, unit) outcome \<times> http_request \<times> 's"
  mw_after :: "http_response \<Rightarrow> 's \<Rightarrow> (thrown_value, unit) outcome \<times> http_response \<times> 's"

type_synonym 's chain = "'s middleware option list"

definition addMiddleware :: "'s middleware option \<Rightarrow> 's chain \<Rightarrow> 's chain" where
  "addMiddleware m ms = ms @ [m]"

fun processBefore ::
    "'s chain \<Rightarrow> http_request \<Rightarrow> 's \<Rightarrow> (thrown_value, unit) outcome \<times> http_request \<times> 's" where
  "processBefore [] r s = (Ok (), r, s)"
| "processBefore (None # ms) r s = (Crash NullDeref, r, s)"
| "processBefore (Some m # ms) r s =
     (case mw_before m r s of
        (Ok _, r', s') \<Rightarrow> processBefore ms r' s'
      | x \<Rightarrow> x)"

fun after_loop ::
    "'s chain \<Rightarrow> http_response \<Rightarrow> 's \<Rightarrow> (thrown_value, unit) outcome \<times> http_response \<times> 's" where
  "after_loop [] r s = (Ok (), r, s)"
| "after_loop (None # ms) r s = after_loop ms r s"
| "after_loop (Some m # ms) r s =
     (case mw_after m r s of
        (Ok _, r', s') \<Rightarrow> after_loop ms r' s'
      | x \<Rightarrow> x)"

definition processAfter ::
    "'s chain \<Rightarrow> http_response \<Rightarrow> 's \<Rightarrow> (thrown_value, unit) outcome \<times> http_response \<times> 's" where
  \<comment> \<open>a \<open>std::exception\<close> is caught and logged\<close>
  "processAfter ms r s =
     (case after_loop (rev ms) r s of
        (Throw (ThrowStd _), r', s') \<Rightarrow> (Ok (), r', s')
      | x \<Rightarrow> x)"

subsection \<open>CorsMiddleware\<close>

record cors_config =
  cc_allowedOrigins :: "bytes list"
  cc_allowedMethods :: "bytes list"
  cc_allowedHeaders :: "bytes list"
  cc_allowCredentials :: bool
  cc_maxAge :: int

definition defaultConfig :: cors_config where
  "defaultConfig =
     \<lparr>cc_allowedOrigins = [''*''],
      cc_allowedMethods = [''GET'', ''POST'', ''PUT'', ''DELETE'', ''OPTIONS''],
      cc_allowedHeaders = [''Content-Type'', ''Authorization''],
      cc_allowCredentials = False, cc_maxAge = 3600\<rparr>"

definition isOriginAllowed :: "cors_config \<Rightarrow> bytes \<Rightarrow> bool" where
  "isOriginAllowed cfg origin \<longleftrightarrow>
     cc_allowedOrigins cfg = [] \<or> ''*'' \<in> set (cc_allowedOrigins cfg) \<or>
     origin \<in> set (cc_allowedOrigins cfg)"

definition resolveAllowOrigin :: "cors_config \<Rightarrow> bytes \<Rightarrow> bytes" where
  "resolveAllowOrigin cfg requestOrigin =
     (if requestOrigin = [] \<or> \<not> isOriginAllowed cfg requestOrigin then []
      else if ''*'' \<in> set (cc_allowedOrigins cfg) \<and> \<not> cc_allowCredentials cfg then ''*''
      else requestOrigin)"

definition join :: "bytes list \<Rightarrow> bytes \<Rightarrow> bytes" where
  "join strings delimiter = intercalate delimiter strings"

definition addCorsHeaders :: "cors_config \<Rightarrow> bytes \<Rightarrow> http_response \<Rightarrow> http_response" where
  "addCorsHeaders cfg origin r0 =
     (let r1 = addHeader ''Access-Control-Allow-Origin'' origin r0;
          r2 = (if cc_allowCredentials cfg
                then addHeader ''Access-Control-Allow-Credentials'' ''true'' r1 else r1);
          r3 = (if cc_allowedMethods cfg \<noteq> []
                then addHeader ''Access-Control-Allow-Methods'' (join (cc_allowedMethods cfg) '', '') r2
                else r2);
          r4 = (if cc_allowedHeaders cfg \<noteq> []
                then addHeader ''Access-Control-Allow-Headers'' (join (cc_allowedHeaders cfg) '', '') r3
                else r3)
      in addHeader ''Access-Control-Max-Age'' (int_to_dec (cc_maxAge cfg)) r4)"

definition with_origin_headers :: "cors_config \<Rightarrow> bytes \<Rightarrow> http_response \<Rightarrow> http_response" where
  "with_origin_headers cfg allowOrigin r =
     (let r' = addCorsHeaders cfg allowOrigin r
      in if allowOrigin \<noteq> ''*'' then addHeader ''Vary'' ''Origin'' r' else r')"

definition handlePreflightRequest :: "cors_config \<Rightarrow> http_request \<Rightarrow> http_response \<Rightarrow> http_response" where
  "handlePreflightRequest cfg req resp =
     (let allowOrigin = resolveAllowOrigin cfg (getHeader ''Origin'' req)
      in if allowOrigin = [] then setStatusCode k403Forbidden resp
         else setStatusCode k204NoContent (with_origin_headers cfg allowOrigin resp))"

definition cors_before ::
    "cors_config \<Rightarrow> (bytes \<Rightarrow> 's \<Rightarrow> 's) \<Rightarrow> http_request \<Rightarrow> 's
      \<Rightarrow> (thrown_value, unit) outcome \<times> http_request \<times> 's" where
  "cors_before cfg put req s =
     (let s' = put (getHeader ''Origin'' req) s
      in if req_method req = kOptions
         then (Throw (ThrowResponse (handlePreflightRequest cfg req (new_response True))), req, s')
         else (Ok (), req, s'))"

definition cors_after ::
    "cors_config \<Rightarrow> ('s \<Rightarrow> bytes) \<Rightarrow> http_response \<Rightarrow> 's
      \<Rightarrow> (thrown_value, unit) outcome \<times> http_response \<times> 's" where
  "cors_after cfg get resp s =
     (let allowOrigin = resolveAllowOrigin cfg (get s)
      in if allowOrigin = [] then (Ok (), resp, s)
         else (Ok (), with_origin_headers cfg allowOrigin resp, s))"

definition cors_middleware :: "cors_config \<Rightarrow> ('s \<Rightarrow> bytes) \<Rightarrow> (bytes \<Rightarrow> 's \<Rightarrow> 's) \<Rightarrow> 's middleware" where
  "cors_middleware cfg get put = \<lparr>mw_before = cors_before cfg put, mw_after = cors_after cfg get\<rparr>"

subsection \<open>The contract of a middleware that only adds headers\<close>

text \<open>
  \<open>header_middleware\<close>: \<open>before\<close> leaves the request as it is and either returns or answers it
  with a thrown response; \<open>after\<close> returns and changes nothing of the response but its header
  fields.  A chain of such middlewares then has the same contract, which is what
  \<open>HttpServer::handleRequest\<close> relies on.
\<close>

definition same_message :: "http_response \<Rightarrow> http_response \<Rightarrow> bool" where
  "same_message r r' \<longleftrightarrow> r'\<lparr>res_headers := res_headers r\<rparr> = r"

lemma same_message_refl [simp]: "same_message r r"
  by (simp add: same_message_def)

lemma same_message_trans: "same_message a b \<Longrightarrow> same_message b c \<Longrightarrow> same_message a c"
  by (cases a; cases b; cases c) (simp add: same_message_def)

lemma same_message_fields:
  "same_message r r' \<longleftrightarrow> res_httpVersion r' = res_httpVersion r \<and> res_statusCode r' = res_statusCode r \<and>
     res_statusMessage r' = res_statusMessage r \<and> res_closeConnection r' = res_closeConnection r \<and>
     res_body r' = res_body r"
  by (cases r; cases r') (auto simp: same_message_def)

locale header_middleware =
  fixes before :: "http_request \<Rightarrow> 's \<Rightarrow> (thrown_value, unit) outcome \<times> http_request \<times> 's"
    and after :: "http_response \<Rightarrow> 's \<Rightarrow> (thrown_value, unit) outcome \<times> http_response \<times> 's"
  assumes before_law: "before q s = (x, q', s') \<Longrightarrow>
      q' = q \<and> (x = Ok () \<or> (\<exists>resp. x = Throw (ThrowResponse resp)))"
    and after_law: "after r s = (x, r', s') \<Longrightarrow> x = Ok () \<and> same_message r r'"
begin

lemma processBefore_law:
  assumes "\<forall>m \<in> set ms. m = Some \<lparr>mw_before = before, mw_after = after\<rparr>"
    and "processBefore ms q s = (x, q', s')"
  shows "q' = q \<and> (x = Ok () \<or> (\<exists>resp. x = Throw (ThrowResponse resp)))"
  using assms
proof (induction ms arbitrary: q s)
  case (Cons m ms)
  obtain y r1 s1 where b: "before q s = (y, r1, s1)" by (metis prod_cases3)
  note law = before_law [OF b]
  have m: "m = Some \<lparr>mw_before = before, mw_after = after\<rparr>" using Cons.prems(1) by simp
  show ?case
  proof (cases "y = Ok ()")
    case True
    then have "processBefore (m # ms) q s = processBefore ms q s1" using b law by (simp add: m)
    with Cons.IH [of q s1] Cons.prems show ?thesis by simp
  next
    case False
    with law obtain resp where y: "y = Throw (ThrowResponse resp)" "r1 = q" by blast
    then have "processBefore (m # ms) q s = (y, q, s1)" using b by (simp add: m)
    with Cons.prems(2) y show ?thesis by auto
  qed
qed simp

lemma after_loop_law:
  assumes "\<forall>m \<in> set ms. m = None \<or> m = Some \<lparr>mw_before = before, mw_after = after\<rparr>"
    and "after_loop ms r s = (x, r', s')"
  shows "x = Ok () \<and> same_message r r'"
  using assms
proof (induction ms arbitrary: r s)
  case (Cons m ms)
  show ?case
  proof (cases "m = None")
    case True
    with Cons show ?thesis by simp
  next
    case False
    obtain y r1 s1 where a: "after r s = (y, r1, s1)" by (metis prod_cases3)
    have m: "m = Some \<lparr>mw_before = before, mw_after = after\<rparr>" using False Cons.prems(1) by auto
    note law = after_law [OF a]
    then have "after_loop (m # ms) r s = after_loop ms r1 s1" using a by (simp add: m)
    with Cons.IH [of r1 s1] Cons.prems have "x = Ok () \<and> same_message r1 r'" by simp
    with law same_message_trans [of r r1 r'] show ?thesis by blast
  qed
qed simp

lemma processAfter_law:
  assumes "\<forall>m \<in> set ms. m = None \<or> m = Some \<lparr>mw_before = before, mw_after = after\<rparr>"
    and "processAfter ms r s = (x, r', s')"
  shows "x = Ok () \<and> same_message r r'"
proof -
  obtain y r1 s1 where a: "after_loop (rev ms) r s = (y, r1, s1)" by (metis prod_cases3)
  with after_loop_law [OF _ a] assms show ?thesis by (simp add: processAfter_def)
qed

end

lemma addHeader_same_message [simp]: "same_message r (addHeader k v r)"
  by (simp add: same_message_def addHeader_def)

lemma addHeader_same_message_step: "same_message r r' \<Longrightarrow> same_message r (addHeader k v r')"
  by (erule same_message_trans) simp

lemma with_origin_headers_same_message: "same_message r (with_origin_headers cfg o' r)"
  by (simp add: with_origin_headers_def addCorsHeaders_def Let_def addHeader_same_message_step)

interpretation cors: header_middleware "cors_before cfg put" "cors_after cfg get"
  for cfg and put :: "bytes \<Rightarrow> 's \<Rightarrow> 's" and get
  by unfold_locales
    (auto simp: cors_before_def cors_after_def Let_def with_origin_headers_same_message split: if_splits)

subsection \<open>The headers the CORS middleware writes\<close>

definition header_of :: "http_response \<Rightarrow> bytes \<Rightarrow> bytes option" where
  "header_of r k = map_of (res_headers r) k"

lemma header_of_addHeader [simp]:
  "header_of (addHeader k v r) k' = (if k' = k then Some v else header_of r k')"
  by (simp add: header_of_def addHeader_def)

lemma header_of_setStatusCode [simp]: "header_of (setStatusCode c r) = header_of r"
  by (simp add: header_of_def setStatusCode_def fun_eq_iff)

lemma header_of_new [simp]: "header_of (new_response b) k = None"
  by (simp add: header_of_def new_response_def)

abbreviation ACAO :: bytes where "ACAO \<equiv> ''Access-Control-Allow-Origin''"
abbreviation ACAC :: bytes where "ACAC \<equiv> ''Access-Control-Allow-Credentials''"

lemma header_of_with_origin:
  "header_of (with_origin_headers cfg o' r) ACAO = Some o'"
  "header_of (with_origin_headers cfg o' r) ACAC =
     (if cc_allowCredentials cfg then Some ''true'' else header_of r ACAC)"
  "header_of (with_origin_headers cfg o' r) ''Vary'' =
     (if o' \<noteq> ''*'' then Some ''Origin'' else header_of r ''Vary'')"
  by (simp_all add: with_origin_headers_def addCorsHeaders_def Let_def)

definition allows :: "cors_config \<Rightarrow> bytes \<Rightarrow> http_response \<Rightarrow> bool" where
  \<comment> \<open>the header fields by which a browser lets the origin in\<close>
  "allows cfg granted resp \<longleftrightarrow> header_of resp ACAO = Some granted \<and>
     (cc_allowCredentials cfg \<longrightarrow> header_of resp ACAC = Some ''true'') \<and>
     (granted \<noteq> ''*'' \<longrightarrow> header_of resp ''Vary'' = Some ''Origin'')"

lemma allows_with_origin: "allows cfg o' (with_origin_headers cfg o' r)"
  by (simp add: allows_def header_of_with_origin)

lemma allows_setStatusCode [simp]: "allows cfg v (setStatusCode c r) = allows cfg v r"
  by (simp add: allows_def)

text \<open>C26: the CORS middleware lets an origin in exactly when the request has an \<open>Origin\<close> and the configuration
  lists it, lists \<open>*\<close> or lists none.  A preflight request is answered 204 with the grant or 403 without it; on
  any other request \<open>after\<close> adds the grant to the response, or leaves it as it is, and changes nothing but header fields
  (when no other request enters \<open>before\<close> in between, see \<open>cors_origin_crossed\<close>).  The grant names
  \<open>*\<close> if the configuration lists it and allows no credentials, and the origin itself otherwise; so with
  credentials \<open>*\<close> is sent to no client but one whose own \<open>Origin\<close> is the text \<open>*\<close>, and it is sent to that one.\<close>

theorem cors_grant:
  assumes "\<And>v s. get (put v s) = v" and "getHeader ''Origin'' req = origin"
    and "allowed \<longleftrightarrow> origin \<noteq> [] \<and>
      (cc_allowedOrigins cfg = [] \<or> ''*'' \<in> set (cc_allowedOrigins cfg) \<or> origin \<in> set (cc_allowedOrigins cfg))"
    and "granted = (if ''*'' \<in> set (cc_allowedOrigins cfg) \<and> \<not> cc_allowCredentials cfg then ''*'' else origin)"
  shows "(if req_method req = kOptions
      then \<exists>resp'. cors_before cfg put req s = (Throw (ThrowResponse resp'), req, put origin s) \<and>
        (if allowed then res_statusCode resp' = k204NoContent \<and> allows cfg granted resp'
         else res_statusCode resp' = k403Forbidden \<and> header_of resp' ACAO = None)
      else cors_before cfg put req s = (Ok (), req, put origin s) \<and>
        (\<exists>resp'. cors_after cfg get resp (put origin s) = (Ok (), resp', put origin s) \<and> same_message resp resp' \<and>
          (if allowed then allows cfg granted resp' else resp' = resp))) \<and>
    (cc_allowCredentials cfg \<longrightarrow> granted = ''*'' \<longrightarrow> origin = ''*'')"
proof -
  have r: "resolveAllowOrigin cfg origin = (if allowed then granted else [])" "allowed \<longrightarrow> granted \<noteq> []"
    using assms(3,4) by (auto simp: resolveAllowOrigin_def isOriginAllowed_def)
  show ?thesis
    using r assms(1,2,4) allows_with_origin [of cfg granted] with_origin_headers_same_message [of resp cfg granted]
    by (simp add: cors_before_def cors_after_def handlePreflightRequest_def Let_def) (simp add: setStatusCode_def)
qed

theorem cors_grant_witness:
  "header_of (fst (snd (cors_after (defaultConfig\<lparr>cc_allowCredentials := True\<rparr>) id (new_response True) ''http://a'')))
     ACAO = Some ''http://a'' \<and>
   header_of (fst (snd (cors_after (defaultConfig\<lparr>cc_allowCredentials := True\<rparr>) id (new_response True) ''http://a'')))
     ACAC = Some ''true''"
proof -
  let ?cfg = "defaultConfig\<lparr>cc_allowCredentials := True\<rparr>"
  let ?r = "new_request\<lparr>req_method := kGet, req_headers := [to_lower ''Origin'' \<mapsto> ''http://a'']\<rparr>"
  have o: "getHeader ''Origin'' ?r = ''http://a''" by (simp add: getHeader_def)
  show ?thesis
    using cors_grant [of id "\<lambda>v _. v" ?r "''http://a''" True ?cfg "''http://a''" "[]" "new_response True", OF _ o]
    by (auto simp: defaultConfig_def allows_def)
qed

text \<open>A preflight request (\<open>OPTIONS\<close>) never reaches a handler: \<open>before\<close> throws the answer, 204 with
  the CORS headers when the origin is allowed, 403 without them otherwise; any other request
  passes unchanged.\<close>

theorem preflight_answered:
  "processBefore [Some (cors_middleware cfg get put)] req s =
     (if req_method req = kOptions
      then (Throw (ThrowResponse (handlePreflightRequest cfg req (new_response True))), req,
            put (getHeader ''Origin'' req) s)
      else (Ok (), req, put (getHeader ''Origin'' req) s)) \<and>
   (let resp = handlePreflightRequest cfg req (new_response True); o' = getHeader ''Origin'' req
    in if o' \<noteq> [] \<and> isOriginAllowed cfg o'
       then res_statusCode resp = k204NoContent \<and> header_of resp ACAO = Some (resolveAllowOrigin cfg o')
       else res_statusCode resp = k403Forbidden \<and> header_of resp ACAO = None)"
  by (simp add: cors_middleware_def cors_before_def Let_def handlePreflightRequest_def
      resolveAllowOrigin_def header_of_with_origin) (simp add: setStatusCode_def)

text \<open>\<open>requestOrigin_\<close> is one field for all requests.  When two requests run at the same time and
  the second enters \<open>before\<close> before the first leaves \<open>after\<close>, the first response carries the
  answer for the origin of the second request.\<close>

theorem cors_origin_crossed:
  assumes "\<And>v s. get (put v s) = v" "req_method r1 \<noteq> kOptions" "req_method r2 \<noteq> kOptions"
    and "getHeader ''Origin'' r2 = o2" "o2 \<noteq> []" "isOriginAllowed cfg o2" "cc_allowCredentials cfg"
    and "cors_before cfg put r1 s = (x1, q1, s1)" "cors_before cfg put r2 s1 = (x2, q2, s2)"
    and "cors_after cfg get resp1 s2 = (x3, resp1', s3)"
  shows "header_of resp1' ACAO = Some o2"
  using assms
  by (auto simp: cors_before_def cors_after_def Let_def resolveAllowOrigin_def header_of_with_origin
      split: if_splits)

theorem cors_origin_crossed_witness:
  "header_of (fst (snd (cors_after \<lparr>cc_allowedOrigins = [''http://a'', ''http://b''],
       cc_allowedMethods = [], cc_allowedHeaders = [], cc_allowCredentials = True, cc_maxAge = 0\<rparr>
     id (new_response False) ''http://b''))) ACAO = Some ''http://b''"
proof -
  let ?cfg = "\<lparr>cc_allowedOrigins = [''http://a'', ''http://b''],
       cc_allowedMethods = [], cc_allowedHeaders = [], cc_allowCredentials = True, cc_maxAge = 0\<rparr>"
  let ?r = "\<lambda>v. new_request\<lparr>req_method := kGet, req_headers := [to_lower ''Origin'' \<mapsto> v]\<rparr>"
  obtain x r' s' where a: "cors_after ?cfg id (new_response False) ''http://b'' = (x, r', s')"
    by (metis prod_cases3)
  have "header_of r' ACAO = Some ''http://b''"
    by (rule cors_origin_crossed [where get = id and put = "\<lambda>v _. v" and s = "[]" and cfg = ?cfg and
          ?r1.0 = "?r ''http://a''" and ?r2.0 = "?r ''http://b''", OF _ _ _ _ _ _ _ _ _ a])
      (simp_all add: getHeader_def isOriginAllowed_def cors_before_def Let_def)
  with a show ?thesis by simp
qed

end
