(* ===== verification/Ssl_Context.thy ===== *)
theory Ssl_Context
  imports Prelude
begin

section \<open>SslConfig and SslContext\<close>

text \<open>
  \<open>HttpServer/include/ssl/SslConfig.h\<close>, \<open>SslContext.h\<close> and their \<open>.cpp\<close> files: the settings
  of the TLS server and the calls that make an \<open>SSL_CTX\<close> of them.  OpenSSL is not part of the
  repository: its functions are the fields of \<open>ctx_ops\<close> over an unknown \<open>SSL_CTX\<close> type \<open>'c\<close>,
  \<open>ctx_view\<close> reads a context the way the manual describes it, and \<open>ctx_laws\<close> is what the manual
  promises.  \<open>openssl_build\<close> holds the preprocessor conditions of the source.
\<close>

datatype SSLVersion = TLS_1_0 | TLS_1_1 | TLS_1_2 | TLS_1_3

datatype ssl_option =
  SSL_OP_NO_SSLv2 | SSL_OP_NO_SSLv3 | SSL_OP_NO_TLSv1 | SSL_OP_NO_TLSv1_1 | SSL_OP_NO_TLSv1_2
| SSL_OP_NO_TLSv1_3 | SSL_OP_NO_COMPRESSION | SSL_OP_CIPHER_SERVER_PREFERENCE

record ssl_config =
  sf_certFile :: bytes
  sf_keyFile :: bytes
  sf_chainFile :: bytes
  sf_version :: SSLVersion
  sf_cipherList :: bytes
  sf_verifyClient :: bool
  sf_verifyDepth :: int
  sf_sessionTimeout :: int
  sf_sessionCacheSize :: int

definition SslConfig :: ssl_config where
  "SslConfig = \<lparr>sf_certFile = [], sf_keyFile = [], sf_chainFile = [], sf_version = TLS_1_2,
     sf_cipherList = ''HIGH:!aNULL:!MD5'', sf_verifyClient = False, sf_verifyDepth = 4,
     sf_sessionTimeout = 300, sf_sessionCacheSize = 20480\<rparr>"

definition setCertificateFile :: "bytes \<Rightarrow> ssl_config \<Rightarrow> ssl_config" where
  "setCertificateFile f cfg = cfg\<lparr>sf_certFile := f\<rparr>"

definition setPrivateKeyFile :: "bytes \<Rightarrow> ssl_config \<Rightarrow> ssl_config" where
  "setPrivateKeyFile f cfg = cfg\<lparr>sf_keyFile := f\<rparr>"

definition setCertificateChainFile :: "bytes \<Rightarrow> ssl_config \<Rightarrow> ssl_config" where
  "setCertificateChainFile f cfg = cfg\<lparr>sf_chainFile := f\<rparr>"

definition setProtocolVersion :: "SSLVersion \<Rightarrow> ssl_config \<Rightarrow> ssl_config" where
  "setProtocolVersion v cfg = cfg\<lparr>sf_version := v\<rparr>"

definition setCipherList :: "bytes \<Rightarrow> ssl_config \<Rightarrow> ssl_config" where
  "setCipherList s cfg = cfg\<lparr>sf_cipherList := s\<rparr>"

definition setVerifyClient :: "bool \<Rightarrow> ssl_config \<Rightarrow> ssl_config" where
  "setVerifyClient b cfg = cfg\<lparr>sf_verifyClient := b\<rparr>"

definition setVerifyDepth :: "int \<Rightarrow> ssl_config \<Rightarrow> ssl_config" where
  "setVerifyDepth n cfg = cfg\<lparr>sf_verifyDepth := n\<rparr>"

definition setSessionTimeout :: "int \<Rightarrow> ssl_config \<Rightarrow> ssl_config" where
  "setSessionTimeout n cfg = cfg\<lparr>sf_sessionTimeout := n\<rparr>"

definition setSessionCacheSize :: "int \<Rightarrow> ssl_config \<Rightarrow> ssl_config" where
  "setSessionCacheSize n cfg = cfg\<lparr>sf_sessionCacheSize := n\<rparr>"

subsection \<open>The functions of OpenSSL\<close>

record openssl_build =
  ob_min_110 :: bool           \<comment> \<open>\<open>OPENSSL_VERSION_NUMBER >= 0x1010000fL\<close>\<close>
  ob_tls13 :: bool             \<comment> \<open>\<open>TLS1_3_VERSION\<close> is defined\<close>
  ob_no_tls13 :: bool          \<comment> \<open>\<open>SSL_OP_NO_TLSv1_3\<close> is defined\<close>

record 'c ctx_ops =
  SSL_CTX_new :: "'c option"
  SSL_CTX_set_options :: "ssl_option set \<Rightarrow> 'c \<Rightarrow> 'c"
  SSL_CTX_use_certificate_file :: "bytes \<Rightarrow> 'c \<Rightarrow> int \<times> 'c"
  SSL_CTX_use_PrivateKey_file :: "bytes \<Rightarrow> 'c \<Rightarrow> int \<times> 'c"
  SSL_CTX_check_private_key :: "'c \<Rightarrow> bool"
  SSL_CTX_use_certificate_chain_file :: "bytes \<Rightarrow> 'c \<Rightarrow> int \<times> 'c"
  SSL_CTX_set_min_proto_version :: "int \<Rightarrow> 'c \<Rightarrow> int \<times> 'c"
  SSL_CTX_set_max_proto_version :: "int \<Rightarrow> 'c \<Rightarrow> int \<times> 'c"
  SSL_CTX_set_cipher_list :: "bytes \<Rightarrow> 'c \<Rightarrow> int \<times> 'c"
  SSL_CTX_set_session_cache_mode :: "'c \<Rightarrow> 'c"     \<comment> \<open>with \<open>SSL_SESS_CACHE_SERVER\<close>\<close>
  SSL_CTX_sess_set_cache_size :: "int \<Rightarrow> 'c \<Rightarrow> 'c"
  SSL_CTX_set_timeout :: "int \<Rightarrow> 'c \<Rightarrow> 'c"

subsection \<open>Making the context\<close>

record 'c ssl_context =
  sx_ctx :: "'c option"          \<comment> \<open>\<open>ctx_\<close>\<close>
  sx_config :: ssl_config

definition SslContext :: "ssl_config \<Rightarrow> 'c ssl_context" where
  "SslContext config = \<lparr>sx_ctx = None, sx_config = config\<rparr>"

definition loadCertificates :: "'c ctx_ops \<Rightarrow> ssl_config \<Rightarrow> 'c \<Rightarrow> bool \<times> 'c" where
  "loadCertificates X cfg c =
     (let (r1, c1) = SSL_CTX_use_certificate_file X (sf_certFile cfg) c
      in if r1 \<le> 0 then (False, c1)
         else (let (r2, c2) = SSL_CTX_use_PrivateKey_file X (sf_keyFile cfg) c1
               in if r2 \<le> 0 then (False, c2)
                  else if \<not> SSL_CTX_check_private_key X c2 then (False, c2)
                  else if sf_chainFile cfg \<noteq> []
                  then (let (r3, c3) = SSL_CTX_use_certificate_chain_file X (sf_chainFile cfg) c2
                        in (0 < r3, c3))
                  else (True, c2)))"

text \<open>The constants of OpenSSL's headers that the \<open>switch\<close> of \<open>setupProtocol\<close> names.\<close>

definition TLS1_VERSION :: int where "TLS1_VERSION = 0x0301"
definition TLS1_1_VERSION :: int where "TLS1_1_VERSION = 0x0302"
definition TLS1_2_VERSION :: int where "TLS1_2_VERSION = 0x0303"
definition TLS1_3_VERSION :: int where "TLS1_3_VERSION = 0x0304"

definition version_bounds :: "openssl_build \<Rightarrow> SSLVersion \<Rightarrow> (int \<times> int) option" where
  \<comment> \<open>\<open>minVer\<close> and \<open>maxVer\<close> of the branch for new versions of OpenSSL; \<open>None\<close>: refused\<close>
  "version_bounds V v =
     (case v of
        TLS_1_0 \<Rightarrow> Some (TLS1_VERSION, TLS1_VERSION)
      | TLS_1_1 \<Rightarrow> Some (TLS1_1_VERSION, TLS1_1_VERSION)
      | TLS_1_2 \<Rightarrow> Some (TLS1_2_VERSION, TLS1_2_VERSION)
      | TLS_1_3 \<Rightarrow> if ob_tls13 V then Some (TLS1_3_VERSION, TLS1_3_VERSION) else None)"

definition set_version_bounds :: "'c ctx_ops \<Rightarrow> int \<Rightarrow> int \<Rightarrow> 'c \<Rightarrow> bool \<times> 'c" where
  "set_version_bounds X minVer maxVer c =
     (let (r1, c1) = SSL_CTX_set_min_proto_version X minVer c
      in if r1 \<noteq> 1 then (False, c1)
         else (let (r2, c2) = SSL_CTX_set_max_proto_version X maxVer c1 in (r2 = 1, c2)))"

definition excluded_versions :: "openssl_build \<Rightarrow> SSLVersion \<Rightarrow> ssl_option set option" where
  \<comment> \<open>\<open>extra\<close> of the branch for old versions of OpenSSL; \<open>None\<close>: refused\<close>
  "excluded_versions V v =
     (let no13 = (if ob_no_tls13 V then {SSL_OP_NO_TLSv1_3} else {})
      in case v of
           TLS_1_0 \<Rightarrow> Some ({SSL_OP_NO_TLSv1_1, SSL_OP_NO_TLSv1_2} \<union> no13)
         | TLS_1_1 \<Rightarrow> Some ({SSL_OP_NO_TLSv1, SSL_OP_NO_TLSv1_2} \<union> no13)
         | TLS_1_2 \<Rightarrow> Some ({SSL_OP_NO_TLSv1, SSL_OP_NO_TLSv1_1} \<union> no13)
         | TLS_1_3 \<Rightarrow> None)"

definition set_protocol :: "openssl_build \<Rightarrow> 'c ctx_ops \<Rightarrow> ssl_config \<Rightarrow> 'c \<Rightarrow> bool \<times> 'c" where
  \<comment> \<open>the part of \<open>setupProtocol\<close> under \<open>#if ... #endif\<close>\<close>
  "set_protocol V X cfg c =
     (if ob_min_110 V
      then case version_bounds V (sf_version cfg) of
             None \<Rightarrow> (False, c)
           | Some (minVer, maxVer) \<Rightarrow> set_version_bounds X minVer maxVer c
      else case excluded_versions V (sf_version cfg) of
             None \<Rightarrow> (False, c)
           | Some extra \<Rightarrow>
               (True, SSL_CTX_set_options X ({SSL_OP_NO_SSLv2, SSL_OP_NO_SSLv3} \<union> extra) c))"

definition setupProtocol :: "openssl_build \<Rightarrow> 'c ctx_ops \<Rightarrow> ssl_config \<Rightarrow> 'c \<Rightarrow> bool \<times> 'c" where
  "setupProtocol V X cfg c =
     (let (ok, c1) = set_protocol V X cfg c
      in if \<not> ok then (False, c1)
         else if sf_cipherList cfg \<noteq> []
         then (let (r, c2) = SSL_CTX_set_cipher_list X (sf_cipherList cfg) c1 in (0 < r, c2))
         else (True, c1))"

definition setupSessionCache :: "'c ctx_ops \<Rightarrow> ssl_config \<Rightarrow> 'c \<Rightarrow> 'c" where
  "setupSessionCache X cfg c =
     SSL_CTX_set_timeout X (sf_sessionTimeout cfg)
       (SSL_CTX_sess_set_cache_size X (sf_sessionCacheSize cfg)
         (SSL_CTX_set_session_cache_mode X c))"

definition initialize ::
    "openssl_build \<Rightarrow> 'c ctx_ops \<Rightarrow> 'c ssl_context \<Rightarrow> bool \<times> 'c ssl_context" where
  "initialize V X x =
     (case SSL_CTX_new X of
        None \<Rightarrow> (False, x\<lparr>sx_ctx := None\<rparr>)
      | Some c \<Rightarrow>
          (let cfg = sx_config x;
               c0 = SSL_CTX_set_options X {SSL_OP_NO_SSLv2, SSL_OP_NO_SSLv3,
                      SSL_OP_NO_COMPRESSION, SSL_OP_CIPHER_SERVER_PREFERENCE} c;
               (certs, c1) = loadCertificates X cfg c0
           in if \<not> certs then (False, x\<lparr>sx_ctx := Some c1\<rparr>)
              else (let (proto, c2) = setupProtocol V X cfg c1
                    in if \<not> proto then (False, x\<lparr>sx_ctx := Some c2\<rparr>)
                       else (True, x\<lparr>sx_ctx := Some (setupSessionCache X cfg c2)\<rparr>))))"

subsection \<open>What OpenSSL promises\<close>

record 'c ctx_view =
  cv_cert :: "'c \<Rightarrow> bytes"             \<comment> \<open>the file the server's own certificate was read from\<close>
  cv_key :: "'c \<Rightarrow> bytes"              \<comment> \<open>the file of its private key\<close>
  cv_min :: "'c \<Rightarrow> int option"
  cv_max :: "'c \<Rightarrow> int option"
  cv_options :: "'c \<Rightarrow> ssl_option set"
  cv_verify_peer :: "'c \<Rightarrow> bool"       \<comment> \<open>a client is asked for a certificate\<close>

definition same_policy :: "'c ctx_view \<Rightarrow> 'c \<Rightarrow> 'c \<Rightarrow> bool" where
  "same_policy W c c' \<longleftrightarrow> cv_min W c' = cv_min W c \<and> cv_max W c' = cv_max W c \<and>
     cv_options W c' = cv_options W c \<and> cv_verify_peer W c' = cv_verify_peer W c"

definition same_identity :: "'c ctx_view \<Rightarrow> 'c \<Rightarrow> 'c \<Rightarrow> bool" where
  "same_identity W c c' \<longleftrightarrow> cv_cert W c' = cv_cert W c \<and> cv_key W c' = cv_key W c"

definition certificate_laws :: "'c ctx_ops \<Rightarrow> 'c ctx_view \<Rightarrow> (bytes \<Rightarrow> bytes \<Rightarrow> bool) \<Rightarrow> bool" where
  "certificate_laws X W key_pair \<longleftrightarrow>
     (\<forall>f c r c'. SSL_CTX_use_certificate_file X f c = (r, c') \<longrightarrow>
        same_policy W c c' \<and> (0 < r \<longrightarrow> cv_cert W c' = f)) \<and>
     (\<forall>f c r c'. SSL_CTX_use_PrivateKey_file X f c = (r, c') \<longrightarrow>
        same_policy W c c' \<and> cv_cert W c' = cv_cert W c \<and> (0 < r \<longrightarrow> cv_key W c' = f)) \<and>
     (\<forall>c. SSL_CTX_check_private_key X c \<longleftrightarrow> key_pair (cv_cert W c) (cv_key W c)) \<and>
     (\<forall>f c r c'. SSL_CTX_use_certificate_chain_file X f c = (r, c') \<longrightarrow>
        same_policy W c c' \<and> (0 < r \<longrightarrow> cv_cert W c' = f))"

definition protocol_laws :: "'c ctx_ops \<Rightarrow> 'c ctx_view \<Rightarrow> bool" where
  "protocol_laws X W \<longleftrightarrow>
     (\<forall>c. SSL_CTX_new X = Some c \<longrightarrow> \<not> cv_verify_peer W c) \<and>
     (\<forall>s c. same_identity W c (SSL_CTX_set_options X s c) \<and>
        cv_options W (SSL_CTX_set_options X s c) = cv_options W c \<union> s \<and>
        cv_min W (SSL_CTX_set_options X s c) = cv_min W c \<and>
        cv_max W (SSL_CTX_set_options X s c) = cv_max W c \<and>
        cv_verify_peer W (SSL_CTX_set_options X s c) = cv_verify_peer W c) \<and>
     (\<forall>v c r c'. SSL_CTX_set_min_proto_version X v c = (r, c') \<longrightarrow>
        same_identity W c c' \<and> cv_max W c' = cv_max W c \<and> cv_options W c' = cv_options W c \<and>
        cv_verify_peer W c' = cv_verify_peer W c \<and> (r = 1 \<longrightarrow> cv_min W c' = Some v)) \<and>
     (\<forall>v c r c'. SSL_CTX_set_max_proto_version X v c = (r, c') \<longrightarrow>
        same_identity W c c' \<and> cv_min W c' = cv_min W c \<and> cv_options W c' = cv_options W c \<and>
        cv_verify_peer W c' = cv_verify_peer W c \<and> (r = 1 \<longrightarrow> cv_max W c' = Some v)) \<and>
     (\<forall>s c r c'. SSL_CTX_set_cipher_list X s c = (r, c') \<longrightarrow>
        same_policy W c c' \<and> same_identity W c c')"

definition cache_laws :: "'c ctx_ops \<Rightarrow> 'c ctx_view \<Rightarrow> bool" where
  "cache_laws X W \<longleftrightarrow>
     (\<forall>c. same_policy W c (SSL_CTX_set_session_cache_mode X c) \<and>
        same_identity W c (SSL_CTX_set_session_cache_mode X c)) \<and>
     (\<forall>n c. same_policy W c (SSL_CTX_sess_set_cache_size X n c) \<and>
        same_identity W c (SSL_CTX_sess_set_cache_size X n c)) \<and>
     (\<forall>n c. same_policy W c (SSL_CTX_set_timeout X n c) \<and>
        same_identity W c (SSL_CTX_set_timeout X n c))"

definition ctx_laws :: "'c ctx_ops \<Rightarrow> 'c ctx_view \<Rightarrow> (bytes \<Rightarrow> bytes \<Rightarrow> bool) \<Rightarrow> bool" where
  "ctx_laws X W key_pair \<longleftrightarrow>
     certificate_laws X W key_pair \<and> protocol_laws X W \<and> cache_laws X W"

lemma ctx_lawsD:
  "ctx_laws X W kp \<Longrightarrow> certificate_laws X W kp"
  "ctx_laws X W kp \<Longrightarrow> protocol_laws X W"
  "ctx_laws X W kp \<Longrightarrow> cache_laws X W"
  by (simp_all add: ctx_laws_def)

subsection \<open>What each step leaves\<close>

text \<open>
  What a context can negotiate, in terms of the version numbers of the protocols (RFC 2246, 4346, 5246, 8446, and
  the older SSL ones): the library knows the version, it lies within the bounds, and no option excludes it.
\<close>

fun wire_version :: "SSLVersion \<Rightarrow> int" where
  "wire_version TLS_1_0 = 0x0301"
| "wire_version TLS_1_1 = 0x0302"
| "wire_version TLS_1_2 = 0x0303"
| "wire_version TLS_1_3 = 0x0304"

definition turned_off :: "(ssl_option \<times> int) set" where
  \<comment> \<open>the version an option excludes\<close>
  "turned_off = {(SSL_OP_NO_SSLv2, 0x0002), (SSL_OP_NO_SSLv3, 0x0300), (SSL_OP_NO_TLSv1, 0x0301),
     (SSL_OP_NO_TLSv1_1, 0x0302), (SSL_OP_NO_TLSv1_2, 0x0303), (SSL_OP_NO_TLSv1_3, 0x0304)}"

definition negotiable :: "openssl_build \<Rightarrow> 'c ctx_view \<Rightarrow> 'c \<Rightarrow> int set" where
  "negotiable V W c =
     {p \<in> {0x0002, 0x0300, 0x0301, 0x0302, 0x0303, 0x0304}.
        (p = 0x0304 \<longrightarrow> ob_tls13 V) \<and>
        (\<forall>m. cv_min W c = Some m \<longrightarrow> m \<le> p) \<and> (\<forall>m. cv_max W c = Some m \<longrightarrow> p \<le> m) \<and>
        (\<forall>x \<in> cv_options W c. (x, p) \<notin> turned_off)}"

definition unrestricted :: "'c ctx_view \<Rightarrow> 'c \<Rightarrow> bool" where
  \<comment> \<open>no bound is set and no version of TLS is excluded\<close>
  "unrestricted W c \<longleftrightarrow> cv_min W c = None \<and> cv_max W c = None \<and>
     (\<forall>v. \<forall>x \<in> cv_options W c. (x, wire_version v) \<notin> turned_off)"

definition known_build :: "openssl_build \<Rightarrow> bool" where
  \<comment> \<open>the headers define both names of TLS 1.3 or neither\<close>
  "known_build V \<longleftrightarrow> (ob_no_tls13 V \<longleftrightarrow> ob_tls13 V)"

lemma negotiable_same_policy: "same_policy W c c' \<Longrightarrow> negotiable V W c' = negotiable V W c"
  by (simp add: negotiable_def same_policy_def)

lemma unrestricted_same_policy: "same_policy W c c' \<Longrightarrow> unrestricted W c' = unrestricted W c"
  by (simp add: unrestricted_def same_policy_def)

lemma wire_versions: "wire_version v \<in> {0x0301, 0x0302, 0x0303, 0x0304}" "wire_version v = 0x0304 \<longleftrightarrow> v = TLS_1_3"
  by (cases v; simp)+

lemma bounded_negotiable:
  assumes "cv_min W c = Some (wire_version v)" "cv_max W c = Some (wire_version v)" "v = TLS_1_3 \<longrightarrow> ob_tls13 V"
  shows "negotiable V W c \<subseteq> {wire_version v}"
    and "\<forall>x \<in> cv_options W c. (x, wire_version v) \<notin> turned_off \<Longrightarrow> negotiable V W c = {wire_version v}"
  using assms wire_versions [of v] by (auto simp: negotiable_def)

lemma excluded_negotiable:
  assumes "excluded_versions V v = Some extra" "{SSL_OP_NO_SSLv2, SSL_OP_NO_SSLv3} \<union> extra \<subseteq> cv_options W c"
    and "known_build V"
  shows "negotiable V W c \<subseteq> {wire_version v}"
  using assms by (cases v) (auto simp: negotiable_def excluded_versions_def turned_off_def known_build_def Let_def
      split: if_splits)

lemma excluded_keeps:
  assumes "excluded_versions V v = Some extra" "x \<in> {SSL_OP_NO_SSLv2, SSL_OP_NO_SSLv3} \<union> extra"
  shows "(x, wire_version v) \<notin> turned_off"
  using assms by (cases v) (auto simp: excluded_versions_def turned_off_def Let_def split: if_splits)

lemma version_bounds_wire:
  assumes "version_bounds V v = Some (m, n)"
  shows "m = wire_version v" "n = wire_version v" "v = TLS_1_3 \<longrightarrow> ob_tls13 V"
  using assms by (cases v; auto simp: version_bounds_def TLS1_VERSION_def TLS1_1_VERSION_def TLS1_2_VERSION_def
      TLS1_3_VERSION_def split: if_splits)+

lemma certificate_file_law:
  assumes "certificate_laws X W kp" and "SSL_CTX_use_certificate_file X f c = (r, c')"
  shows "same_policy W c c' \<and> (0 < r \<longrightarrow> cv_cert W c' = f)"
  using assms(1) [unfolded certificate_laws_def, THEN conjunct1, rule_format, OF assms(2)] .

lemma key_file_law:
  assumes "certificate_laws X W kp" and "SSL_CTX_use_PrivateKey_file X f c = (r, c')"
  shows "same_policy W c c' \<and> cv_cert W c' = cv_cert W c \<and> (0 < r \<longrightarrow> cv_key W c' = f)"
  using assms(1) [unfolded certificate_laws_def, THEN conjunct2, THEN conjunct1, rule_format,
      OF assms(2)] .

lemma check_key_law:
  assumes "certificate_laws X W kp"
  shows "SSL_CTX_check_private_key X c \<longleftrightarrow> kp (cv_cert W c) (cv_key W c)"
  using assms [unfolded certificate_laws_def, THEN conjunct2, THEN conjunct2, THEN conjunct1] by blast

lemma chain_file_law:
  assumes "certificate_laws X W kp" and "SSL_CTX_use_certificate_chain_file X f c = (r, c')"
  shows "same_policy W c c' \<and> (0 < r \<longrightarrow> cv_cert W c' = f)"
  using assms(1) [unfolded certificate_laws_def, THEN conjunct2, THEN conjunct2, THEN conjunct2,
      rule_format, OF assms(2)] .

lemma new_context_law:
  assumes "protocol_laws X W" and "SSL_CTX_new X = Some c"
  shows "\<not> cv_verify_peer W c"
  using assms(1) [unfolded protocol_laws_def, THEN conjunct1, rule_format, OF assms(2)] .

lemma set_options_law:
  assumes "protocol_laws X W"
  shows "same_identity W c (SSL_CTX_set_options X s c)"
    and "cv_options W (SSL_CTX_set_options X s c) = cv_options W c \<union> s"
    and "cv_verify_peer W (SSL_CTX_set_options X s c) = cv_verify_peer W c"
    and "cv_min W (SSL_CTX_set_options X s c) = cv_min W c" "cv_max W (SSL_CTX_set_options X s c) = cv_max W c"
  using assms [unfolded protocol_laws_def, THEN conjunct2, THEN conjunct1, rule_format, of c s]
  by simp_all

lemma min_version_law:
  assumes "protocol_laws X W" and "SSL_CTX_set_min_proto_version X v c = (r, c')"
  shows "same_identity W c c' \<and> cv_max W c' = cv_max W c \<and> cv_options W c' = cv_options W c \<and>
    cv_verify_peer W c' = cv_verify_peer W c \<and> (r = 1 \<longrightarrow> cv_min W c' = Some v)"
  using assms(1) [unfolded protocol_laws_def, THEN conjunct2, THEN conjunct2, THEN conjunct1,
      rule_format, OF assms(2)] .

lemma max_version_law:
  assumes "protocol_laws X W" and "SSL_CTX_set_max_proto_version X v c = (r, c')"
  shows "same_identity W c c' \<and> cv_min W c' = cv_min W c \<and> cv_options W c' = cv_options W c \<and>
    cv_verify_peer W c' = cv_verify_peer W c \<and> (r = 1 \<longrightarrow> cv_max W c' = Some v)"
  using assms(1) [unfolded protocol_laws_def, THEN conjunct2, THEN conjunct2, THEN conjunct2,
      THEN conjunct1, rule_format, OF assms(2)] .

lemma cipher_list_law:
  assumes "protocol_laws X W" and "SSL_CTX_set_cipher_list X s c = (r, c')"
  shows "same_policy W c c' \<and> same_identity W c c'"
  using assms(1) [unfolded protocol_laws_def, THEN conjunct2, THEN conjunct2, THEN conjunct2,
      THEN conjunct2, rule_format, OF assms(2)] .

lemma same_policy_trans: "same_policy W a b \<Longrightarrow> same_policy W b c \<Longrightarrow> same_policy W a c"
  by (simp add: same_policy_def)

lemma same_identity_trans: "same_identity W a b \<Longrightarrow> same_identity W b c \<Longrightarrow> same_identity W a c"
  by (simp add: same_identity_def)

lemma loadCertificates_spec:
  assumes laws: "certificate_laws X W kp" and run: "loadCertificates X cfg c = (ok, c')"
  shows "same_policy W c c' \<and> (ok \<longrightarrow>
     kp (sf_certFile cfg) (sf_keyFile cfg) \<and>
     cv_cert W c' = (if sf_chainFile cfg = [] then sf_certFile cfg else sf_chainFile cfg) \<and>
     (sf_chainFile cfg = [] \<longrightarrow> cv_key W c' = sf_keyFile cfg))"
proof -
  obtain r1 c1 where s1: "SSL_CTX_use_certificate_file X (sf_certFile cfg) c = (r1, c1)" by fastforce
  obtain r2 c2 where s2: "SSL_CTX_use_PrivateKey_file X (sf_keyFile cfg) c1 = (r2, c2)" by fastforce
  obtain r3 c3 where s3: "SSL_CTX_use_certificate_chain_file X (sf_chainFile cfg) c2 = (r3, c3)"
    by fastforce
  note 1 = certificate_file_law [OF laws s1] and 2 = key_file_law [OF laws s2]
    and 3 = chain_file_law [OF laws s3] and 4 = check_key_law [OF laws, of c2]
  have 12: "same_policy W c c2" using 1 2 by (simp add: same_policy_def)
  then have 13: "same_policy W c c3" using 3 by (simp add: same_policy_def)
  consider (cert) "r1 \<le> 0" | (key) "0 < r1" "r2 \<le> 0"
    | (check) "0 < r1" "0 < r2" "\<not> SSL_CTX_check_private_key X c2"
    | (all) "0 < r1" "0 < r2" "SSL_CTX_check_private_key X c2"
    by linarith
  then show ?thesis
  proof cases
    case cert
    with run 1 show ?thesis by (simp add: loadCertificates_def s1)
  next
    case key
    with run 12 show ?thesis by (simp add: loadCertificates_def s1 s2)
  next
    case check
    with run 12 show ?thesis by (simp add: loadCertificates_def s1 s2)
  next
    case all
    have "kp (sf_certFile cfg) (sf_keyFile cfg)" using all 1 2 4 by simp
    moreover have "cv_cert W c2 = sf_certFile cfg" "cv_key W c2 = sf_keyFile cfg"
      using all 1 2 by simp_all
    ultimately show ?thesis
      using run all 12 13 3
      by (cases "sf_chainFile cfg = []") (auto simp: loadCertificates_def s1 s2 s3)
  qed
qed

definition only_version :: "openssl_build \<Rightarrow> 'c ctx_view \<Rightarrow> SSLVersion \<Rightarrow> 'c \<Rightarrow> 'c \<Rightarrow> bool" where
  \<comment> \<open>of an unrestricted context \<open>c\<close> a context was made that negotiates one version; of any, one that negotiates no other\<close>
  "only_version V W v c c' \<longleftrightarrow> negotiable V W c' \<subseteq> {wire_version v} \<and>
     (unrestricted W c \<longrightarrow> negotiable V W c' = {wire_version v})"

lemma only_version_same: "same_policy W c1 c2 \<Longrightarrow> only_version V W v c c2 = only_version V W v c c1"
  by (simp add: only_version_def negotiable_same_policy [of W c1 c2])

lemma bounds_spec:
  assumes laws: "protocol_laws X W" and run: "set_version_bounds X m n c = (ok, c')"
  shows "same_identity W c c' \<and> cv_verify_peer W c' = cv_verify_peer W c \<and> cv_options W c' = cv_options W c \<and>
    (ok \<longrightarrow> cv_min W c' = Some m \<and> cv_max W c' = Some n)"
proof -
  obtain r1 c1 where s1: "SSL_CTX_set_min_proto_version X m c = (r1, c1)" by fastforce
  obtain r2 c2 where s2: "SSL_CTX_set_max_proto_version X n c1 = (r2, c2)" by fastforce
  note 1 = min_version_law [OF laws s1] and 2 = max_version_law [OF laws s2]
  then have "same_identity W c c2" by (simp add: same_identity_def)
  with run 1 2 show ?thesis by (auto simp: set_version_bounds_def s1 s2 split: if_splits)
qed

lemma set_protocol_spec:
  assumes laws: "protocol_laws X W" and run: "set_protocol V X cfg c = (ok, c')"
  shows "same_identity W c c' \<and> cv_verify_peer W c' = cv_verify_peer W c \<and>
     cv_options W c \<subseteq> cv_options W c' \<and> (ok \<longrightarrow> known_build V \<longrightarrow> only_version V W (sf_version cfg) c c')"
proof (cases "ob_min_110 V")
  case True
  show ?thesis
  proof (cases "version_bounds V (sf_version cfg)")
    case None
    with True run show ?thesis by (simp add: set_protocol_def same_identity_def)
  next
    case (Some b)
    then obtain m n where b: "version_bounds V (sf_version cfg) = Some (m, n)" by (cases b) simp
    with True run have "set_version_bounds X m n c = (ok, c')" by (simp add: set_protocol_def)
    note spec = bounds_spec [OF laws this]
    note wire = version_bounds_wire [OF b]
    have "only_version V W (sf_version cfg) c c'" if ok
      using that spec wire bounded_negotiable [of W c' "sf_version cfg" V] by (auto simp: only_version_def unrestricted_def)
    with spec show ?thesis by simp
  qed
next
  case old: False
  show ?thesis
  proof (cases "excluded_versions V (sf_version cfg)")
    case None
    with old run show ?thesis by (simp add: set_protocol_def same_identity_def)
  next
    case (Some extra)
    let ?s = "{SSL_OP_NO_SSLv2, SSL_OP_NO_SSLv3} \<union> extra" and ?v = "sf_version cfg"
    note law = set_options_law [OF laws, where c = c and s = ?s]
    have c': "ok" "c' = SSL_CTX_set_options X ?s c" using old run Some by (simp_all add: set_protocol_def)
    have sub: "negotiable V W c' \<subseteq> {wire_version ?v}" if "known_build V"
      using law(2) that by (intro excluded_negotiable [OF Some]) (auto simp: c'(2))
    have "?v \<noteq> TLS_1_3" using Some by (auto simp: excluded_versions_def Let_def)
    then have "wire_version ?v \<in> negotiable V W c'" if "unrestricted W c"
      using that law(2,4,5) excluded_keeps [OF Some] wire_versions [of ?v]
      by (auto simp: negotiable_def unrestricted_def c'(2))
    with sub law c' show ?thesis by (auto simp: only_version_def)
  qed
qed

lemma setupProtocol_spec:
  assumes laws: "protocol_laws X W" and run: "setupProtocol V X cfg c = (ok, c')"
  shows "same_identity W c c' \<and> cv_verify_peer W c' = cv_verify_peer W c \<and>
     cv_options W c \<subseteq> cv_options W c' \<and> (ok \<longrightarrow> known_build V \<longrightarrow> only_version V W (sf_version cfg) c c')"
proof -
  obtain ok1 c1 where s1: "set_protocol V X cfg c = (ok1, c1)" by fastforce
  obtain r c2 where s2: "SSL_CTX_set_cipher_list X (sf_cipherList cfg) c1 = (r, c2)" by fastforce
  note 2 = cipher_list_law [OF laws s2]
  then have pin: "only_version V W v c c2 = only_version V W v c c1" for v by (intro only_version_same) simp
  note 1 = set_protocol_spec [OF laws s1]
  show ?thesis
    using run 1 2 pin
    by (auto simp: setupProtocol_def s1 s2 same_policy_def dest: same_identity_trans
        split: if_splits)
qed

lemma setupSessionCache_spec:
  assumes "cache_laws X W"
  shows "same_policy W c (setupSessionCache X cfg c) \<and> same_identity W c (setupSessionCache X cfg c)"
  using assms unfolding cache_laws_def setupSessionCache_def same_policy_def same_identity_def
  by simp

lemma initialize_spec:
  assumes laws: "ctx_laws X W kp" and run: "initialize V X (SslContext cfg) = (True, x)"
  obtains c where "sx_ctx x = Some c" and "known_build V \<longrightarrow> negotiable V W c \<subseteq> {wire_version (sf_version cfg)}"
    and "known_build V \<longrightarrow> (\<forall>a. SSL_CTX_new X = Some a \<and> unrestricted W a \<longrightarrow>
           negotiable V W c = {wire_version (sf_version cfg)})"
    and "{SSL_OP_NO_SSLv2, SSL_OP_NO_SSLv3, SSL_OP_NO_COMPRESSION, SSL_OP_CIPHER_SERVER_PREFERENCE}
           \<subseteq> cv_options W c"
    and "kp (sf_certFile cfg) (sf_keyFile cfg)"
    and "cv_cert W c = (if sf_chainFile cfg = [] then sf_certFile cfg else sf_chainFile cfg)"
    and "sf_chainFile cfg = [] \<longrightarrow> cv_key W c = sf_keyFile cfg"
    and "\<not> cv_verify_peer W c"
proof -
  let ?os = "{SSL_OP_NO_SSLv2, SSL_OP_NO_SSLv3, SSL_OP_NO_COMPRESSION,
    SSL_OP_CIPHER_SERVER_PREFERENCE}"
  obtain a where new: "SSL_CTX_new X = Some a"
    using run by (auto simp: initialize_def split: option.splits)
  define b where "b = SSL_CTX_set_options X ?os a"
  obtain ok1 c1 where s1: "loadCertificates X cfg b = (ok1, c1)" by fastforce
  obtain ok2 c2 where s2: "setupProtocol V X cfg c1 = (ok2, c2)" by fastforce
  define c where "c = setupSessionCache X cfg c2"
  note defs = initialize_def SslContext_def new s1 s2 b_def [symmetric] c_def [symmetric]
  have oks: "ok1" "ok2" and x: "sx_ctx x = Some c"
    using run by (auto simp: defs split: if_splits)
  note 0 = set_options_law [OF ctx_lawsD(2) [OF laws], where c = a and s = ?os, folded b_def]
  note 1 = loadCertificates_spec [OF ctx_lawsD(1) [OF laws] s1]
    and 2 = setupProtocol_spec [OF ctx_lawsD(2) [OF laws] s2]
    and 3 = setupSessionCache_spec [OF ctx_lawsD(3) [OF laws], where c = c2 and cfg = cfg, folded c_def]
  show thesis
  proof (rule that [OF x])
    have pin: "known_build V \<longrightarrow> only_version V W (sf_version cfg) c1 c"
      using 2 3 oks only_version_same [of W c2 c V "sf_version cfg" c1] by simp
    then show "known_build V \<longrightarrow> negotiable V W c \<subseteq> {wire_version (sf_version cfg)}" by (simp add: only_version_def)
    have off: "(x, wire_version v) \<notin> turned_off" if "x \<in> ?os" for x v
      using that by (cases v) (auto simp: turned_off_def)
    have "unrestricted W b \<longleftrightarrow> unrestricted W a"
      unfolding unrestricted_def 0(2,4,5) ball_Un using off by blast
    then have "unrestricted W a \<longrightarrow> unrestricted W c1" using 1 unrestricted_same_policy [of W b c1] by simp
    with pin new show "known_build V \<longrightarrow> (\<forall>a. SSL_CTX_new X = Some a \<and> unrestricted W a \<longrightarrow>
        negotiable V W c = {wire_version (sf_version cfg)})" by (simp add: only_version_def)
    have "cv_options W b \<subseteq> cv_options W c"
      using 1 2 3 by (auto simp: same_policy_def)
    then show "?os \<subseteq> cv_options W c" using 0(2) by blast
    show "kp (sf_certFile cfg) (sf_keyFile cfg)" using 1 oks by blast
    show "cv_cert W c = (if sf_chainFile cfg = [] then sf_certFile cfg else sf_chainFile cfg)"
      using 1 2 3 oks by (simp add: same_identity_def)
    show "sf_chainFile cfg = [] \<longrightarrow> cv_key W c = sf_keyFile cfg"
      using 1 2 3 oks by (simp add: same_identity_def)
    show "\<not> cv_verify_peer W c"
      using new_context_law [OF ctx_lawsD(2) [OF laws] new] 0(3) 1 2 3
      by (simp add: same_policy_def)
  qed
qed

subsection \<open>A context that keeps what it was given\<close>

record plain_ctx =
  pc_cert :: bytes
  pc_key :: bytes
  pc_min :: "int option"
  pc_max :: "int option"
  pc_options :: "ssl_option set"
  pc_verify :: bool

definition plain_pair :: "bytes \<Rightarrow> bytes \<Rightarrow> bool" where
  "plain_pair cert key \<longleftrightarrow> key = cert @ ''.key''"

definition plain_ssl :: "plain_ctx ctx_ops" where
  \<comment> \<open>every file can be read; a chain file may bring another certificate than the one checked\<close>
  "plain_ssl = \<lparr>
     SSL_CTX_new = Some \<lparr>pc_cert = [], pc_key = [], pc_min = None, pc_max = None,
       pc_options = {}, pc_verify = False\<rparr>,
     SSL_CTX_set_options = \<lambda>s c. c\<lparr>pc_options := pc_options c \<union> s\<rparr>,
     SSL_CTX_use_certificate_file = \<lambda>f c. (1, c\<lparr>pc_cert := f\<rparr>),
     SSL_CTX_use_PrivateKey_file = \<lambda>f c. (1, c\<lparr>pc_key := f\<rparr>),
     SSL_CTX_check_private_key = \<lambda>c. plain_pair (pc_cert c) (pc_key c),
     SSL_CTX_use_certificate_chain_file = \<lambda>f c. (1, c\<lparr>pc_cert := f\<rparr>),
     SSL_CTX_set_min_proto_version = \<lambda>v c. (1, c\<lparr>pc_min := Some v\<rparr>),
     SSL_CTX_set_max_proto_version = \<lambda>v c. (1, c\<lparr>pc_max := Some v\<rparr>),
     SSL_CTX_set_cipher_list = \<lambda>s c. (1, c),
     SSL_CTX_set_session_cache_mode = \<lambda>c. c,
     SSL_CTX_sess_set_cache_size = \<lambda>n c. c,
     SSL_CTX_set_timeout = \<lambda>n c. c\<rparr>"

definition plain_view :: "plain_ctx ctx_view" where
  "plain_view = \<lparr>cv_cert = pc_cert, cv_key = pc_key, cv_min = pc_min, cv_max = pc_max,
     cv_options = pc_options, cv_verify_peer = pc_verify\<rparr>"

lemma plain_laws: "ctx_laws plain_ssl plain_view plain_pair"
  by (auto simp: ctx_laws_def certificate_laws_def protocol_laws_def cache_laws_def
      same_policy_def same_identity_def plain_ssl_def plain_view_def)

definition example_config :: ssl_config where
  "example_config = setVerifyClient True (setCertificateChainFile ''b''
     (setPrivateKeyFile ''a.key'' (setCertificateFile ''a'' SslConfig)))"

definition example_build :: openssl_build where
  "example_build = \<lparr>ob_min_110 = True, ob_tls13 = True, ob_no_tls13 = True\<rparr>"

definition example_context :: "plain_ctx ssl_context" where
  "example_context = snd (initialize example_build plain_ssl (SslContext example_config))"

lemmas example_defs = example_config_def example_build_def SslConfig_def setVerifyClient_def
  setCertificateChainFile_def setPrivateKeyFile_def setCertificateFile_def SslContext_def

lemma example_run:
  "initialize example_build plain_ssl (SslContext example_config) = (True, example_context)"
  by (simp add: example_context_def initialize_def loadCertificates_def setupProtocol_def
      set_protocol_def version_bounds_def set_version_bounds_def setupSessionCache_def plain_ssl_def plain_pair_def
      example_defs)

definition old_build :: openssl_build where
  \<comment> \<open>OpenSSL 1.0.2\<close>
  "old_build = \<lparr>ob_min_110 = False, ob_tls13 = False, ob_no_tls13 = False\<rparr>"

definition old_context :: "plain_ctx ssl_context" where
  "old_context = snd (initialize old_build plain_ssl (SslContext (setProtocolVersion TLS_1_0 example_config)))"

lemma old_run:
  "initialize old_build plain_ssl (SslContext (setProtocolVersion TLS_1_0 example_config)) = (True, old_context)"
  by (simp add: old_context_def initialize_def loadCertificates_def setupProtocol_def setProtocolVersion_def
      set_protocol_def excluded_versions_def setupSessionCache_def plain_ssl_def plain_pair_def old_build_def
      example_defs)

subsection \<open>Properties\<close>

text \<open>C33: a context that \<open>initialize\<close> declares ready negotiates no version but the configured one, and does negotiate
  it when a new \<open>SSL_CTX\<close> is unrestricted: with a new OpenSSL by the bounds, with an old one by the options that exclude
  the others (the headers define both names of TLS 1.3 or neither).  It refuses SSLv2, SSLv3 and compression, and its
  key was checked against the certificate of \<open>setCertificateFile\<close>.  The certificate it presents is the one of the
  chain file when there is one, which is loaded after that check and not checked again.\<close>

theorem tls_context_ready:
  assumes "ctx_laws X W kp" and "known_build V" and "initialize V X (SslContext cfg) = (True, x)"
  shows "\<exists>c. sx_ctx x = Some c \<and> negotiable V W c \<subseteq> {wire_version (sf_version cfg)} \<and>
    (\<forall>a. SSL_CTX_new X = Some a \<and> unrestricted W a \<longrightarrow> negotiable V W c = {wire_version (sf_version cfg)}) \<and>
    {SSL_OP_NO_SSLv2, SSL_OP_NO_SSLv3, SSL_OP_NO_COMPRESSION} \<subseteq> cv_options W c \<and>
    kp (sf_certFile cfg) (sf_keyFile cfg) \<and>
    cv_cert W c = (if sf_chainFile cfg = [] then sf_certFile cfg else sf_chainFile cfg) \<and>
    (sf_chainFile cfg = [] \<longrightarrow> cv_key W c = sf_keyFile cfg)"
  using assms(1,3) by (rule initialize_spec) (use assms(2) in blast)

text \<open>With a new OpenSSL and with an old one.\<close>

theorem tls_context_ready_witness:
  "(\<exists>c. sx_ctx example_context = Some c \<and> negotiable example_build plain_view c = {0x0303} \<and>
     cv_cert plain_view c = ''b'') \<and>
   (\<exists>c. sx_ctx old_context = Some c \<and> negotiable old_build plain_view c = {0x0301})"
proof -
  have new: "\<exists>a. SSL_CTX_new plain_ssl = Some a \<and> unrestricted plain_view a"
    by (simp add: plain_ssl_def plain_view_def unrestricted_def)
  have builds: "known_build example_build" "known_build old_build"
    by (simp_all add: known_build_def example_build_def old_build_def)
  have versions: "wire_version (sf_version example_config) = 0x0303" "sf_chainFile example_config = ''b''"
    "wire_version (sf_version (setProtocolVersion TLS_1_0 example_config)) = 0x0301"
    by (simp_all add: example_defs setProtocolVersion_def)
  show ?thesis
    using tls_context_ready [OF plain_laws builds(1) example_run, unfolded versions]
      tls_context_ready [OF plain_laws builds(2) old_run, unfolded versions] new by auto
qed

text \<open>Client certificates are never asked for: whatever \<open>setVerifyClient\<close> was given, the context
  that \<open>initialize\<close> makes does not verify the peer.\<close>

theorem client_never_verified:
  assumes "ctx_laws X W kp"
    and "initialize V X (SslContext (setVerifyClient b cfg)) = (True, x)"
  shows "\<exists>c. sx_ctx x = Some c \<and> \<not> cv_verify_peer W c"
  using assms by (rule initialize_spec) blast

theorem client_never_verified_witness:
  "\<exists>c. sx_ctx example_context = Some c \<and> \<not> cv_verify_peer plain_view c"
  using client_never_verified [OF plain_laws example_run [unfolded example_config_def]] .

end
