(* ===== verification/Http_Server.thy ===== *)
theory Http_Server
  imports Http_Context Router Middleware Ssl_Connection Ssl_Context
begin

section \<open>HttpServer\<close>

text \<open>
  \<open>HttpServer/include/http/HttpServer.h\<close> and \<open>HttpServer/src/http/HttpServer.cpp\<close>: the callbacks
  muduo makes on a connection.  \<open>server\<close> is the configured server object together with the
  libraries it runs on (buffer, OpenSSL, regular expressions); \<open>conn_state\<close> is one connection:
  its input buffer, the \<open>HttpContext\<close> attached to it, its entry of \<open>sslConns_\<close>, what was done to
  it, and the state \<open>'s\<close> of the application.  No callback looks at another connection's entry.
  A callback returns \<open>None\<close> when it never ends.
\<close>

record ('b, 't, 's) server =
  sv_buffer :: "'b buffer_ops"
  sv_tls :: "'t tls_ops"
  sv_regex :: regex_engine
  sv_useSSL :: bool
  sv_sslCtx :: "'t option"               \<comment> \<open>\<open>sslCtx_\<close>: the state \<open>SSL_new\<close> starts from\<close>
  sv_httpCallback :: "'s handler option" \<comment> \<open>\<open>None\<close>: the constructor's, which calls \<open>handleRequest\<close>\<close>
  sv_router :: "'s router"
  sv_middlewareChain :: "'s chain"
  sv_maxRequestBodyBytes :: nat

record ('b, 't, 's) conn_state =
  cs_connected :: bool
  cs_inbuf :: 'b
  cs_context :: "http_context option"
  cs_ssl :: "('b, 't) ssl_conn option"
  cs_out :: "conn_action list"
  cs_app :: 's

definition HttpServer ::
    "'b buffer_ops \<Rightarrow> 't tls_ops \<Rightarrow> regex_engine \<Rightarrow> bool \<Rightarrow> ('b, 't, 's) server" where
  "HttpServer B T E useSSL =
     \<lparr>sv_buffer = B, sv_tls = T, sv_regex = E, sv_useSSL = useSSL, sv_sslCtx = None,
      sv_httpCallback = None, sv_router = new_router, sv_middlewareChain = [],
      sv_maxRequestBodyBytes = 8 * 1024 * 1024\<rparr>"

subsection \<open>Configuration\<close>

definition setHttpCallback ::
    "'s handler option \<Rightarrow> ('b, 't, 's) server \<Rightarrow> ('b, 't, 's) server" where
  \<comment> \<open>an empty \<open>std::function\<close> throws when it is called\<close>
  "setHttpCallback cb srv = srv\<lparr>sv_httpCallback := Some (call_callback cb)\<rparr>"

definition Get_callback ::
    "bytes \<Rightarrow> 's handler option \<Rightarrow> ('b, 't, 's) server \<Rightarrow> ('b, 't, 's) server" where
  "Get_callback path cb srv = srv\<lparr>sv_router := registerCallback kGet path cb (sv_router srv)\<rparr>"

definition Get_handler ::
    "bytes \<Rightarrow> 's handler option \<Rightarrow> ('b, 't, 's) server \<Rightarrow> ('b, 't, 's) server" where
  "Get_handler path h srv = srv\<lparr>sv_router := registerHandler kGet path h (sv_router srv)\<rparr>"

definition Post_callback ::
    "bytes \<Rightarrow> 's handler option \<Rightarrow> ('b, 't, 's) server \<Rightarrow> ('b, 't, 's) server" where
  "Post_callback path cb srv = srv\<lparr>sv_router := registerCallback kPost path cb (sv_router srv)\<rparr>"

definition Post_handler ::
    "bytes \<Rightarrow> 's handler option \<Rightarrow> ('b, 't, 's) server \<Rightarrow> ('b, 't, 's) server" where
  "Post_handler path h srv = srv\<lparr>sv_router := registerHandler kPost path h (sv_router srv)\<rparr>"

definition with_router ::
    "(thrown_value, 's router) outcome \<Rightarrow> ('b, 't, 's) server
      \<Rightarrow> (thrown_value, ('b, 't, 's) server) outcome" where
  "with_router r srv =
     (case r of Ok R \<Rightarrow> Ok (srv\<lparr>sv_router := R\<rparr>) | Throw e \<Rightarrow> Throw e | Crash f \<Rightarrow> Crash f)"

definition addRoute_handler ::
    "http_method \<Rightarrow> bytes \<Rightarrow> 's handler option \<Rightarrow> ('b, 't, 's) server
      \<Rightarrow> (thrown_value, ('b, 't, 's) server) outcome" where
  "addRoute_handler m path h srv =
     with_router (addRegexHandler (sv_regex srv) m path h (sv_router srv)) srv"

definition addRoute_callback ::
    "http_method \<Rightarrow> bytes \<Rightarrow> 's handler option \<Rightarrow> ('b, 't, 's) server
      \<Rightarrow> (thrown_value, ('b, 't, 's) server) outcome" where
  "addRoute_callback m path cb srv =
     with_router (addRegexCallback (sv_regex srv) m path cb (sv_router srv)) srv"

definition addMiddleware_server ::
    "'s middleware option \<Rightarrow> ('b, 't, 's) server \<Rightarrow> ('b, 't, 's) server" where
  "addMiddleware_server m srv =
     srv\<lparr>sv_middlewareChain := addMiddleware m (sv_middlewareChain srv)\<rparr>"

definition enableSSL :: "bool \<Rightarrow> ('b, 't, 's) server \<Rightarrow> ('b, 't, 's) server" where
  "enableSSL b srv = srv\<lparr>sv_useSSL := b\<rparr>"

definition setMaxRequestBodyBytes :: "nat \<Rightarrow> ('b, 't, 's) server \<Rightarrow> ('b, 't, 's) server" where
  "setMaxRequestBodyBytes n srv = srv\<lparr>sv_maxRequestBodyBytes := n\<rparr>"

definition setSslConfig ::
    "openssl_build \<Rightarrow> 'c ctx_ops \<Rightarrow> ('c \<Rightarrow> 't) \<Rightarrow> ssl_config \<Rightarrow> ('b, 't, 's) server
      \<Rightarrow> bool \<times> ('b, 't, 's) server" where
  \<comment> \<open>\<open>start c\<close>: the state of OpenSSL in which \<open>SSL_new\<close> is called with the context \<open>c\<close>\<close>
  "setSslConfig V X start config srv =
     (if \<not> sv_useSSL srv then (True, srv)
      else (let (ok, x) = initialize V X (SslContext config)
            in if \<not> ok then (False, srv\<lparr>sv_sslCtx := None\<rparr>)
               else (True, srv\<lparr>sv_sslCtx := map_option start (sx_ctx x)\<rparr>)))"

subsection \<open>Connections\<close>

definition kHttp400 :: bytes where
  "kHttp400 = ''HTTP/1.1 400 Bad Request'' @ crlf @ crlf"

definition kHttp413 :: bytes where
  "kHttp413 = ''HTTP/1.1 413 Payload Too Large'' @ crlf @ ''Connection: close'' @ crlf @ crlf"

definition act :: "conn_action \<Rightarrow> ('b, 't, 's) conn_state \<Rightarrow> ('b, 't, 's) conn_state" where
  "act a cs = cs\<lparr>cs_out := cs_out cs @ [a]\<rparr>"

definition put_ssl ::
    "('b, 't) ssl_conn \<Rightarrow> ('b, 't, 's) conn_state \<Rightarrow> ('b, 't, 's) conn_state" where
  \<comment> \<open>what the TLS layer did to the connection joins the rest\<close>
  "put_ssl sc cs = cs\<lparr>cs_ssl := Some (sc\<lparr>sc_out := []\<rparr>), cs_out := cs_out cs @ sc_out sc\<rparr>"

definition sendToClient ::
    "('b, 't, 's) server \<Rightarrow> bytes \<Rightarrow> ('b, 't, 's) conn_state \<Rightarrow> ('b, 't, 's) conn_state option" where
  "sendToClient srv d cs =
     (if d = [] then Some cs
      else if sv_useSSL srv
      then (case cs_ssl cs of
              Some sc \<Rightarrow>
                if isHandshakeCompleted sc
                then map_option (\<lambda>sc'. put_ssl sc' cs) (ssl_send (sv_tls srv) d sc)
                else Some cs
            | None \<Rightarrow> Some cs)
      else Some (act (ConnSend d) cs))"

definition defaultHttpCallback :: "http_response \<Rightarrow> http_response" where
  "defaultHttpCallback resp =
     setCloseConnection True (setStatusMessage ''Not Found'' (setStatusCode k404NotFound resp))"

subsection \<open>Connections\<close>

definition onConnection ::
    "('b, 't, 's) server \<Rightarrow> ('b, 't, 's) conn_state \<Rightarrow> ('b, 't, 's) conn_state option" where
  "onConnection srv cs =
     (let fresh = (\<lambda>cs. cs\<lparr>cs_context := Some (new_context (sv_maxRequestBodyBytes srv))\<rparr>)
      in if cs_connected cs
         then (if sv_useSSL srv
               then (case sv_sslCtx srv of
                       None \<Rightarrow> Some (act ConnShutdown cs)
                     | Some t \<Rightarrow>
                         (let sc = SslConnection (sv_buffer srv) (sv_tls srv) t
                          in if \<not> ssl_ok sc then Some (fresh (act ConnShutdown cs))
                             else map_option (\<lambda>sc'. fresh (put_ssl sc' cs))
                                    (startHandshake (sv_tls srv) sc)))
               else Some (fresh cs))
         else Some (if sv_useSSL srv then cs\<lparr>cs_ssl := None\<rparr> else cs))"

subsection \<open>Requests\<close>

definition not_found :: "http_response \<Rightarrow> http_response" where
  "not_found resp =
     setCloseConnection True (setStatusMessage ''Not Found'' (setStatusCode k404NotFound resp))"

definition internal_error :: "http_response \<Rightarrow> http_response" where
  "internal_error resp =
     setBody ''Internal Server Error''
       (setStatusMessage ''Internal Server Error'' (setStatusCode k500InternalServerError resp))"

definition catch_request ::
    "(thrown_value, unit) outcome \<times> http_response \<times> 's
      \<Rightarrow> (thrown_value, unit) outcome \<times> http_response \<times> 's" where
  \<comment> \<open>the two \<open>catch\<close> clauses\<close>
  "catch_request x =
     (case x of
        (Throw (ThrowResponse res), resp, s) \<Rightarrow> (Ok (), res, s)
      | (Throw (ThrowStd _), resp, s) \<Rightarrow> (Ok (), internal_error resp, s)
      | _ \<Rightarrow> x)"

definition run_request ::
    "('b, 't, 's) server \<Rightarrow> http_request \<Rightarrow> http_response \<Rightarrow> 's
      \<Rightarrow> (thrown_value, unit) outcome \<times> http_response \<times> 's" where
  \<comment> \<open>the body of the \<open>try\<close>\<close>
  "run_request srv req resp s =
     (case processBefore (sv_middlewareChain srv) req s of
        (Throw e, _, s1) \<Rightarrow> (Throw e, resp, s1)
      | (Crash f, _, s1) \<Rightarrow> (Crash f, resp, s1)
      | (Ok _, mutableReq, s1) \<Rightarrow>
          (case route (sv_regex srv) (sv_router srv) mutableReq resp s1 of
             (Throw e, resp1, s2) \<Rightarrow> (Throw e, resp1, s2)
           | (Crash f, resp1, s2) \<Rightarrow> (Crash f, resp1, s2)
           | (Ok found, resp1, s2) \<Rightarrow>
               processAfter (sv_middlewareChain srv) (if found then resp1 else not_found resp1) s2))"

definition handleRequest ::
    "('b, 't, 's) server \<Rightarrow> http_request \<Rightarrow> http_response \<Rightarrow> 's
      \<Rightarrow> (thrown_value, unit) outcome \<times> http_response \<times> 's" where
  "handleRequest srv req resp s = catch_request (run_request srv req resp s)"

definition httpCallback ::
    "('b, 't, 's) server \<Rightarrow> http_request \<Rightarrow> http_response \<Rightarrow> 's
      \<Rightarrow> (thrown_value, unit) outcome \<times> http_response \<times> 's" where
  "httpCallback srv =
     (case sv_httpCallback srv of None \<Rightarrow> handleRequest srv | Some cb \<Rightarrow> cb)"

definition wants_close :: "http_request \<Rightarrow> bool" where
  "wants_close req \<longleftrightarrow>
     getHeader ''Connection'' req = ''close'' \<or>
     (req_version req = ''HTTP/1.0'' \<and> getHeader ''Connection'' req \<noteq> ''Keep-Alive'')"

definition onRequest ::
    "('b, 't, 's) server \<Rightarrow> http_request \<Rightarrow> ('b, 't, 's) conn_state
      \<Rightarrow> ((thrown_value, unit) outcome \<times> ('b, 't, 's) conn_state) option" where
  "onRequest srv req cs =
     (case httpCallback srv req (new_response (wants_close req)) (cs_app cs) of
        (Ok _, response, s) \<Rightarrow>
          (let B = sv_buffer srv; buf = appendToBuffer B response (empty_buf B)
           in map_option
                (\<lambda>cs'. (Ok (), if res_closeConnection response then act ConnShutdown cs' else cs'))
                (sendToClient srv (readable B buf) (cs\<lparr>cs_app := s\<rparr>)))
      | (x, _, s) \<Rightarrow> Some (x, cs\<lparr>cs_app := s\<rparr>))"

subsection \<open>Messages\<close>

definition get_buf :: "('b, 't, 's) server \<Rightarrow> ('b, 't, 's) conn_state \<Rightarrow> 'b" where
  \<comment> \<open>the buffer that is parsed: the decrypted one of a TLS connection\<close>
  "get_buf srv cs =
     (case cs_ssl cs of
        Some sc \<Rightarrow> if sv_useSSL srv then sc_decryptedBuffer sc else cs_inbuf cs
      | None \<Rightarrow> cs_inbuf cs)"

definition put_buf ::
    "('b, 't, 's) server \<Rightarrow> 'b \<Rightarrow> ('b, 't, 's) conn_state \<Rightarrow> ('b, 't, 's) conn_state" where
  "put_buf srv b cs =
     (case cs_ssl cs of
        Some sc \<Rightarrow> if sv_useSSL srv then cs\<lparr>cs_ssl := Some (sc\<lparr>sc_decryptedBuffer := b\<rparr>)\<rparr>
                    else cs\<lparr>cs_inbuf := b\<rparr>
      | None \<Rightarrow> cs\<lparr>cs_inbuf := b\<rparr>)"

definition process_input ::
    "('b, 't, 's) server \<Rightarrow> int \<Rightarrow> ('b, 't, 's) conn_state
      \<Rightarrow> ((thrown_value, unit) outcome \<times> ('b, 't, 's) conn_state) option" where
  \<comment> \<open>from \<open>boost::any_cast\<close> to the end of the \<open>try\<close>\<close>
  "process_input srv receiveTime cs =
     (case cs_context cs of
        None \<Rightarrow> Some (Crash NullDeref, cs)
      | Some context \<Rightarrow>
          (case parseRequest (sv_buffer srv) receiveTime context (get_buf srv cs) of
             None \<Rightarrow> None
           | Some (Inl f) \<Rightarrow> Some (Crash f, cs)
           | Some (Inr (ok, context1, b1)) \<Rightarrow>
               (let cs1 = (put_buf srv b1 cs)\<lparr>cs_context := Some context1\<rparr>
                in if \<not> ok
                   then map_option (\<lambda>cs2. (Ok (), act ConnShutdown cs2))
                          (sendToClient srv
                             (if ctx_parseErrorStatus context1 = 413 then kHttp413 else kHttp400) cs1)
                   else if gotAll context1
                   then map_option
                          (\<lambda>(x, cs2). case x of
                             Ok _ \<Rightarrow> (Ok (), cs2\<lparr>cs_context := Some (reset_context context1)\<rparr>)
                           | _ \<Rightarrow> (x, cs2))
                          (onRequest srv (ctx_request context1) cs1)
                   else Some (Ok (), cs1))))"

definition try_message ::
    "('b, 't, 's) server \<Rightarrow> int \<Rightarrow> ('b, 't, 's) conn_state
      \<Rightarrow> ((thrown_value, unit) outcome \<times> ('b, 't, 's) conn_state) option" where
  "try_message srv receiveTime cs =
     (if sv_useSSL srv
      then (case cs_ssl cs of
              None \<Rightarrow> Some (Ok (), act ConnShutdown cs)
            | Some sc \<Rightarrow>
                (case onRead (sv_buffer srv) (sv_tls srv) (cs_inbuf cs) sc of
                   None \<Rightarrow> None
                 | Some (buf, sc1) \<Rightarrow>
                     (let cs1 = (put_ssl sc1 cs)\<lparr>cs_inbuf := buf\<rparr>
                      in if \<not> isHandshakeCompleted sc1 then Some (Ok (), cs1)
                         else if readable (sv_buffer srv) (sc_decryptedBuffer sc1) = []
                         then Some (Ok (), cs1)
                         else process_input srv receiveTime cs1)))
      else process_input srv receiveTime cs)"

definition onMessage ::
    "('b, 't, 's) server \<Rightarrow> int \<Rightarrow> ('b, 't, 's) conn_state
      \<Rightarrow> ((thrown_value, unit) outcome \<times> ('b, 't, 's) conn_state) option" where
  "onMessage srv receiveTime cs =
     (case try_message srv receiveTime cs of
        Some (Throw (ThrowStd _), cs1) \<Rightarrow>
          map_option (\<lambda>cs2. (Ok (), act ConnShutdown cs2)) (sendToClient srv kHttp400 cs1)
      | x \<Rightarrow> x)"

definition receive ::
    "('b, 't, 's) server \<Rightarrow> int \<Rightarrow> bytes \<Rightarrow> ('b, 't, 's) conn_state
      \<Rightarrow> ((thrown_value, unit) outcome \<times> ('b, 't, 's) conn_state) option" where
  \<comment> \<open>muduo reads \<open>d\<close> into the input buffer and makes the message callback\<close>
  "receive srv receiveTime d cs =
     onMessage srv receiveTime (cs\<lparr>cs_inbuf := append_buf (sv_buffer srv) (cs_inbuf cs) d\<rparr>)"

fun receive_all ::
    "('b, 't, 's) server \<Rightarrow> int \<Rightarrow> bytes list \<Rightarrow> ('b, 't, 's) conn_state
      \<Rightarrow> ((thrown_value, unit) outcome \<times> ('b, 't, 's) conn_state) option" where
  "receive_all srv t [] cs = Some (Ok (), cs)"
| "receive_all srv t (d # ds) cs =
     (case receive srv t d cs of
        Some (Ok _, cs1) \<Rightarrow> receive_all srv t ds cs1
      | x \<Rightarrow> x)"

end
