(* ===== verification/Server_Properties.thy ===== *)
theory Server_Properties
  imports Http_Server Parser_Properties Ssl_Properties
begin

section \<open>What the server guarantees on a connection\<close>

text \<open>
  The properties of the message callback without TLS: a request is answered once, with the
  response of its handler; what happens to bytes behind it; and the ways in which a client or a
  handler can bring the connection or the process down.
\<close>

definition plain :: "('b, 't, 's) server \<Rightarrow> bool" where
  "plain srv \<longleftrightarrow> \<not> sv_useSSL srv \<and> buffer_laws (sv_buffer srv)"

lemma plainD: "plain srv \<Longrightarrow> buffer_laws (sv_buffer srv)" "plain srv \<Longrightarrow> \<not> sv_useSSL srv"
  by (simp_all add: plain_def)

lemma plain_simps:
  assumes "plain srv"
  shows "get_buf srv cs = cs_inbuf cs" "put_buf srv b cs = cs\<lparr>cs_inbuf := b\<rparr>"
    "sendToClient srv d cs = Some (if d = [] then cs else act (ConnSend d) cs)"
    "try_message srv t cs = process_input srv t cs"
  using plainD(2) [OF assms]
  by (simp_all add: get_buf_def put_buf_def sendToClient_def try_message_def split: option.split)

lemma plain_parse:
  assumes "plain srv" "cs_context cs = Some c"
    and "parseRequest string_buffer t c (readable (sv_buffer srv) (cs_inbuf cs)) = Some (Inr (ok, c1, s1))"
  shows "\<exists>b. readable (sv_buffer srv) b = s1 \<and>
    parseRequest (sv_buffer srv) t c (get_buf srv cs) = Some (Inr (ok, c1, b))"
  using parseRequest_refines [OF plainD(1) [OF assms(1)], of t c "cs_inbuf cs"] assms(3)
  by (auto simp: plain_simps [OF assms(1)] elim!: view_resultE)

lemma act_simps [simp]:
  "cs_out (act a cs) = cs_out cs @ [a]" "cs_context (act a cs) = cs_context cs"
  "cs_inbuf (act a cs) = cs_inbuf cs" "cs_app (act a cs) = cs_app cs" "cs_ssl (act a cs) = cs_ssl cs"
  "cs_connected (act a cs) = cs_connected cs"
  by (simp_all add: act_def)

text \<open>One message on a plain connection, by the verdict of the parser.\<close>

lemma message_waits:
  assumes "plain srv" "cs_context cs = Some c" "\<not> gotAll c1"
    and "parseRequest string_buffer t c (readable (sv_buffer srv) (cs_inbuf cs)) = Some (Inr (True, c1, s1))"
  shows "\<exists>b. readable (sv_buffer srv) b = s1 \<and>
    onMessage srv t cs = Some (Ok (), cs\<lparr>cs_inbuf := b, cs_context := Some c1\<rparr>)"
  using plain_parse [OF assms(1,2,4)] assms(2,3)
  by (auto simp: onMessage_def plain_simps [OF assms(1)] process_input_def Let_def)

lemma message_refused:
  assumes "plain srv" "cs_context cs = Some c"
    and "parseRequest string_buffer t c (readable (sv_buffer srv) (cs_inbuf cs)) = Some (Inr (False, c1, s1))"
  shows "\<exists>b. readable (sv_buffer srv) b = s1 \<and>
    onMessage srv t cs = Some (Ok (), act ConnShutdown (act (ConnSend
      (if ctx_parseErrorStatus c1 = 413 then kHttp413 else kHttp400))
      (cs\<lparr>cs_inbuf := b, cs_context := Some c1\<rparr>)))"
  using plain_parse [OF assms] assms(2)
  by (auto simp: onMessage_def plain_simps [OF assms(1)] process_input_def Let_def kHttp400_def kHttp413_def)

lemma response_text_nonempty: "response_text r \<noteq> []"
  by (simp add: response_text_def)

lemma message_answered:
  assumes "plain srv" "cs_context cs = Some c" "gotAll c1"
    and "parseRequest string_buffer t c (readable (sv_buffer srv) (cs_inbuf cs)) = Some (Inr (True, c1, s1))"
    and "httpCallback srv (ctx_request c1) (new_response (wants_close (ctx_request c1))) (cs_app cs) =
           (Ok (), resp, s')"
    and "length (res_body resp) < 10 ^ 13"
  shows "\<exists>b. readable (sv_buffer srv) b = s1 \<and>
    onMessage srv t cs = Some (Ok (), cs\<lparr>cs_inbuf := b, cs_context := Some (reset_context c1),
      cs_app := s', cs_out := cs_out cs @ ConnSend (response_text resp) #
        (if res_closeConnection resp then [ConnShutdown] else [])\<rparr>)"
proof -
  from plain_parse [OF assms(1,2,4)] obtain b where b: "readable (sv_buffer srv) b = s1"
    "parseRequest (sv_buffer srv) t c (get_buf srv cs) = Some (Inr (True, c1, b))" by blast
  let ?B = "sv_buffer srv"
  have "readable ?B (appendToBuffer ?B resp (empty_buf ?B)) = response_text resp"
    using appendToBuffer_text [OF plainD(1) [OF assms(1)] assms(6)]
    by (simp add: empty_law [OF plainD(1) [OF assms(1)]])
  then have "onRequest srv (ctx_request c1) (cs\<lparr>cs_inbuf := b, cs_context := Some c1\<rparr>) =
      Some (Ok (), cs\<lparr>cs_inbuf := b, cs_context := Some c1, cs_app := s',
        cs_out := cs_out cs @ ConnSend (response_text resp) #
          (if res_closeConnection resp then [ConnShutdown] else [])\<rparr>)"
    using assms(5) response_text_nonempty [of resp]
    by (simp add: onRequest_def plain_simps [OF assms(1)] Let_def act_def)
  then have "process_input srv t cs = Some (Ok (), cs\<lparr>cs_inbuf := b,
      cs_context := Some (reset_context c1), cs_app := s',
      cs_out := cs_out cs @ ConnSend (response_text resp) #
        (if res_closeConnection resp then [ConnShutdown] else [])\<rparr>)"
    using b(2) assms(2,3) by (simp add: plain_simps [OF assms(1)] process_input_def Let_def)
  with b(1) show ?thesis
    by (intro exI [of _ b]) (simp add: onMessage_def plain_simps [OF assms(1)])
qed

lemma receive_unfold:
  "receive srv t d cs = onMessage srv t (cs\<lparr>cs_inbuf := append_buf (sv_buffer srv) (cs_inbuf cs) d\<rparr>)"
  by (simp add: receive_def)

lemma receive_all_answered:
  assumes "plain srv" "cs_context cs = Some c" "\<not> gotAll c"
    and "us \<noteq> []" "length rest < length (last us)" "gotAll c1"
    and "parseRequest string_buffer t c (readable (sv_buffer srv) (cs_inbuf cs) @ concat us) =
           Some (Inr (True, c1, rest))"
    and "httpCallback srv (ctx_request c1) (new_response (wants_close (ctx_request c1))) (cs_app cs) =
           (Ok (), resp, s')"
    and "length (res_body resp) < 10 ^ 13"
  shows "\<exists>b. readable (sv_buffer srv) b = rest \<and>
    receive_all srv t us cs = Some (Ok (), cs\<lparr>cs_inbuf := b, cs_context := Some (reset_context c1),
      cs_app := s', cs_out := cs_out cs @ ConnSend (response_text resp) #
        (if res_closeConnection resp then [ConnShutdown] else [])\<rparr>)"
  using assms(2-8)
proof (induction us arbitrary: cs c)
  case (Cons u us)
  let ?B = "sv_buffer srv"
  let ?s = "readable ?B (cs_inbuf cs)"
  let ?cs = "cs\<lparr>cs_inbuf := append_buf ?B (cs_inbuf cs) u\<rparr>"
  have app: "readable ?B (cs_inbuf ?cs) = ?s @ u"
    by (simp add: append_law [OF plainD(1) [OF assms(1)]])
  show ?case
  proof (cases "us = []")
    case True
    then have "parseRequest string_buffer t c (readable ?B (cs_inbuf ?cs)) = Some (Inr (True, c1, rest))"
      using Cons.prems(6) app by simp
    from message_answered [OF assms(1) _ _ this, of resp s'] Cons.prems assms(9) True
    show ?thesis by (auto simp: receive_unfold)
  next
    case False
    obtain r where r: "parseRequest string_buffer t c (?s @ u) = Some r"
      using parse_loop_returns [OF buffer_laws_string, of "c\<lparr>ctx_parseErrorStatus := 400\<rparr>" t "?s @ u"]
        Cons.prems(2) by (auto simp: parseRequest_def gotAll_def)
    have whole: "parseRequest string_buffer t c ((?s @ u) @ concat us) = Some (Inr (True, c1, rest))"
      using Cons.prems(6) by simp
    obtain ok c2 s2 where r2: "r = Inr (ok, c2, s2)"
      using http_parser.parse_more [OF r, of "concat us"] whole by (cases r) auto
    have "concat us = concat (butlast us @ [last us])" using False by simp
    also have "\<dots> = concat (butlast us) @ last us" by (simp del: append_butlast_last_id)
    finally have "length (last us) \<le> length (concat us)" by (simp del: concat_append)
    with Cons.prems(4) False have long: "length rest < length (concat us)" by simp
    have go: "ok \<and> \<not> gotAll c2"
    proof (rule ccontr)
      assume "\<not> (ok \<and> \<not> gotAll c2)"
      then have "rest = s2 @ concat us"
        using http_parser.parse_more [OF r, of "concat us"] whole r2 by (auto split: if_splits)
      with long show False by simp
    qed
    have ctx: "cs_context ?cs = Some c" using Cons.prems(1) by simp
    have now: "parseRequest string_buffer t c (readable ?B (cs_inbuf ?cs)) = Some (Inr (True, c2, s2))"
      using r r2 go unfolding app by simp
    obtain b where b: "readable ?B b = s2"
      "receive srv t u cs = Some (Ok (), cs\<lparr>cs_inbuf := b, cs_context := Some c2\<rparr>)"
      using message_waits [OF assms(1) ctx _ now] go unfolding receive_unfold by auto
    let ?cs2 = "cs\<lparr>cs_inbuf := b, cs_context := Some c2\<rparr>"
    have "parseRequest string_buffer t c2 (readable ?B (cs_inbuf ?cs2) @ concat us) =
        Some (Inr (True, c1, rest))"
      using http_parser.parse_more [OF r, of "concat us"] whole r2 go b(1) by simp
    moreover have "length rest < length (last us)" using Cons.prems(4) False by simp
    moreover have "httpCallback srv (ctx_request c1) (new_response (wants_close (ctx_request c1)))
        (cs_app ?cs2) = (Ok (), resp, s')" using Cons.prems(7) by simp
    ultimately obtain b' where "readable ?B b' = rest" "receive_all srv t us ?cs2 =
        Some (Ok (), ?cs2\<lparr>cs_inbuf := b', cs_context := Some (reset_context c1),
          cs_app := s', cs_out := cs_out ?cs2 @ ConnSend (response_text resp) #
            (if res_closeConnection resp then [ConnShutdown] else [])\<rparr>)"
      using Cons.IH [of ?cs2 c2] False Cons.prems(5) go by auto
    with b(2) show ?thesis by (intro exI [of _ b']) simp
  qed
qed simp

subsection \<open>Answering requests\<close>

definition new_connection :: "('b, 't, 's) server \<Rightarrow> ('b, 't, 's) conn_state \<Rightarrow> bool" where
  \<comment> \<open>accepted, nothing read yet\<close>
  "new_connection srv cs \<longleftrightarrow> cs_context cs = Some (new_context (sv_maxRequestBodyBytes srv)) \<and>
     readable (sv_buffer srv) (cs_inbuf cs) = []"

lemma request_pieces:
  assumes "plain srv" "new_connection srv cs" "us \<noteq> []" "length rest < length (last us)"
    and "wf_request (sv_maxRequestBodyBytes srv) m target ver hs body"
    and "concat us = render_request m target ver hs body @ rest"
    and "req = denoted_request t m target ver hs body"
    and "httpCallback srv req (new_response (wants_close req)) (cs_app cs) = (Ok (), resp, s')"
    and "length (res_body resp) < 10 ^ 13"
  shows "\<exists>b. readable (sv_buffer srv) b = rest \<and>
    receive_all srv t us cs = Some (Ok (), cs\<lparr>cs_inbuf := b,
      cs_context := Some (new_context (sv_maxRequestBodyBytes srv)), cs_app := s',
      cs_out := cs_out cs @ ConnSend (response_text resp) #
        (if res_closeConnection resp then [ConnShutdown] else [])\<rparr>)"
proof -
  let ?c1 = "\<lparr>ctx_state = kGotAll, ctx_request = req,
      ctx_maxBodyBytes = sv_maxRequestBodyBytes srv, ctx_parseErrorStatus = 400\<rparr>"
  have p: "parseRequest string_buffer t (new_context (sv_maxRequestBodyBytes srv))
      (readable (sv_buffer srv) (cs_inbuf cs) @ concat us) = Some (Inr (True, ?c1, rest))"
    using parse_rendered [OF assms(5), of t rest] assms(2,6,7)
    by (simp add: parseRequest_new new_connection_def)
  have "reset_context ?c1 = new_context (sv_maxRequestBodyBytes srv)"
    by (simp add: reset_context_eq new_context_def)
  with receive_all_answered [OF assms(1) _ _ assms(3,4) _ p, of resp s'] assms(2,8,9)
  show ?thesis by (simp add: new_connection_def gotAll_def)
qed

text \<open>Without TLS, a well-formed request that arrives on a new connection in any pieces is given
  to the callback exactly once, as the request it denotes; the connection gets exactly the
  serialised response, and \<open>shutdown\<close> after it when the response asks for it; the parser is
  ready for the next request, and the bytes behind the request stay unread in the buffer
  (so a second request in the same packet is not looked at until more input arrives).\<close>

theorem request_answered:
  assumes "plain srv" "new_connection srv cs" "us \<noteq> []" "length rest < length (last us)"
    and "wf_request (sv_maxRequestBodyBytes srv) m target ver hs body"
    and "concat us = render_request m target ver hs body @ rest"
    and "req = denoted_request t m target ver hs body"
    and "httpCallback srv req (new_response (wants_close req)) (cs_app cs) = (Ok (), resp, s')"
    and "length (res_body resp) < 10 ^ 13"
  shows "\<exists>b. readable (sv_buffer srv) b = rest \<and>
    receive_all srv t us cs = Some (Ok (), cs\<lparr>cs_inbuf := b,
      cs_context := Some (new_context (sv_maxRequestBodyBytes srv)), cs_app := s',
      cs_out := cs_out cs @ ConnSend (response_text resp) #
        (if res_closeConnection resp then [ConnShutdown] else [])\<rparr>)"
  using assms by (rule request_pieces)

definition demo_handler :: "nat handler" where
  "demo_handler = (\<lambda>req resp s. (Ok (), setBody (req_path req) (setStatusLine ''HTTP/1.1'' k200Ok ''OK'' resp), s + 1))"

definition demo_server :: "(bytes, null_state, nat) server" where
  "demo_server = (HttpServer string_buffer null_tls no_regex False)\<lparr>sv_router :=
     registerHandler kGet ''/a'' (Some demo_handler) new_router\<rparr>"

definition demo_connection :: "(bytes, null_state, nat) conn_state" where
  "demo_connection = \<lparr>cs_connected = True, cs_inbuf = [], cs_context = Some (new_context (8 * 1024 * 1024)),
     cs_ssl = None, cs_out = [], cs_app = 0\<rparr>"

lemma demo_simps:
  "plain demo_server" "new_connection demo_server demo_connection" "cs_app demo_connection = 0"
  "cs_out demo_connection = []" "sv_middlewareChain demo_server = []"
  "sv_maxRequestBodyBytes demo_server = 8 * 1024 * 1024" "sv_httpCallback demo_server = None"
  "sv_buffer demo_server = string_buffer"
  by (simp_all add: demo_server_def demo_connection_def plain_def new_connection_def HttpServer_def)

theorem request_answered_witness:
  "\<exists>cs. receive_all demo_server 7 [''GET /a HTT'', ''P/1.1'' @ crlf @ crlf] demo_connection = Some (Ok (), cs) \<and>
     cs_app cs = 1 \<and> (\<exists>r. cs_out cs = [ConnSend (response_text r)] \<and> res_body r = ''/a'')"
proof -
  let ?req = "denoted_request 7 ''GET'' ''/a'' ''HTTP/1.1'' [] []"
  let ?r = "setBody ''/a'' (setStatusLine ''HTTP/1.1'' k200Ok ''OK'' (new_response (wants_close ?req)))"
  have wf: "wf_request (sv_maxRequestBodyBytes demo_server) ''GET'' ''/a'' ''HTTP/1.1'' [] []"
    by (simp add: wf_request_def method_of_name_def carries_body_def)
  have req: "req_method ?req = kGet" "req_path ?req = ''/a''"
    by (simp_all add: denoted_request_def method_of_name_def)
  have close: "\<not> wants_close ?req"
    by (simp add: wants_close_def getHeader_def denoted_request_def header_map_def)
  have cb: "httpCallback demo_server ?req (new_response (wants_close ?req)) (cs_app demo_connection) = (Ok (), ?r, 1)"
    by (simp add: httpCallback_def handleRequest_def run_request_def catch_request_def demo_simps
        route_def Let_def req demo_server_def HttpServer_def registerHandler_def then_true_def
        call_handler_def demo_handler_def processAfter_def demo_connection_def)
  have "length (res_body ?r) < 10 ^ 13" by (simp add: setBody_def)
  from request_answered [OF demo_simps(1,2) _ _ wf _ refl cb this,
      of "[''GET /a HTT'', ''P/1.1'' @ crlf @ crlf]" "[]"]
  obtain b where "receive_all demo_server 7 [''GET /a HTT'', ''P/1.1'' @ crlf @ crlf] demo_connection =
      Some (Ok (), demo_connection\<lparr>cs_inbuf := b,
        cs_context := Some (new_context (sv_maxRequestBodyBytes demo_server)), cs_app := 1,
        cs_out := [ConnSend (response_text ?r)]\<rparr>)"
    using close by (auto simp: render_request_def demo_simps setBody_def setStatusLine_def new_response_def)
  moreover have "res_body ?r = ''/a''" by (simp add: setBody_def)
  ultimately show ?thesis by (intro exI conjI) (assumption, simp, simp, assumption)
qed

text \<open>One packet, while the parser is in its invariant.\<close>

lemma packet_safe:
  assumes "plain srv" "cs_context cs = Some c" "ctx_inv c" "\<not> gotAll c"
    and "\<And>req resp s. \<exists>resp' s'. httpCallback srv req resp s = (Ok (), resp', s') \<and>
           length (res_body resp') < 10 ^ 13"
  shows "\<exists>cs'. receive srv t d cs = Some (Ok (), cs') \<and>
    ((\<exists>c'. cs_context cs' = Some c' \<and> ctx_inv c' \<and> \<not> gotAll c') \<or>
     (\<exists>a \<in> {kHttp400, kHttp413}. cs_out cs' = cs_out cs @ [ConnSend a, ConnShutdown]))"
proof -
  let ?cs = "cs\<lparr>cs_inbuf := append_buf (sv_buffer srv) (cs_inbuf cs) d\<rparr>"
  have ctx: "cs_context ?cs = Some c" using assms(2) by simp
  obtain ok c1 s1 where p: "parseRequest string_buffer t c (readable (sv_buffer srv) (cs_inbuf ?cs)) =
      Some (Inr (ok, c1, s1))" and inv: "ok \<longrightarrow> ctx_inv c1"
    using parse_loop_inv [of "c\<lparr>ctx_parseErrorStatus := 400\<rparr>" string_buffer t
        "readable (sv_buffer srv) (cs_inbuf ?cs)"] assms(3,4)
    by (auto simp: parseRequest_def gotAll_def)
  show ?thesis
  proof (cases "ok")
    case False
    with message_refused [OF assms(1) ctx, of t c1 s1] p show ?thesis
      unfolding receive_unfold by fastforce
  next
    case ok: True
    show ?thesis
    proof (cases "gotAll c1")
      case True
      obtain resp' s' where cb: "httpCallback srv (ctx_request c1)
          (new_response (wants_close (ctx_request c1))) (cs_app ?cs) = (Ok (), resp', s')"
        "length (res_body resp') < 10 ^ 13" using assms(5) by blast
      from message_answered [OF assms(1) ctx True _ cb, of t s1] p ok
      obtain b where "onMessage srv t ?cs = Some (Ok (), ?cs\<lparr>cs_inbuf := b,
          cs_context := Some (reset_context c1), cs_app := s',
          cs_out := cs_out ?cs @ ConnSend (response_text resp') #
            (if res_closeConnection resp' then [ConnShutdown] else [])\<rparr>)" by auto
      then show ?thesis unfolding receive_unfold by simp
    next
      case False
      with message_waits [OF assms(1) ctx False, of t s1] p ok inv show ?thesis
        unfolding receive_unfold by auto
    qed
  qed
qed

definition callback_returns :: "('b, 't, 's) server \<Rightarrow> bool" where
  "callback_returns srv \<longleftrightarrow>
     (\<forall>req resp s. \<exists>resp' s'. httpCallback srv req resp s = (Ok (), resp', s') \<and> length (res_body resp') < 10 ^ 13)"

lemma packets_safe:
  assumes "plain srv" and "callback_returns srv" and "cs_context cs = Some c" "ctx_inv c" "\<not> gotAll c"
  shows "(\<exists>cs' c'. receive_all srv t ds cs = Some (Ok (), cs') \<and> cs_context cs' = Some c' \<and> ctx_inv c' \<and> \<not> gotAll c') \<or>
    (\<exists>us d vs cs1 cs2. ds = us @ d # vs \<and> receive_all srv t us cs = Some (Ok (), cs1) \<and>
       receive srv t d cs1 = Some (Ok (), cs2) \<and>
       (\<exists>a \<in> {kHttp400, kHttp413}. cs_out cs2 = cs_out cs1 @ [ConnSend a, ConnShutdown]))"
  using assms(3-5)
proof (induction ds arbitrary: cs c)
  case (Cons d ds)
  obtain cs1 where r: "receive srv t d cs = Some (Ok (), cs1)"
    and after: "(\<exists>c'. cs_context cs1 = Some c' \<and> ctx_inv c' \<and> \<not> gotAll c') \<or>
     (\<exists>a \<in> {kHttp400, kHttp413}. cs_out cs1 = cs_out cs @ [ConnSend a, ConnShutdown])"
    using packet_safe [OF assms(1) Cons.prems, of t d] assms(2) unfolding callback_returns_def by blast
  from after show ?case
  proof
    assume "\<exists>c'. cs_context cs1 = Some c' \<and> ctx_inv c' \<and> \<not> gotAll c'"
    then obtain c' where "cs_context cs1 = Some c'" "ctx_inv c'" "\<not> gotAll c'" by blast
    from Cons.IH [OF this] show ?thesis
    proof
      assume "\<exists>us u vs cs2 cs3. ds = us @ u # vs \<and> receive_all srv t us cs1 = Some (Ok (), cs2) \<and>
       receive srv t u cs2 = Some (Ok (), cs3) \<and>
       (\<exists>a \<in> {kHttp400, kHttp413}. cs_out cs3 = cs_out cs2 @ [ConnSend a, ConnShutdown])"
      then obtain us u vs cs2 cs3 where "d # ds = (d # us) @ u # vs" "receive_all srv t (d # us) cs = Some (Ok (), cs2)"
        "receive srv t u cs2 = Some (Ok (), cs3)"
        "\<exists>a \<in> {kHttp400, kHttp413}. cs_out cs3 = cs_out cs2 @ [ConnSend a, ConnShutdown]" using r by auto
      then show ?thesis by blast
    qed (use r in simp)
  next
    assume "\<exists>a \<in> {kHttp400, kHttp413}. cs_out cs1 = cs_out cs @ [ConnSend a, ConnShutdown]"
    moreover have "d # ds = [] @ d # ds" "receive_all srv t [] cs = Some (Ok (), cs)" by simp_all
    ultimately show ?thesis using r by blast
  qed
qed simp

text \<open>C31: a new connection without TLS is safe until its first refusal, whatever bytes arrive in whatever
  packets, as long as the HTTP callback returns (with a body below ten terabytes, whose length fits the
  buffer of the header line): either all packets are taken without a failed assertion and the parser
  is in its invariant and not stuck, or one of them was answered exactly 400 or 413 and a shutdown, after
  packets that were all taken.  What a further packet on a refused connection does is \<open>two_packets_abort\<close>.\<close>

theorem plain_connection_safe:
  assumes "plain srv" and "new_connection srv cs"
    and "\<And>req resp s. \<exists>resp' s'. httpCallback srv req resp s = (Ok (), resp', s') \<and>
           length (res_body resp') < 10 ^ 13"
  shows "(\<exists>cs' c'. receive_all srv t ds cs = Some (Ok (), cs') \<and> cs_context cs' = Some c' \<and> ctx_inv c' \<and> \<not> gotAll c') \<or>
    (\<exists>us d vs cs1 cs2. ds = us @ d # vs \<and> receive_all srv t us cs = Some (Ok (), cs1) \<and>
       receive srv t d cs1 = Some (Ok (), cs2) \<and>
       (\<exists>a \<in> {kHttp400, kHttp413}. cs_out cs2 = cs_out cs1 @ [ConnSend a, ConnShutdown]))"
  using packets_safe [OF assms(1), of cs] assms(2,3) by (simp add: callback_returns_def new_connection_def)

text \<open>A request line without a version is a packet that is refused; nothing comes before it.\<close>

theorem plain_connection_safe_witness:
  "\<exists>cs2. receive (demo_server\<lparr>sv_httpCallback := Some (\<lambda>_ resp s. (Ok (), new_response True, s))\<rparr>)
      0 (''GET /'' @ crlf) demo_connection = Some (Ok (), cs2) \<and>
     (\<exists>a \<in> {kHttp400, kHttp413}. cs_out cs2 = [ConnSend a, ConnShutdown])"
proof -
  let ?srv = "demo_server\<lparr>sv_httpCallback := Some (\<lambda>_ resp s. (Ok (), new_response True, s))\<rparr>"
  let ?line = "''GET'' @ CHR '' '' # ''/''" and ?n = "sv_maxRequestBodyBytes demo_server"
  have srv: "plain ?srv" using demo_simps(1) by (simp add: plain_def)
  have new: "new_connection ?srv demo_connection" using demo_simps(2) by (simp add: new_connection_def)
  have cb: "\<exists>resp' s'. httpCallback ?srv req resp s = (Ok (), resp', s') \<and> length (res_body resp') < 10 ^ 13"
    for req resp s by (simp add: httpCallback_def new_response_def)
  let ?cs = "demo_connection\<lparr>cs_inbuf := append_buf (sv_buffer ?srv) (cs_inbuf demo_connection) (?line @ crlf)\<rparr>"
  have ctx: "cs_context ?cs = Some (new_context ?n)" and inb: "readable (sv_buffer ?srv) (cs_inbuf ?cs) = ?line @ crlf"
    using new append_law [OF plainD(1) [OF srv]] by (simp_all add: new_connection_def)
  obtain c1 where p: "parseRequest string_buffer 0 (new_context ?n) (readable (sv_buffer ?srv) (cs_inbuf ?cs)) =
      Some (Inr (False, c1, ?line @ crlf))" and c1: "\<not> ctx_inv c1"
  proof -
    have "req_method (new_request\<lparr>req_method := kGet\<rparr>) \<noteq> req_method new_request" by (simp add: new_request_def)
    then have "new_request\<lparr>req_method := kGet\<rparr> \<noteq> new_request" by metis
    then show ?thesis
      using that refused_line_turn [of "''GET''" "''/''" 0 ?n "[]"] unfolding inb
      by (simp add: parseRequest_new method_of_name_def ctx_inv_def)
  qed
  from message_refused [OF srv ctx p] obtain cs2 where r: "receive ?srv 0 (?line @ crlf) demo_connection = Some (Ok (), cs2)"
    and c2: "cs_context cs2 = Some c1"
    unfolding receive_unfold by (auto simp: act_def)
  from plain_connection_safe [OF srv new cb, of 0 "[?line @ crlf]"] r c1 c2
  show ?thesis by (auto simp: Cons_eq_append_conv demo_connection_def)
qed

subsection \<open>Ways to fail\<close>

text \<open>C32: two packets end the server process: \<open>GET /\<close> and a line end on a new connection, answered 400,
  and then any byte on the same connection, which is only half closed, fail the assertion of
  \<open>setMethod\<close> (\<open>m\<close> any known method, \<open>tail\<close> any text without a space).\<close>

theorem two_packets_abort:
  assumes "plain srv" "new_connection srv cs"
    and "method_of_name m \<noteq> kInvalid" "CHR '' '' \<notin> set tail" "CR \<notin> set tail"
  shows "\<exists>cs'. receive_all srv t [m @ CHR '' '' # tail @ crlf, u] cs = Some (Crash AssertFailed, cs')"
proof -
  let ?B = "sv_buffer srv" and ?line = "m @ CHR '' '' # tail"
  let ?n = "sv_maxRequestBodyBytes srv"
  let ?c1 = "(new_context ?n)\<lparr>ctx_request := new_request\<lparr>req_method := method_of_name m\<rparr>\<rparr>"
  let ?cs = "cs\<lparr>cs_inbuf := append_buf ?B (cs_inbuf cs) (?line @ crlf)\<rparr>"
  note laws = plainD(1) [OF assms(1)]
  have ctx: "cs_context ?cs = Some (new_context ?n)" and inb: "readable ?B (cs_inbuf ?cs) = ?line @ crlf"
    using assms(2) by (simp_all add: new_connection_def append_law [OF laws])
  have p: "parseRequest string_buffer t (new_context ?n) (readable ?B (cs_inbuf ?cs)) =
      Some (Inr (False, ?c1, ?line @ crlf))"
    using refused_line_turn [OF assms(3-5), of t ?n "[]"] unfolding inb by (simp add: parseRequest_new)
  from message_refused [OF assms(1) ctx p] obtain b where b: "readable ?B b = ?line @ crlf"
    "receive srv t (?line @ crlf) cs = Some (Ok (), act ConnShutdown (act (ConnSend
      (if ctx_parseErrorStatus ?c1 = 413 then kHttp413 else kHttp400))
      (?cs\<lparr>cs_inbuf := b, cs_context := Some ?c1\<rparr>)))"
    unfolding receive_unfold by blast
  have "parse_str t (?c1\<lparr>ctx_parseErrorStatus := 400\<rparr>) (?line @ CR # LF # u) = Some (Inl AssertFailed)"
    using assms(3-5) method_name_chars [OF assms(3)] by (intro second_call_aborts) (auto simp: new_context_def)
  then have "parseRequest string_buffer t ?c1 (readable ?B (append_buf ?B b u)) = Some (Inl AssertFailed)"
    by (simp add: parseRequest_def append_law [OF laws] b(1))
  then have "parseRequest ?B t ?c1 (append_buf ?B b u) = Some (Inl AssertFailed)"
    using parseRequest_refines [OF laws, of t ?c1 "append_buf ?B b u"] by (simp add: view_result_Inl)
  then have "\<exists>cs'. receive srv t u (act ConnShutdown (act (ConnSend
      (if ctx_parseErrorStatus ?c1 = 413 then kHttp413 else kHttp400))
      (?cs\<lparr>cs_inbuf := b, cs_context := Some ?c1\<rparr>))) = Some (Crash AssertFailed, cs')"
    by (simp add: receive_def onMessage_def plain_simps [OF assms(1)] process_input_def act_def)
  with b(2) show ?thesis by auto
qed

theorem two_packets_abort_witness:
  "\<exists>cs'. receive_all demo_server 0 [''GET /'' @ crlf, ''x''] demo_connection = Some (Crash AssertFailed, cs')"
  using two_packets_abort [OF demo_simps(1,2), of "''GET''" "''/''" 0 "''x''"]
  by (simp add: method_of_name_def)

text \<open>When a callback set with \<open>setHttpCallback\<close> throws a \<open>std::exception\<close>, the client gets 400 and
  a shutdown, but the context stays complete: the next bytes on that connection put its event
  loop into an endless loop.\<close>

theorem throwing_callback_hangs:
  assumes "plain srv" "new_connection srv cs" "sv_httpCallback srv = Some cb"
    and "wf_request (sv_maxRequestBodyBytes srv) m target ver hs body"
    and "req = denoted_request t m target ver hs body"
    and "cb req (new_response (wants_close req)) (cs_app cs) = (Throw (ThrowStd e), resp, s')"
  shows "\<exists>cs'. receive srv t (render_request m target ver hs body) cs = Some (Ok (), cs') \<and>
    cs_out cs' = cs_out cs @ [ConnSend kHttp400, ConnShutdown] \<and>
    (\<forall>t' d. receive srv t' d cs' = None)"
proof -
  let ?B = "sv_buffer srv" and ?n = "sv_maxRequestBodyBytes srv"
  let ?c1 = "\<lparr>ctx_state = kGotAll, ctx_request = req, ctx_maxBodyBytes = ?n, ctx_parseErrorStatus = 400\<rparr>"
  let ?cs = "cs\<lparr>cs_inbuf := append_buf ?B (cs_inbuf cs) (render_request m target ver hs body)\<rparr>"
  note laws = plainD(1) [OF assms(1)]
  have ctx: "cs_context ?cs = Some (new_context ?n)" using assms(2) by (simp add: new_connection_def)
  have p: "parseRequest string_buffer t (new_context ?n) (readable ?B (cs_inbuf ?cs)) =
      Some (Inr (True, ?c1, []))"
    using parse_rendered [OF assms(4), of t "[]"] assms(2,5)
    by (simp add: parseRequest_new new_connection_def append_law [OF laws])
  from plain_parse [OF assms(1) ctx p] obtain b where
    b: "parseRequest ?B t (new_context ?n) (get_buf srv ?cs) = Some (Inr (True, ?c1, b))" by blast
  let ?cs1 = "?cs\<lparr>cs_inbuf := b, cs_context := Some ?c1, cs_app := s'\<rparr>"
  have "process_input srv t ?cs = Some (Throw (ThrowStd e), ?cs1)"
    using b ctx assms(3,6)
    by (simp add: process_input_def plain_simps [OF assms(1)] gotAll_def onRequest_def httpCallback_def)
  then have "receive srv t (render_request m target ver hs body) cs =
      Some (Ok (), act ConnShutdown (act (ConnSend kHttp400) ?cs1))"
    by (simp add: receive_def onMessage_def plain_simps [OF assms(1)] kHttp400_def)
  moreover have "receive srv t' d (act ConnShutdown (act (ConnSend kHttp400) ?cs1)) = None" for t' d
    by (simp add: receive_def onMessage_def plain_simps [OF assms(1)] process_input_def
        parseRequest_def parse_loop_diverges)
  ultimately show ?thesis by simp
qed

theorem throwing_callback_hangs_witness:
  "\<exists>cs'. receive (demo_server\<lparr>sv_httpCallback := Some (\<lambda>_ resp s. (Throw (ThrowStd ''bad''), resp, s))\<rparr>) 0
      (render_request ''GET'' ''/'' ''HTTP/1.1'' [] []) demo_connection = Some (Ok (), cs') \<and>
    receive (demo_server\<lparr>sv_httpCallback := Some (\<lambda>_ resp s. (Throw (ThrowStd ''bad''), resp, s))\<rparr>) 0 ''x'' cs' = None"
proof -
  let ?srv = "demo_server\<lparr>sv_httpCallback := Some (\<lambda>_ resp s. (Throw (ThrowStd ''bad''), resp, s))\<rparr>"
  have "plain ?srv" "new_connection ?srv demo_connection"
    using demo_simps(1,2) by (simp_all add: plain_def new_connection_def)
  moreover have "wf_request (sv_maxRequestBodyBytes ?srv) ''GET'' ''/'' ''HTTP/1.1'' [] []"
    by (simp add: wf_request_def method_of_name_def carries_body_def)
  ultimately show ?thesis
    using throwing_callback_hangs [of ?srv demo_connection
        "\<lambda>_ resp s. (Throw (ThrowStd ''bad''), resp, s)" "''GET''" "''/''" "''HTTP/1.1''" "[]" "[]"
        "denoted_request 0 ''GET'' ''/'' ''HTTP/1.1'' [] []" 0 "''bad''"]
    by fastforce
qed

text \<open>A request without a route is answered with a message whose status line has no version:
  behind the CORS middleware too, it is \<open> 404 Not Found\<close> with a leading space, because no one
  sets \<open>httpVersion_\<close>; the connection is closed after it.\<close>

theorem not_found_without_version:
  assumes "sv_middlewareChain srv = [Some (cors_middleware cfg get put)]" "req_method req \<noteq> kOptions"
    and "\<And>s1. \<exists>s2. route (sv_regex srv) (sv_router srv) req (new_response close) s1 =
           (Ok False, new_response close, s2)"
  shows "\<exists>resp s'. handleRequest srv req (new_response close) s = (Ok (), resp, s') \<and>
    status_line resp = '' 404 Not Found'' \<and> res_closeConnection resp \<and> res_body resp = []"
proof -
  let ?s1 = "put (getHeader ''Origin'' req) s"
  have b: "processBefore (sv_middlewareChain srv) req s = (Ok (), req, ?s1)"
    using assms(2) by (simp add: assms(1) cors_middleware_def cors_before_def Let_def)
  obtain s2 where r: "route (sv_regex srv) (sv_router srv) req (new_response close) ?s1 =
      (Ok False, new_response close, s2)" using assms(3) by blast
  obtain x resp s3 where a: "processAfter (sv_middlewareChain srv) (not_found (new_response close)) s2 =
      (x, resp, s3)" by (metis prod_cases3)
  have "x = Ok () \<and> same_message (not_found (new_response close)) resp"
    using a unfolding assms(1)
    by (intro cors.processAfter_law [of "[Some (cors_middleware cfg get put)]" cfg put get])
      (simp_all add: cors_middleware_def)
  moreover from this have "status_line resp = '' 404 Not Found'' \<and> res_closeConnection resp \<and> res_body resp = []"
    by (simp add: same_message_fields not_found_def setStatusCode_def setStatusMessage_def
        setCloseConnection_def new_response_def status_line_def c_str_def snprintf_32_def dec_eval)
  ultimately show ?thesis
    using a by (simp add: handleRequest_def run_request_def b r catch_request_def)
qed

theorem not_found_without_version_witness:
  "\<exists>resp s'. handleRequest ((HttpServer string_buffer null_tls no_regex False)\<lparr>sv_middlewareChain :=
        [Some (cors_middleware defaultConfig id (\<lambda>v _. v))]\<rparr>)
      (new_request\<lparr>req_method := kGet\<rparr>) (new_response False) [] = (Ok (), resp, s') \<and>
    status_line resp = '' 404 Not Found''"
proof -
  let ?srv = "(HttpServer string_buffer null_tls no_regex False)\<lparr>sv_middlewareChain :=
        [Some (cors_middleware defaultConfig id (\<lambda>v _. v))]\<rparr>"
  have "route (sv_regex ?srv) (sv_router ?srv) (new_request\<lparr>req_method := kGet\<rparr>) (new_response False) s1 =
      (Ok False, new_response False, s1)" for s1
    by (simp add: HttpServer_def route_def new_router_def Let_def)
  with not_found_without_version [of ?srv defaultConfig id "\<lambda>v _. v"
      "new_request\<lparr>req_method := kGet\<rparr>" False "[]"]
  show ?thesis by fastforce
qed

end
