(* ===== verification/Actions.thy ===== *)
theory Actions
  imports Prelude
begin

section \<open>Code that changes a state and may throw\<close>

text \<open>
  An \<open>action\<close> is a piece of C++ that reads and changes a state \<open>'w\<close> and returns, throws or ends
  the process.  \<open>bind_act\<close> is sequencing, \<open>catch_act\<close> a \<open>try\<close> block: what was done before
  the exception stays done.
\<close>

type_synonym ('e, 'w, 'a) action = "'w \<Rightarrow> ('e, 'a) outcome \<times> 'w"

named_theorems act_simps \<open>running actions\<close>

definition return_act :: "'a \<Rightarrow> ('e, 'w, 'a) action" where
  "return_act a w = (Ok a, w)"

definition throw_act :: "'e \<Rightarrow> ('e, 'w, 'a) action" where
  "throw_act e w = (Throw e, w)"

definition bind_act ::
    "('e, 'w, 'a) action \<Rightarrow> ('a \<Rightarrow> ('e, 'w, 'b) action) \<Rightarrow> ('e, 'w, 'b) action" where
  "bind_act m f w =
     (case m w of
        (Ok a, w1) \<Rightarrow> f a w1
      | (Throw e, w1) \<Rightarrow> (Throw e, w1)
      | (Crash x, w1) \<Rightarrow> (Crash x, w1))"

definition catch_act ::
    "('e, 'w, 'a) action \<Rightarrow> ('e \<Rightarrow> ('d, 'w, 'a) action) \<Rightarrow> ('d, 'w, 'a) action" where
  "catch_act m h w =
     (case m w of
        (Ok a, w1) \<Rightarrow> (Ok a, w1)
      | (Throw e, w1) \<Rightarrow> h e w1
      | (Crash x, w1) \<Rightarrow> (Crash x, w1))"

definition modify_act :: "('w \<Rightarrow> 'w) \<Rightarrow> ('e, 'w, unit) action" where
  "modify_act f w = (Ok (), f w)"

definition with_state :: "('w \<Rightarrow> ('e, 'w, 'a) action) \<Rightarrow> ('e, 'w, 'a) action" where
  \<comment> \<open>read the state\<close>
  "with_state f w = f w w"

lemma return_run [act_simps]: "return_act a w = (Ok a, w)"
  by (simp add: return_act_def)

lemma throw_run [act_simps]: "throw_act e w = (Throw e, w)"
  by (simp add: throw_act_def)

lemma modify_run [act_simps]: "modify_act f w = (Ok (), f w)"
  by (simp add: modify_act_def)

lemma with_state_run [act_simps]: "with_state f w = f w w"
  by (simp add: with_state_def)

lemma bind_Ok [act_simps]: "m w = (Ok a, w1) \<Longrightarrow> bind_act m f w = f a w1"
  by (simp add: bind_act_def)

lemma bind_Throw [act_simps]: "m w = (Throw e, w1) \<Longrightarrow> bind_act m f w = (Throw e, w1)"
  by (simp add: bind_act_def)

lemma bind_Crash [act_simps]: "m w = (Crash x, w1) \<Longrightarrow> bind_act m f w = (Crash x, w1)"
  by (simp add: bind_act_def)

lemma catch_Ok [act_simps]: "m w = (Ok a, w1) \<Longrightarrow> catch_act m h w = (Ok a, w1)"
  by (simp add: catch_act_def)

lemma catch_Throw [act_simps]: "m w = (Throw e, w1) \<Longrightarrow> catch_act m h w = h e w1"
  by (simp add: catch_act_def)

lemma catch_Crash [act_simps]: "m w = (Crash x, w1) \<Longrightarrow> catch_act m h w = (Crash x, w1)"
  by (simp add: catch_act_def)

lemma bind_return [simp]: "bind_act (return_act a) f = f a"
  by (rule ext) (simp add: bind_act_def return_act_def)

lemma bind_assoc: "bind_act (bind_act m f) g = bind_act m (\<lambda>a. bind_act (f a) g)"
  by (rule ext) (simp add: bind_act_def split: outcome.split prod.split)

lemma bind_OkE:
  assumes "bind_act m f w = (Ok b, w2)"
  obtains a w1 where "m w = (Ok a, w1)" "f a w1 = (Ok b, w2)"
  using assms by (auto simp: bind_act_def split: outcome.splits prod.splits)

subsection \<open>Results without a state\<close>

definition bind_out ::
    "('e, 'a) outcome \<Rightarrow> ('a \<Rightarrow> ('e, 'b) outcome) \<Rightarrow> ('e, 'b) outcome" where
  "bind_out r f = (case r of Ok a \<Rightarrow> f a | Throw e \<Rightarrow> Throw e | Crash x \<Rightarrow> Crash x)"

definition lift_out :: "('e, 'a) outcome \<Rightarrow> ('e, 'w, 'a) action" where
  "lift_out r w = (r, w)"

lemma bind_out_simps [simp]:
  "bind_out (Ok a) f = f a" "bind_out (Throw e) f = Throw e" "bind_out (Crash x) f = Crash x"
  by (simp_all add: bind_out_def)

lemma bind_out_Ok_iff: "bind_out r f = Ok b \<longleftrightarrow> (\<exists>a. r = Ok a \<and> f a = Ok b)"
  by (cases r) simp_all

lemma lift_run [act_simps]: "lift_out r w = (r, w)"
  by (simp add: lift_out_def)

lemma bind_Ok_iff:
  "bind_act m f w = (Ok b, w2) \<longleftrightarrow> (\<exists>a w1. m w = (Ok a, w1) \<and> f a w1 = (Ok b, w2))"
  by (auto simp: bind_act_def split: outcome.splits prod.splits)

end
