(* ===== verification/Db_Connection.thy ===== *)
theory Db_Connection
  imports Actions
begin

section \<open>DbConnection\<close>

text \<open>
  \<open>HttpServer/include/utils/db/DbConnection.h\<close>, \<open>DbException.h\<close> and
  \<open>HttpServer/src/utils/db/DbConnection.cpp\<close>: one connection to the database.  The driver
  (MySQL Connector/C++) is not part of the repository: its calls are the fields of \<open>sql_ops\<close>
  over an unknown state \<open>'w\<close>; connections, statements and result sets are handles.  The mutex of
  the object only says which calls may overlap (see \<open>Db_Pool\<close>).
\<close>

type_synonym handle = nat

datatype db_exn = SQLException bytes | DbException bytes | OtherException bytes

record 'w sql_ops =
  sql_connect :: "bytes \<Rightarrow> bytes \<Rightarrow> bytes \<Rightarrow> (db_exn, 'w, handle option) action"
  sql_setSchema :: "handle \<Rightarrow> bytes \<Rightarrow> (db_exn, 'w, unit) action"
  sql_setClientOption :: "handle \<Rightarrow> bytes \<Rightarrow> bytes \<Rightarrow> (db_exn, 'w, unit) action"
  sql_createStatement :: "handle \<Rightarrow> (db_exn, 'w, handle) action"
  sql_execute :: "handle \<Rightarrow> bytes \<Rightarrow> (db_exn, 'w, bool) action"
  sql_executeQuery :: "handle \<Rightarrow> bytes \<Rightarrow> (db_exn, 'w, handle) action"
  sql_prepareStatement :: "handle \<Rightarrow> bytes \<Rightarrow> (db_exn, 'w, handle) action"
  sql_setString :: "handle \<Rightarrow> int \<Rightarrow> bytes \<Rightarrow> (db_exn, 'w, unit) action"
  sql_preparedQuery :: "handle \<Rightarrow> (db_exn, 'w, handle) action"
  sql_preparedUpdate :: "handle \<Rightarrow> (db_exn, 'w, int) action"
  sql_getAutoCommit :: "handle \<Rightarrow> (db_exn, 'w, bool) action"
  sql_rollback :: "handle \<Rightarrow> (db_exn, 'w, unit) action"
  sql_setAutoCommit :: "handle \<Rightarrow> bool \<Rightarrow> (db_exn, 'w, unit) action"
  sql_getMoreResults :: "handle \<Rightarrow> (db_exn, 'w, bool) action"
  sql_getResultSet :: "handle \<Rightarrow> (db_exn, 'w, handle option) action"
  sql_next :: "handle \<Rightarrow> (db_exn, 'w, bool) action"
  sql_reconnect :: "handle \<Rightarrow> (db_exn, 'w, bool) action"

record db_connection =
  db_conn :: "handle option"       \<comment> \<open>\<open>conn_\<close>, \<open>None\<close> for a null pointer\<close>
  db_host :: bytes
  db_user :: bytes
  db_password :: bytes
  db_database :: bytes

definition sql_to_db :: "db_exn \<Rightarrow> (db_exn, 'w, 'a) action" where
  \<comment> \<open>\<open>catch (const sql::SQLException &e) { ...; throw DbException(e.what()); }\<close>\<close>
  "sql_to_db e = (case e of SQLException what \<Rightarrow> throw_act (DbException what) | _ \<Rightarrow> throw_act e)"

definition deref :: "handle option \<Rightarrow> (handle \<Rightarrow> (db_exn, 'w, 'a) action) \<Rightarrow> (db_exn, 'w, 'a) action" where
  "deref p f w = (case p of None \<Rightarrow> (Crash NullDeref, w) | Some h \<Rightarrow> f h w)"

definition DbConnection ::
    "'w sql_ops \<Rightarrow> bytes \<Rightarrow> bytes \<Rightarrow> bytes \<Rightarrow> bytes \<Rightarrow> (db_exn, 'w, db_connection) action" where
  "DbConnection S host user password database =
     catch_act
       (bind_act (sql_connect S host user password) (\<lambda>conn.
          let self = \<lparr>db_conn = conn, db_host = host, db_user = user, db_password = password,
                      db_database = database\<rparr>
          in case conn of
               None \<Rightarrow> return_act self
             | Some c \<Rightarrow>
                 bind_act (sql_setSchema S c database) (\<lambda>_.
                 bind_act (sql_setClientOption S c ''OPT_RECONNECT'' ''true'') (\<lambda>_.
                 bind_act (sql_setClientOption S c ''OPT_CONNECT_TIMEOUT'' ''10'') (\<lambda>_.
                 bind_act (sql_setClientOption S c ''multi_statements'' ''false'') (\<lambda>_.
                 bind_act (sql_createStatement S c) (\<lambda>stmt.
                 bind_act (sql_execute S stmt ''SET NAMES utf8mb4'') (\<lambda>_.
                   return_act self))))))))
       sql_to_db"

definition ping :: "'w sql_ops \<Rightarrow> db_connection \<Rightarrow> (db_exn, 'w, bool) action" where
  "ping S self =
     catch_act
       (deref (db_conn self) (\<lambda>c.
          bind_act (sql_createStatement S c) (\<lambda>stmt.
          bind_act (sql_executeQuery S stmt ''SELECT 1'') (\<lambda>_. return_act True))))
       (\<lambda>e. case e of SQLException _ \<Rightarrow> return_act False | _ \<Rightarrow> throw_act e)"

definition isValid :: "'w sql_ops \<Rightarrow> db_connection \<Rightarrow> (db_exn, 'w, bool) action" where
  "isValid S self =
     catch_act
       (case db_conn self of
          None \<Rightarrow> return_act False
        | Some c \<Rightarrow>
            bind_act (sql_createStatement S c) (\<lambda>stmt.
            bind_act (sql_execute S stmt ''SELECT 1'') (\<lambda>_. return_act True)))
       (\<lambda>e. case e of SQLException _ \<Rightarrow> return_act False | _ \<Rightarrow> throw_act e)"

text \<open>The operations that change the object run on the object together with the database.\<close>

definition on_db :: "('e, 'w, 'a) action \<Rightarrow> ('e, db_connection \<times> 'w, 'a) action" where
  "on_db m s = (let (r, w) = m (snd s) in (r, (fst s, w)))"

definition reconnect :: "'w sql_ops \<Rightarrow> (db_exn, db_connection \<times> 'w, unit) action" where
  "reconnect S =
     catch_act
       (with_state (\<lambda>(self, _).
          case db_conn self of
            Some c \<Rightarrow> bind_act (on_db (sql_reconnect S c)) (\<lambda>_. return_act ())
          | None \<Rightarrow>
              bind_act (on_db (sql_connect S (db_host self) (db_user self) (db_password self))) (\<lambda>conn.
              bind_act (modify_act (\<lambda>(self, w). (self\<lparr>db_conn := conn\<rparr>, w))) (\<lambda>_.
              on_db (deref conn (\<lambda>c. sql_setSchema S c (db_database self)))))))
       sql_to_db"

subsection \<open>Clean-up\<close>

text \<open>The two loops end when the driver says so; an endless one is \<open>None\<close>.\<close>

partial_function (option) consume_rows ::
    "'w sql_ops \<Rightarrow> handle \<Rightarrow> 'w \<Rightarrow> ((db_exn, unit) outcome \<times> 'w) option" where
  "consume_rows S rows w =
     (case sql_next S rows w of
        (Ok b, w1) \<Rightarrow> if b then consume_rows S rows w1 else Some (Ok (), w1)
      | (Throw e, w1) \<Rightarrow> Some (Throw e, w1)
      | (Crash x, w1) \<Rightarrow> Some (Crash x, w1))"

partial_function (option) consume_results ::
    "'w sql_ops \<Rightarrow> handle \<Rightarrow> 'w \<Rightarrow> ((db_exn, unit) outcome \<times> 'w) option" where
  "consume_results S stmt w =
     (case sql_getMoreResults S stmt w of
        (Throw e, w1) \<Rightarrow> Some (Throw e, w1)
      | (Crash x, w1) \<Rightarrow> Some (Crash x, w1)
      | (Ok b, w1) \<Rightarrow>
          if \<not> b then Some (Ok (), w1)
          else (case sql_getResultSet S stmt w1 of
             (Throw e, w2) \<Rightarrow> Some (Throw e, w2)
           | (Crash x, w2) \<Rightarrow> Some (Crash x, w2)
           | (Ok p, w2) \<Rightarrow>
               Option.bind
                 (case p of None \<Rightarrow> Some (Ok (), w2) | Some rows \<Rightarrow> consume_rows S rows w2)
                 (\<lambda>(r, w3). case r of
                    Ok _ \<Rightarrow> consume_results S stmt w3
                  | Throw e \<Rightarrow> Some (Throw e, w3)
                  | Crash x \<Rightarrow> Some (Crash x, w3))))"

definition finish_transaction :: "'w sql_ops \<Rightarrow> handle \<Rightarrow> (db_exn, 'w, handle) action" where
  \<comment> \<open>up to the creation of the statement\<close>
  "finish_transaction S c =
     bind_act (sql_getAutoCommit S c) (\<lambda>auto.
     bind_act (if \<not> auto then bind_act (sql_rollback S c) (\<lambda>_. sql_setAutoCommit S c True)
               else return_act ()) (\<lambda>_.
     sql_createStatement S c))"

definition cleanup ::
    "'w sql_ops \<Rightarrow> db_connection \<times> 'w \<Rightarrow> ((db_exn, unit) outcome \<times> (db_connection \<times> 'w)) option" where
  "cleanup S s =
     (case db_conn (fst s) of
        None \<Rightarrow> Some (Ok (), s)
      | Some c \<Rightarrow>
          map_option
            (\<lambda>(r, w). case r of
               Throw _ \<Rightarrow> catch_act (reconnect S) (\<lambda>_. return_act ()) (fst s, w)
             | _ \<Rightarrow> (r, (fst s, w)))
            (case finish_transaction S c (snd s) of
               (Ok stmt, w) \<Rightarrow> consume_results S stmt w
             | (Throw e, w) \<Rightarrow> Some (Throw e, w)
             | (Crash x, w) \<Rightarrow> Some (Crash x, w)))"

definition DbConnection_destructor ::
    "'w sql_ops \<Rightarrow> db_connection \<times> 'w \<Rightarrow> ((db_exn, unit) outcome \<times> (db_connection \<times> 'w)) option" where
  \<comment> \<open>\<open>cleanup\<close> may connect again before the object goes; no exception leaves\<close>
  "DbConnection_destructor S s =
     map_option (\<lambda>(r, s'). (case r of Throw _ \<Rightarrow> Ok () | _ \<Rightarrow> r, s')) (cleanup S s)"

subsection \<open>Prepared statements\<close>

datatype sql_param = PString bytes | PInt int    \<comment> \<open>a \<open>string\<close>, an integer for \<open>to_string\<close>\<close>

definition param_text :: "sql_param \<Rightarrow> bytes" where
  "param_text p = (case p of PString s \<Rightarrow> s | PInt n \<Rightarrow> int_to_dec n)"

fun bindParams :: "'w sql_ops \<Rightarrow> handle \<Rightarrow> int \<Rightarrow> sql_param list \<Rightarrow> (db_exn, 'w, unit) action" where
  "bindParams S stmt index [] = return_act ()"
| "bindParams S stmt index (p # args) =
     bind_act (sql_setString S stmt index (param_text p)) (\<lambda>_. bindParams S stmt (index + 1) args)"

definition executeQuery ::
    "'w sql_ops \<Rightarrow> db_connection \<Rightarrow> bytes \<Rightarrow> sql_param list \<Rightarrow> (db_exn, 'w, handle) action" where
  "executeQuery S self sql args =
     catch_act
       (deref (db_conn self) (\<lambda>c.
          bind_act (sql_prepareStatement S c sql) (\<lambda>stmt.
          bind_act (bindParams S stmt 1 args) (\<lambda>_. sql_preparedQuery S stmt))))
       sql_to_db"

definition executeUpdate ::
    "'w sql_ops \<Rightarrow> db_connection \<Rightarrow> bytes \<Rightarrow> sql_param list \<Rightarrow> (db_exn, 'w, int) action" where
  "executeUpdate S self sql args =
     catch_act
       (deref (db_conn self) (\<lambda>c.
          bind_act (sql_prepareStatement S c sql) (\<lambda>stmt.
          bind_act (bindParams S stmt 1 args) (\<lambda>_. sql_preparedUpdate S stmt))))
       sql_to_db"

subsection \<open>Which exceptions leave\<close>

lemma sql_to_db_converts: "fst (sql_to_db e w) \<noteq> Throw (SQLException m)"
  by (cases e) (simp_all add: sql_to_db_def act_simps)

lemma catch_sql_to_db: "fst (catch_act m sql_to_db w) \<noteq> Throw (SQLException x)"
  by (auto simp: catch_act_def sql_to_db_converts split: prod.split outcome.split)

lemma no_sql_exception_leaves:
  "fst (executeQuery S self sql args w) \<noteq> Throw (SQLException m)"
  "fst (executeUpdate S self sql args w) \<noteq> Throw (SQLException m)"
  "fst (reconnect S s) \<noteq> Throw (SQLException m)"
  "fst (DbConnection S h u p d w) \<noteq> Throw (SQLException m)"
  unfolding executeQuery_def executeUpdate_def reconnect_def DbConnection_def
  by (rule catch_sql_to_db)+

lemma ping_catches:
  "fst (ping S self w) \<noteq> Throw (SQLException m)"
  by (auto simp: ping_def catch_act_def act_simps split: prod.split outcome.split db_exn.split)

lemma destructor_catches:
  assumes "DbConnection_destructor S s = Some (r, s')"
  shows "r \<noteq> Throw e"
proof -
  obtain a t where "cleanup S s = Some (a, t)" using assms by (auto simp: DbConnection_destructor_def)
  with assms show ?thesis by (cases a) (auto simp: DbConnection_destructor_def)
qed

end
