(* ===== verification/Db_Pool.thy ===== *)
theory Db_Pool
  imports Db_Connection "HOL-Library.Multiset"
begin

section \<open>DbConnectionPool\<close>

text \<open>
  \<open>HttpServer/include/utils/db/DbConnectionPool.h\<close>, \<open>MysqlUtil.h\<close> and
  \<open>HttpServer/src/utils/db/DbConnectionPool.cpp\<close>: the connections shared by all threads.  A
  connection is a number; \<open>po_objects\<close> is where its object is.  The parts of the code that run
  under the mutex of the pool are functions, and \<open>pool_step\<close> interleaves them with the parts
  that do not: any number of client threads that call \<open>getConnection\<close> and later drop what they
  got, threads that call \<open>init\<close>, and the checking thread.
\<close>

type_synonym conn_id = nat

record db_pool =
  po_host :: bytes
  po_user :: bytes
  po_password :: bytes
  po_database :: bytes
  po_connections :: "conn_id list"          \<comment> \<open>the queue, front first\<close>
  po_initialized :: bool
  po_objects :: "conn_id \<Rightarrow> db_connection"
  po_next :: conn_id                        \<comment> \<open>how many were made\<close>

definition new_pool :: db_pool where
  "new_pool = \<lparr>po_host = [], po_user = [], po_password = [], po_database = [], po_connections = [],
     po_initialized = False, po_objects = (\<lambda>_. \<lparr>db_conn = None, db_host = [], db_user = [],
       db_password = [], db_database = []\<rparr>), po_next = 0\<rparr>"

definition on_sql :: "('e, 'w, 'a) action \<Rightarrow> ('e, db_pool \<times> 'w, 'a) action" where
  "on_sql m s = (let (r, w) = m (snd s) in (r, (fst s, w)))"

definition on_object ::
    "conn_id \<Rightarrow> ('e, db_connection \<times> 'w, 'a) action \<Rightarrow> ('e, db_pool \<times> 'w, 'a) action" where
  "on_object a m s =
     (let (r, (c, w)) = m (po_objects (fst s) a, snd s)
      in (r, ((fst s)\<lparr>po_objects := (po_objects (fst s))(a := c)\<rparr>, w)))"

subsection \<open>Making connections\<close>

definition createConnection :: "'w sql_ops \<Rightarrow> (db_exn, db_pool \<times> 'w, conn_id) action" where
  "createConnection S =
     with_state (\<lambda>(po, _).
       bind_act
         (on_sql (DbConnection S (po_host po) (po_user po) (po_password po) (po_database po)))
         (\<lambda>c. bind_act
            (modify_act (\<lambda>(po, w). (po\<lparr>po_objects := (po_objects po)(po_next po := c),
                                       po_next := po_next po + 1\<rparr>, w)))
            (\<lambda>_. return_act (po_next po))))"

definition push_connection :: "conn_id \<Rightarrow> db_pool \<Rightarrow> db_pool" where
  "push_connection a po = po\<lparr>po_connections := po_connections po @ [a]\<rparr>"

fun create_loop :: "'w sql_ops \<Rightarrow> nat \<Rightarrow> (db_exn, db_pool \<times> 'w, unit) action" where
  "create_loop S 0 = return_act ()"
| "create_loop S (Suc n) =
     bind_act (createConnection S) (\<lambda>a.
     bind_act (modify_act (\<lambda>(po, w). (push_connection a po, w))) (\<lambda>_. create_loop S n))"

definition init ::
    "'w sql_ops \<Rightarrow> bytes \<Rightarrow> bytes \<Rightarrow> bytes \<Rightarrow> bytes \<Rightarrow> nat \<Rightarrow> (db_exn, db_pool \<times> 'w, unit) action" where
  "init S host user password database poolSize =
     with_state (\<lambda>(po, _).
       if po_initialized po then return_act ()
       else bind_act
              (modify_act (\<lambda>(po, w). (po\<lparr>po_host := host, po_user := user, po_password := password,
                                         po_database := database\<rparr>, w)))
              (\<lambda>_. bind_act (create_loop S poolSize)
              (\<lambda>_. modify_act (\<lambda>(po, w). (po\<lparr>po_initialized := True\<rparr>, w)))))"

subsection \<open>The locked and unlocked parts of getConnection and checkConnections\<close>

definition take_connection :: "(db_exn, db_pool, conn_id option) action" where
  \<comment> \<open>one turn of the \<open>while\<close>, with what follows it: \<open>None\<close> is \<open>cv_.wait\<close>\<close>
  "take_connection po =
     (if po_connections po = []
      then if \<not> po_initialized po
           then (Throw (DbException ''Connection pool not initialized''), po)
           else (Ok None, po)
      else (Ok (Some (hd (po_connections po))), po\<lparr>po_connections := tl (po_connections po)\<rparr>))"

definition ping_object :: "'w sql_ops \<Rightarrow> conn_id \<Rightarrow> (db_exn, db_pool \<times> 'w, bool) action" where
  "ping_object S a s = on_sql (ping S (po_objects (fst s) a)) s"

definition probe :: "'w sql_ops \<Rightarrow> conn_id \<Rightarrow> (db_exn, db_pool \<times> 'w, unit) action" where
  \<comment> \<open>the \<open>if\<close> of \<open>getConnection\<close>\<close>
  "probe S a =
     bind_act (ping_object S a) (\<lambda>alive.
       if \<not> alive then on_object a (reconnect S) else return_act ())"

definition check_connection :: "'w sql_ops \<Rightarrow> conn_id \<Rightarrow> (db_exn, db_pool \<times> 'w, unit) action" where
  \<comment> \<open>the body of the \<open>for\<close> of \<open>checkConnections\<close>\<close>
  "check_connection S a =
     bind_act (ping_object S a) (\<lambda>alive.
       if \<not> alive then catch_act (on_object a (reconnect S)) (\<lambda>_. return_act ()) else return_act ())"

fun destroy_queue ::
    "'w sql_ops \<Rightarrow> conn_id list \<Rightarrow> db_pool \<times> 'w \<Rightarrow> ((db_exn, unit) outcome \<times> (db_pool \<times> 'w)) option" where
  \<comment> \<open>the queue has the last \<open>shared_ptr\<close> of each connection\<close>
  "destroy_queue S [] s = Some (Ok (), s)"
| "destroy_queue S (a # as) (po, w) =
     Option.bind (DbConnection_destructor S (po_objects po a, w)) (\<lambda>(r, (c, w1)).
       let s1 = (po\<lparr>po_connections := as, po_objects := (po_objects po)(a := c)\<rparr>, w1)
       in case r of Ok _ \<Rightarrow> destroy_queue S as s1 | _ \<Rightarrow> Some (r, s1))"

definition DbConnectionPool_destructor ::
    "'w sql_ops \<Rightarrow> db_pool \<times> 'w \<Rightarrow> ((db_exn, unit) outcome \<times> (db_pool \<times> 'w)) option" where
  \<comment> \<open>when the program ends and no client holds a connection; the checking thread is detached and not ended\<close>
  "DbConnectionPool_destructor S s = destroy_queue S (po_connections (fst s)) s"

lemma destroy_queue_empties:
  "destroy_queue S as s = Some (Ok (), s') \<Longrightarrow> po_connections (fst s) = as \<Longrightarrow> po_connections (fst s') = []"
proof (induction as arbitrary: s)
  case (Cons a as)
  obtain po w where s: "s = (po, w)" by fastforce
  obtain r c w1 where d: "DbConnection_destructor S (po_objects po a, w) = Some (r, (c, w1))"
    using Cons.prems(1) s by (auto split: bind_splits)
  with Cons.prems(1) s have "r = Ok ()" by (cases r) (auto simp: Let_def)
  with Cons d s show ?case by (auto simp: Let_def)
qed simp

lemma destructor_empties: "DbConnectionPool_destructor S s = Some (Ok (), s') \<Longrightarrow> po_connections (fst s') = []"
  unfolding DbConnectionPool_destructor_def by (erule destroy_queue_empties) simp

subsection \<open>The threads\<close>

datatype client =
  Outside                \<comment> \<open>not in \<open>getConnection\<close>, holding nothing\<close>
| Asleep                 \<comment> \<open>in \<open>cv_.wait\<close>\<close>
| Woken                  \<comment> \<open>about to leave \<open>cv_.wait\<close> and look again\<close>
| Probing conn_id        \<comment> \<open>has taken a connection and checks it, without the lock\<close>
| Failed conn_id         \<comment> \<open>in the \<open>catch\<close>, about to put it back\<close>
| Holding conn_id        \<comment> \<open>has the \<open>shared_ptr\<close>; dropping it runs the deleter\<close>

datatype checker = Idle | SleepingLocked | Scanning "conn_id list"

record 'w pool_system =
  ps_pool :: db_pool
  ps_world :: 'w
  ps_clients :: "client list"
  ps_checker :: checker

definition pool_start :: "nat \<Rightarrow> 'w \<Rightarrow> 'w pool_system" where
  "pool_start n w =
     \<lparr>ps_pool = new_pool, ps_world = w, ps_clients = replicate n Outside, ps_checker = Idle\<rparr>"

definition unlocked :: "'w pool_system \<Rightarrow> bool" where
  "unlocked s \<longleftrightarrow> ps_checker s \<noteq> SleepingLocked"

inductive notify_one :: "client list \<Rightarrow> client list \<Rightarrow> bool" where
  wake: "j < length cs \<Longrightarrow> cs ! j = Asleep \<Longrightarrow> notify_one cs (cs[j := Woken])"
| nobody: "Asleep \<notin> set cs \<Longrightarrow> notify_one cs cs"

inductive pool_step :: "'w sql_ops \<Rightarrow> 'w pool_system \<Rightarrow> 'w pool_system \<Rightarrow> bool" for S where
  take_it: "unlocked s \<Longrightarrow> i < length (ps_clients s) \<Longrightarrow> ps_clients s ! i \<in> {Outside, Woken} \<Longrightarrow>
    take_connection (ps_pool s) = (Ok (Some a), po) \<Longrightarrow>
    pool_step S s (s\<lparr>ps_pool := po, ps_clients := (ps_clients s)[i := Probing a]\<rparr>)"
| wait: "unlocked s \<Longrightarrow> i < length (ps_clients s) \<Longrightarrow> ps_clients s ! i \<in> {Outside, Woken} \<Longrightarrow>
    take_connection (ps_pool s) = (Ok None, po) \<Longrightarrow>
    pool_step S s (s\<lparr>ps_pool := po, ps_clients := (ps_clients s)[i := Asleep]\<rparr>)"
| refuse: "unlocked s \<Longrightarrow> i < length (ps_clients s) \<Longrightarrow> ps_clients s ! i \<in> {Outside, Woken} \<Longrightarrow>
    take_connection (ps_pool s) = (Throw e, po) \<Longrightarrow>
    pool_step S s (s\<lparr>ps_pool := po, ps_clients := (ps_clients s)[i := Outside]\<rparr>)"
| spurious: "i < length (ps_clients s) \<Longrightarrow> ps_clients s ! i = Asleep \<Longrightarrow>
    pool_step S s (s\<lparr>ps_clients := (ps_clients s)[i := Woken]\<rparr>)"
| probed: "i < length (ps_clients s) \<Longrightarrow> ps_clients s ! i = Probing a \<Longrightarrow>
    probe S a (ps_pool s, ps_world s) = (Ok (), (po, w)) \<Longrightarrow>
    pool_step S s (s\<lparr>ps_pool := po, ps_world := w, ps_clients := (ps_clients s)[i := Holding a]\<rparr>)"
| probe_failed: "i < length (ps_clients s) \<Longrightarrow> ps_clients s ! i = Probing a \<Longrightarrow>
    probe S a (ps_pool s, ps_world s) = (Throw e, (po, w)) \<Longrightarrow>
    pool_step S s (s\<lparr>ps_pool := po, ps_world := w, ps_clients := (ps_clients s)[i := Failed a]\<rparr>)"
| give_back: "unlocked s \<Longrightarrow> i < length (ps_clients s) \<Longrightarrow>
    ps_clients s ! i \<in> {Holding a, Failed a} \<Longrightarrow>
    notify_one ((ps_clients s)[i := Outside]) cs \<Longrightarrow>
    pool_step S s (s\<lparr>ps_pool := push_connection a (ps_pool s), ps_clients := cs\<rparr>)"
| init: "unlocked s \<Longrightarrow>
    init S host user password database n (ps_pool s, ps_world s) = (r, (po, w)) \<Longrightarrow>
    pool_step S s (s\<lparr>ps_pool := po, ps_world := w\<rparr>)"
| check_empty: "ps_checker s = Idle \<Longrightarrow> po_connections (ps_pool s) = [] \<Longrightarrow>
    pool_step S s (s\<lparr>ps_checker := SleepingLocked\<rparr>)"
| check_again: "ps_checker s = SleepingLocked \<Longrightarrow> pool_step S s (s\<lparr>ps_checker := Idle\<rparr>)"
| snapshot: "ps_checker s = Idle \<Longrightarrow> po_connections (ps_pool s) \<noteq> [] \<Longrightarrow>
    pool_step S s (s\<lparr>ps_checker := Scanning (po_connections (ps_pool s))\<rparr>)"
| checked: "ps_checker s = Scanning (a # rest) \<Longrightarrow>
    check_connection S a (ps_pool s, ps_world s) = (Ok (), (po, w)) \<Longrightarrow>
    pool_step S s (s\<lparr>ps_pool := po, ps_world := w, ps_checker := Scanning rest\<rparr>)"
| check_threw: "ps_checker s = Scanning (a # rest) \<Longrightarrow>
    check_connection S a (ps_pool s, ps_world s) = (Throw e, (po, w)) \<Longrightarrow>
    pool_step S s (s\<lparr>ps_pool := po, ps_world := w, ps_checker := Idle\<rparr>)"
| scan_done: "ps_checker s = Scanning [] \<Longrightarrow> pool_step S s (s\<lparr>ps_checker := Idle\<rparr>)"

inductive pool_reachable :: "'w sql_ops \<Rightarrow> nat \<Rightarrow> 'w \<Rightarrow> 'w pool_system \<Rightarrow> bool" for S n w where
  start: "pool_reachable S n w (pool_start n w)"
| step: "pool_reachable S n w s \<Longrightarrow> pool_step S s s' \<Longrightarrow> pool_reachable S n w s'"

subsection \<open>MysqlUtil\<close>

text \<open>
  What \<open>MysqlUtil::executeQuery\<close> and \<open>executeUpdate\<close> do once \<open>getConnection\<close> has given them the
  connection \<open>a\<close>: the statement runs on its object while they hold it.  (The result set of a
  query is returned after the connection went back to the pool and the statement was freed.)
\<close>

definition query_on ::
    "'w sql_ops \<Rightarrow> conn_id \<Rightarrow> bytes \<Rightarrow> sql_param list \<Rightarrow> (db_exn, db_pool \<times> 'w, handle) action" where
  "query_on S a sql args s = on_sql (executeQuery S (po_objects (fst s) a) sql args) s"

definition update_on ::
    "'w sql_ops \<Rightarrow> conn_id \<Rightarrow> bytes \<Rightarrow> sql_param list \<Rightarrow> (db_exn, db_pool \<times> 'w, int) action" where
  "update_on S a sql args s = on_sql (executeUpdate S (po_objects (fst s) a) sql args) s"

end
