(* ===== verification/Pool_Properties.thy ===== *)
theory Pool_Properties
  imports Db_Pool
begin

section \<open>What the connection pool keeps\<close>

text \<open>
  The invariants of the pool under every interleaving: each connection is in exactly one place
  (the queue or one client), none is lost, no waiting client is forgotten; and what the checking
  thread does beside them.
\<close>

subsection \<open>What leaves the queue alone\<close>

definition same_queue :: "db_pool \<Rightarrow> db_pool \<Rightarrow> bool" where
  "same_queue po po' \<longleftrightarrow> po_connections po' = po_connections po \<and> po_next po' = po_next po \<and>
     po_initialized po' = po_initialized po"

definition keeps_queue :: "('e, db_pool \<times> 'w, 'a) action \<Rightarrow> bool" where
  "keeps_queue m \<longleftrightarrow> (\<forall>po w. same_queue po (fst (snd (m (po, w)))))"

lemma same_queue_refl [simp]: "same_queue po po"
  by (simp add: same_queue_def)

lemma keeps_queueD: "keeps_queue m \<Longrightarrow> m (po, w) = (r, (po', w')) \<Longrightarrow> same_queue po po'"
  by (metis fst_conv keeps_queue_def snd_conv)

lemma keeps_on_sql [intro]: "keeps_queue (on_sql m)"
  by (simp add: keeps_queue_def on_sql_def split: prod.split)

lemma keeps_on_object [intro]: "keeps_queue (on_object a m)"
  by (simp add: keeps_queue_def on_object_def same_queue_def split: prod.split)

lemma keeps_return [intro]: "keeps_queue (return_act x)"
  by (simp add: keeps_queue_def return_act_def)

lemma keeps_bind [intro]:
  assumes "keeps_queue m" and "\<And>x. keeps_queue (f x)"
  shows "keeps_queue (bind_act m f)"
  unfolding keeps_queue_def
proof (intro allI)
  fix po w
  obtain r po1 w1 where m: "m (po, w) = (r, (po1, w1))" by (metis prod.collapse)
  have 1: "same_queue po po1" using keeps_queueD [OF assms(1) m] .
  show "same_queue po (fst (snd (bind_act m f (po, w))))"
  proof (cases r)
    case (Ok x)
    have "same_queue po1 (fst (snd (f x (po1, w1))))"
      using assms(2) [of x] unfolding keeps_queue_def by blast
    then show ?thesis using 1 by (simp add: Ok m bind_act_def same_queue_def)
  qed (use 1 in \<open>simp_all add: m bind_act_def\<close>)
qed

lemma keeps_catch [intro]:
  assumes "keeps_queue m" and "\<And>x. keeps_queue (h x)"
  shows "keeps_queue (catch_act m h)"
  unfolding keeps_queue_def
proof (intro allI)
  fix po w
  obtain r po1 w1 where m: "m (po, w) = (r, (po1, w1))" by (metis prod.collapse)
  have 1: "same_queue po po1" using keeps_queueD [OF assms(1) m] .
  show "same_queue po (fst (snd (catch_act m h (po, w))))"
  proof (cases r)
    case (Throw x)
    have "same_queue po1 (fst (snd (h x (po1, w1))))"
      using assms(2) [of x] unfolding keeps_queue_def by blast
    then show ?thesis using 1 by (simp add: Throw m catch_act_def same_queue_def)
  qed (use 1 in \<open>simp_all add: m catch_act_def\<close>)
qed

lemma keeps_ping: "keeps_queue (ping_object S a)"
  by (simp add: keeps_queue_def ping_object_def on_sql_def split: prod.split)

lemma keeps_probe: "keeps_queue (probe S a)"
  unfolding probe_def
  by (rule keeps_bind [OF keeps_ping]) (simp add: keeps_return keeps_on_object)

lemma keeps_check: "keeps_queue (check_connection S a)"
  unfolding check_connection_def
  by (rule keeps_bind [OF keeps_ping]) (simp add: keeps_return keeps_on_object keeps_catch)

lemmas probe_keeps = keeps_queueD [OF keeps_probe] and check_keeps = keeps_queueD [OF keeps_check]

subsection \<open>What init adds\<close>

definition grown :: "db_pool \<Rightarrow> nat \<Rightarrow> db_pool \<Rightarrow> bool" where
  "grown po k po' \<longleftrightarrow> po_connections po' = po_connections po @ [po_next po..<po_next po + k] \<and>
     po_next po' = po_next po + k"

lemma grown_zero: "same_queue po po' \<Longrightarrow> grown po 0 po'"
  by (simp add: grown_def same_queue_def)

lemma grown_trans: "grown po i po1 \<Longrightarrow> grown po1 j po2 \<Longrightarrow> grown po (i + j) po2"
  unfolding grown_def by (metis add.assoc append.assoc upt_add_eq_append le_add1)

lemma createConnection_run:
  assumes "createConnection S (po, w) = (r, (po', w'))"
  shows "(\<exists>a. r = Ok a \<and> a = po_next po \<and> po_connections po' = po_connections po \<and>
            po_next po' = Suc (po_next po) \<and> po_initialized po' = po_initialized po) \<or>
         ((\<forall>a. r \<noteq> Ok a) \<and> same_queue po po')"
  using assms
  by (auto simp: createConnection_def act_simps bind_act_def on_sql_def same_queue_def
      split: prod.splits outcome.splits)

lemma create_loop_run:
  assumes "create_loop S n (po, w) = (r, (po', w'))"
  shows "\<exists>k\<le>n. grown po k po' \<and> po_initialized po' = po_initialized po \<and> (r = Ok () \<longleftrightarrow> k = n)"
  using assms
proof (induction n arbitrary: po w)
  case 0
  then show ?case by (auto simp: return_act_def grown_def)
next
  case (Suc n)
  obtain r1 po1 w1 where c: "createConnection S (po, w) = (r1, (po1, w1))" by (metis prod.collapse)
  note run = createConnection_run [OF c]
  show ?case
  proof (cases r1)
    case (Ok a)
    with run have po1: "a = po_next po" "po_connections po1 = po_connections po"
      "po_next po1 = Suc (po_next po)" "po_initialized po1 = po_initialized po" by auto
    have "create_loop S n (push_connection a po1, w1) = (r, (po', w'))"
      using Suc.prems c Ok by (simp add: bind_act_def modify_act_def)
    from Suc.IH [OF this] obtain k where k: "k \<le> n" "grown (push_connection a po1) k po'"
      "po_initialized po' = po_initialized (push_connection a po1)" "r = Ok () \<longleftrightarrow> k = n" by blast
    have "grown po 1 (push_connection a po1)"
      using po1 by (simp add: grown_def push_connection_def)
    from grown_trans [OF this k(2)] have "grown po (Suc k) po'" by simp
    moreover have "po_initialized po' = po_initialized po"
      using k(3) po1(4) by (simp add: push_connection_def)
    ultimately show ?thesis using k(1,4) by (intro exI [of _ "Suc k"]) simp
  next
    case (Throw e)
    then have "same_queue po po1" "r = Throw e" "po' = po1"
      using run c Suc.prems by (auto simp: bind_act_def)
    then show ?thesis by (intro exI [of _ 0]) (auto simp: grown_zero same_queue_def)
  next
    case (Crash x)
    then have "same_queue po po1" "r = Crash x" "po' = po1"
      using run c Suc.prems by (auto simp: bind_act_def)
    then show ?thesis by (intro exI [of _ 0]) (auto simp: grown_zero same_queue_def)
  qed
qed

lemma init_run:
  assumes "init S host user password database n (po, w) = (r, (po', w'))"
  shows "if po_initialized po then po' = po \<and> r = Ok ()
         else \<exists>k\<le>n. grown po k po' \<and> (r = Ok () \<longleftrightarrow> k = n) \<and> (po_initialized po' \<longleftrightarrow> k = n)"
proof (cases "po_initialized po")
  case True
  then show ?thesis using assms by (simp add: init_def act_simps)
next
  case False
  let ?po = "po\<lparr>po_host := host, po_user := user, po_password := password, po_database := database\<rparr>"
  obtain r1 po1 w1 where c: "create_loop S n (?po, w) = (r1, (po1, w1))" by (metis prod.collapse)
  from create_loop_run [OF c] obtain k where k: "k \<le> n" "grown ?po k po1"
    "po_initialized po1 = po_initialized ?po" "r1 = Ok () \<longleftrightarrow> k = n" by blast
  have "r = r1 \<and> (if r1 = Ok () then po' = po1\<lparr>po_initialized := True\<rparr> else po' = po1)"
    using assms False c by (cases r1) (auto simp: init_def act_simps bind_act_def)
  then show ?thesis
    using k False by (auto simp: grown_def split: if_splits intro!: exI [of _ k])
qed

subsection \<open>The invariant\<close>

fun held :: "client \<Rightarrow> conn_id list" where
  "held (Probing a) = [a]"
| "held (Failed a) = [a]"
| "held (Holding a) = [a]"
| "held _ = []"

definition all_held :: "client list \<Rightarrow> conn_id list" where
  "all_held cs = concat (map held cs)"

definition conserved :: "'w pool_system \<Rightarrow> bool" where
  \<comment> \<open>every connection ever made is in the queue or with one client, once\<close>
  "conserved s \<longleftrightarrow> mset (po_connections (ps_pool s)) + mset (all_held (ps_clients s)) =
     mset [0..<po_next (ps_pool s)]"

definition wakeups :: "'w pool_system \<Rightarrow> bool" where
  \<comment> \<open>no more connections wait in the queue than clients are on their way to it\<close>
  "wakeups s \<longleftrightarrow> (Asleep \<in> set (ps_clients s) \<longrightarrow> po_initialized (ps_pool s) \<and>
     length (po_connections (ps_pool s)) \<le> count (mset (ps_clients s)) Woken)"

lemma all_held_update:
  assumes "i < length cs"
  shows "mset (all_held (cs[i := c])) + mset (held (cs ! i)) = mset (all_held cs) + mset (held c)"
  using assms
proof (induction cs arbitrary: i)
  case (Cons x cs)
  then show ?case
    by (cases i) (auto simp: all_held_def ac_simps)
qed simp

lemma count_update:
  assumes "i < length cs"
  shows "count (mset (cs[i := c])) v + (if cs ! i = v then 1 else 0) =
    count (mset cs) v + (if c = v then 1 else 0)"
proof -
  have "cs ! i \<in># mset cs" using assms by simp
  then obtain M where M: "mset cs = add_mset (cs ! i) M" by (metis multi_member_split)
  then have "mset (cs[i := c]) = add_mset c M" using assms by (simp add: mset_update)
  then show ?thesis by (simp add: M)
qed

lemma notify_held: "notify_one cs cs' \<Longrightarrow> mset (all_held cs') = mset (all_held cs)"
  by (induction rule: notify_one.induct) (use all_held_update in fastforce)+

lemma notify_wakes:
  assumes "notify_one cs cs'" and "Asleep \<in> set cs'"
  shows "Asleep \<in> set cs" "count (mset cs') Woken = count (mset cs) Woken + 1"
proof -
  from assms(1) show "Asleep \<in> set cs"
    using assms(2) by (cases rule: notify_one.cases) (auto simp: in_set_conv_nth)
  from assms show "count (mset cs') Woken = count (mset cs) Woken + 1"
    by (cases rule: notify_one.cases) (use count_update [of _ cs Woken Woken] in fastforce)+
qed

lemma held_outside: "held c = [] \<Longrightarrow> i < length cs \<Longrightarrow> cs ! i = c \<Longrightarrow>
    mset (all_held (cs[i := x])) = mset (all_held cs) + mset (held x)"
  using all_held_update [of i cs x] by simp

lemma sleeper_update:
  "Asleep \<in> set (cs[i := c]) \<Longrightarrow> c \<noteq> Asleep \<Longrightarrow> Asleep \<in> set cs"
  using set_update_subset_insert [of cs i c] by auto

text \<open>The two halves of the invariant, step by step.\<close>

lemma take_connection_run:
  assumes "take_connection po = (r, po')"
  shows "(case r of
      Ok (Some a) \<Rightarrow> po_connections po = a # po_connections po'
    | Ok None \<Rightarrow> po_connections po = [] \<and> po_initialized po \<and> po' = po
    | Throw e \<Rightarrow> po_connections po = [] \<and> \<not> po_initialized po \<and> po' = po
    | Crash _ \<Rightarrow> False) \<and> po_next po' = po_next po \<and> po_initialized po' = po_initialized po"
  using assms by (auto simp: take_connection_def split: if_splits)

lemma grown_conserves:
  assumes "grown po k po'" "mset (po_connections po) + M = mset [0..<po_next po]"
  shows "mset (po_connections po') + M = mset [0..<po_next po']"
proof -
  have "[0..<po_next po + k] = [0..<po_next po] @ [po_next po..<po_next po + k]"
    by (rule upt_add_eq_append) simp
  then have "mset [0..<po_next po'] = mset [0..<po_next po] + mset [po_next po..<po_next po + k]"
    using assms(1) by (simp only: grown_def mset_append)
  also have "\<dots> = mset (po_connections po) + M + mset [po_next po..<po_next po + k]"
    by (simp only: assms(2))
  also have "\<dots> = mset (po_connections po') + M"
    using assms(1) by (simp only: grown_def mset_append ac_simps)
  finally show ?thesis by simp
qed

lemma conserved_step:
  assumes "pool_step S s s'" and inv: "conserved s"
  shows "conserved s'"
  using assms(1)
proof cases
  case (take_it i a po)
  then show ?thesis
    using inv take_connection_run [OF take_it(5)] held_outside [of _ i "ps_clients s" "Probing a"]
    by (auto simp: conserved_def ac_simps)
next
  case (wait i po)
  then show ?thesis
    using inv take_connection_run [OF wait(5)] held_outside [of _ i "ps_clients s" Asleep]
    by (auto simp: conserved_def)
next
  case (refuse i e po)
  then show ?thesis
    using inv take_connection_run [OF refuse(5)] held_outside [of _ i "ps_clients s" Outside]
    by (auto simp: conserved_def)
next
  case (spurious i)
  then show ?thesis
    using inv held_outside [of Asleep i "ps_clients s" Woken] by (simp add: conserved_def)
next
  case (probed i a po w)
  then show ?thesis
    using inv probe_keeps [OF probed(4)] all_held_update [of i "ps_clients s" "Holding a"]
    by (simp add: conserved_def same_queue_def)
next
  case (probe_failed i a e po w)
  then show ?thesis
    using inv probe_keeps [OF probe_failed(4)] all_held_update [of i "ps_clients s" "Failed a"]
    by (simp add: conserved_def same_queue_def)
next
  case (give_back i a cs)
  have "mset (all_held (ps_clients s)) = mset (all_held cs) + {#a#}"
    using give_back(4) notify_held [OF give_back(5)]
      all_held_update [OF give_back(3), of Outside] by auto
  then show ?thesis
    using inv give_back by (simp add: conserved_def push_connection_def ac_simps)
next
  case (init host user password database n r po w)
  show ?thesis
    using inv init init_run [OF init(3)] grown_conserves
    by (auto simp: conserved_def split: if_splits)
next
  case (checked a rest po w)
  then show ?thesis
    using inv check_keeps [OF checked(3)] by (simp add: conserved_def same_queue_def)
next
  case (check_threw a rest e po w)
  then show ?thesis
    using inv check_keeps [OF check_threw(3)] by (simp add: conserved_def same_queue_def)
qed (use inv in \<open>simp_all add: conserved_def\<close>)

lemma wakeups_update:
  \<comment> \<open>a client leaves \<open>Outside\<close> or \<open>Woken\<close>, and at least one connection is taken if it was woken\<close>
  assumes inv: "wakeups s" and i: "i < length (ps_clients s)" "ps_clients s ! i \<noteq> Asleep"
    and c: "c \<noteq> Asleep"
    and q: "po_initialized po = po_initialized (ps_pool s)"
      "length (po_connections po) + (if ps_clients s ! i = Woken then 1 else 0)
        \<le> length (po_connections (ps_pool s))"
  shows "wakeups (s\<lparr>ps_pool := po, ps_clients := (ps_clients s)[i := c]\<rparr>)"
proof -
  have "Asleep \<in> set ((ps_clients s)[i := c]) \<Longrightarrow>
      length (po_connections po) \<le> count (mset ((ps_clients s)[i := c])) Woken"
  proof -
    assume "Asleep \<in> set ((ps_clients s)[i := c])"
    then have "length (po_connections (ps_pool s)) \<le> count (mset (ps_clients s)) Woken"
      using inv sleeper_update c by (auto simp: wakeups_def)
    then show ?thesis
      using q(2) count_update [OF i(1), of c Woken] by (auto split: if_splits)
  qed
  then show ?thesis
    using inv q(1) c sleeper_update by (auto simp: wakeups_def)
qed

lemma wakeups_same:
  assumes "wakeups s" "i < length (ps_clients s)" "ps_clients s ! i \<notin> {Asleep, Woken}"
    "c \<noteq> Asleep" "same_queue (ps_pool s) po"
  shows "wakeups (s\<lparr>ps_pool := po, ps_world := w, ps_clients := (ps_clients s)[i := c]\<rparr>)"
proof -
  have "wakeups (s\<lparr>ps_pool := po, ps_clients := (ps_clients s)[i := c]\<rparr>)"
    by (rule wakeups_update) (use assms in \<open>auto simp: same_queue_def\<close>)
  then show ?thesis by (simp add: wakeups_def)
qed

lemma wakeups_step:
  assumes "pool_step S s s'" and inv: "wakeups s"
  shows "wakeups s'"
  using assms(1)
proof cases
  case (take_it i a po)
  show ?thesis unfolding take_it(1)
    by (rule wakeups_update [OF inv])
       (use take_it take_connection_run [OF take_it(5)] in auto)
next
  case (wait i po)
  then show ?thesis using take_connection_run [OF wait(5)] by (simp add: wakeups_def)
next
  case (refuse i e po)
  have po: "po_connections po = []" "\<not> po_initialized (ps_pool s)" "po = ps_pool s"
    using take_connection_run [OF refuse(5)] by auto
  then have "Asleep \<notin> set (ps_clients s)" using inv by (auto simp: wakeups_def)
  then show ?thesis
    unfolding refuse(1) using sleeper_update [of "ps_clients s" i Outside] by (auto simp: wakeups_def)
next
  case (spurious i)
  have "count (mset ((ps_clients s)[i := Woken])) Woken = Suc (count (mset (ps_clients s)) Woken)"
    using count_update [OF spurious(2), of Woken Woken] spurious(3) by simp
  then show ?thesis
    unfolding spurious(1)
    using inv sleeper_update [of "ps_clients s" i Woken] by (auto simp: wakeups_def)
next
  case (probed i a po w)
  show ?thesis unfolding probed(1)
    by (rule wakeups_same [OF inv]) (use probed probe_keeps [OF probed(4)] in auto)
next
  case (probe_failed i a e po w)
  show ?thesis unfolding probe_failed(1)
    by (rule wakeups_same [OF inv]) (use probe_failed probe_keeps [OF probe_failed(4)] in auto)
next
  case (give_back i a cs)
  let ?cs = "(ps_clients s)[i := Outside]"
  show ?thesis
    unfolding give_back(1) wakeups_def
  proof
    assume "Asleep \<in> set (ps_clients
      (s\<lparr>ps_pool := push_connection a (ps_pool s), ps_clients := cs\<rparr>))"
    then have asleep: "Asleep \<in> set cs" by simp
    have "count (mset ?cs) Woken = count (mset (ps_clients s)) Woken"
      using count_update [OF give_back(3), of Outside Woken] give_back(4) by auto
    moreover have "Asleep \<in> set (ps_clients s)"
      using notify_wakes(1) [OF give_back(5) asleep] sleeper_update by blast
    ultimately show "po_initialized (ps_pool (s\<lparr>ps_pool := push_connection a (ps_pool s),
          ps_clients := cs\<rparr>)) \<and>
        length (po_connections (ps_pool (s\<lparr>ps_pool := push_connection a (ps_pool s),
          ps_clients := cs\<rparr>))) \<le>
        count (mset (ps_clients (s\<lparr>ps_pool := push_connection a (ps_pool s), ps_clients := cs\<rparr>))) Woken"
      using inv notify_wakes(2) [OF give_back(5) asleep]
      by (simp add: wakeups_def push_connection_def)
  qed
next
  case (init host user password database n r po w)
  show ?thesis
    using inv init init_run [OF init(3)] by (auto simp: wakeups_def)
next
  case (checked a rest po w)
  then show ?thesis
    using inv check_keeps [OF checked(3)] by (simp add: wakeups_def same_queue_def)
next
  case (check_threw a rest e po w)
  then show ?thesis
    using inv check_keeps [OF check_threw(3)] by (simp add: wakeups_def same_queue_def)
qed (use inv in \<open>simp_all add: wakeups_def\<close>)

lemma pool_invariant:
  assumes "pool_reachable S n w s"
  shows "conserved s \<and> wakeups s"
  using assms
proof induction
  case start
  have "all_held (replicate n Outside) = []" by (induction n) (simp_all add: all_held_def)
  then show ?case by (simp add: conserved_def wakeups_def pool_start_def new_pool_def)
next
  case (step s s')
  then show ?case using conserved_step wakeups_step by blast
qed

lemma conserved_distinct:
  assumes "conserved s"
  shows "distinct (po_connections (ps_pool s) @ all_held (ps_clients s))"
    and "set (po_connections (ps_pool s) @ all_held (ps_clients s)) = {0..<po_next (ps_pool s)}"
proof -
  have m: "mset (po_connections (ps_pool s) @ all_held (ps_clients s)) = mset [0..<po_next (ps_pool s)]"
    using assms by (simp add: conserved_def)
  show "distinct (po_connections (ps_pool s) @ all_held (ps_clients s))"
    using mset_eq_imp_distinct_iff [OF m] by simp
  show "set (po_connections (ps_pool s) @ all_held (ps_clients s)) = {0..<po_next (ps_pool s)}"
    using mset_eq_setD [OF m] by simp
qed

subsection \<open>A driver that always works\<close>

definition fine_sql :: "unit sql_ops" where
  "fine_sql = \<lparr>
     sql_connect = \<lambda>_ _ _. return_act (Some 0), sql_setSchema = \<lambda>_ _. return_act (),
     sql_setClientOption = \<lambda>_ _ _. return_act (), sql_createStatement = \<lambda>_. return_act 0,
     sql_execute = \<lambda>_ _. return_act True, sql_executeQuery = \<lambda>_ _. return_act 0,
     sql_prepareStatement = \<lambda>_ _. return_act 0, sql_setString = \<lambda>_ _ _. return_act (),
     sql_preparedQuery = \<lambda>_. return_act 0, sql_preparedUpdate = \<lambda>_. return_act 1,
     sql_getAutoCommit = \<lambda>_. return_act True, sql_rollback = \<lambda>_. return_act (),
     sql_setAutoCommit = \<lambda>_ _. return_act (), sql_getMoreResults = \<lambda>_. return_act False,
     sql_getResultSet = \<lambda>_. return_act None, sql_next = \<lambda>_. return_act False,
     sql_reconnect = \<lambda>_. return_act True\<rparr>"

definition fine_object :: db_connection where
  "fine_object = \<lparr>db_conn = Some 0, db_host = ''h'', db_user = ''u'', db_password = ''p'',
     db_database = ''d''\<rparr>"

definition one_connection :: db_pool where
  "one_connection = new_pool\<lparr>po_host := ''h'', po_user := ''u'', po_password := ''p'',
     po_database := ''d'', po_connections := [0], po_initialized := True,
     po_objects := (po_objects new_pool)(0 := fine_object), po_next := 1\<rparr>"

lemma fine_init:
  "init fine_sql ''h'' ''u'' ''p'' ''d'' 1 (new_pool, ()) = (Ok (), (one_connection, ()))"
  by (simp add: init_def with_state_run new_pool_def bind_act_def modify_act_def createConnection_def
      on_sql_def DbConnection_def catch_act_def fine_sql_def return_act_def push_connection_def
      one_connection_def fine_object_def)

lemma fine_probe:
  assumes "db_conn (po_objects po a) = Some 0"
  shows "probe fine_sql a (po, ()) = (Ok (), (po, ()))"
    and "check_connection fine_sql a (po, ()) = (Ok (), (po, ()))"
  using assms
  by (simp_all add: probe_def check_connection_def ping_object_def on_sql_def ping_def deref_def
      bind_act_def catch_act_def fine_sql_def return_act_def)

text \<open>Three clients and one connection: the first takes it.\<close>

definition no_connection :: db_pool where
  "no_connection = one_connection\<lparr>po_connections := []\<rparr>"

definition system_at :: "db_pool \<Rightarrow> client list \<Rightarrow> checker \<Rightarrow> unit pool_system" where
  "system_at po cs ch = \<lparr>ps_pool = po, ps_world = (), ps_clients = cs, ps_checker = ch\<rparr>"

abbreviation fine_reachable :: "unit pool_system \<Rightarrow> bool" where
  "fine_reachable \<equiv> pool_reachable fine_sql 3 ()"

lemma fine_pool_simps:
  "po_connections one_connection = [0]" "po_connections no_connection = []"
  "po_initialized one_connection" "po_initialized no_connection"
  "take_connection one_connection = (Ok (Some 0), no_connection)"
  "take_connection no_connection = (Ok None, no_connection)"
  "push_connection 0 no_connection = one_connection"
  "db_conn (po_objects no_connection 0) = Some 0"
  by (simp_all add: one_connection_def no_connection_def take_connection_def push_connection_def
      fine_object_def)

lemma fine_started: "fine_reachable (system_at one_connection [Outside, Outside, Outside] Idle)"
proof (rule pool_reachable.step [OF pool_reachable.start])
  have "pool_step fine_sql (pool_start 3 ())
      ((pool_start 3 ())\<lparr>ps_pool := one_connection, ps_world := ()\<rparr>)"
    by (rule pool_step.init [where r = "Ok ()"])
       (use fine_init in \<open>auto simp: unlocked_def pool_start_def\<close>)
  then show "pool_step fine_sql (pool_start 3 ()) (system_at one_connection [Outside, Outside, Outside] Idle)"
    by (simp add: pool_start_def system_at_def numeral_3_eq_3)
qed

lemma fine_take:
  assumes "fine_reachable (system_at one_connection (Outside # cs) ch)" and "ch \<noteq> SleepingLocked"
  shows "fine_reachable (system_at no_connection (Holding 0 # cs) ch)"
proof -
  have "pool_step fine_sql (system_at one_connection (Outside # cs) ch)
      (system_at no_connection (Probing 0 # cs) ch)"
    using pool_step.take_it [of "system_at one_connection (Outside # cs) ch" 0 0 no_connection fine_sql]
      assms(2) by (simp add: system_at_def unlocked_def fine_pool_simps)
  moreover have "pool_step fine_sql (system_at no_connection (Probing 0 # cs) ch)
      (system_at no_connection (Holding 0 # cs) ch)"
    using pool_step.probed [of 0 "system_at no_connection (Probing 0 # cs) ch" 0 fine_sql no_connection "()"]
    by (simp add: system_at_def fine_probe fine_pool_simps)
  ultimately show ?thesis
    by (rule pool_reachable.step [OF pool_reachable.step [OF assms(1)]])
qed

lemma fine_wait:
  assumes "fine_reachable (system_at no_connection cs ch)" and "ch \<noteq> SleepingLocked"
    and "i < length cs" "cs ! i = Outside"
  shows "fine_reachable (system_at no_connection (cs[i := Asleep]) ch)"
proof (rule pool_reachable.step [OF assms(1)])
  show "pool_step fine_sql (system_at no_connection cs ch)
      (system_at no_connection (cs[i := Asleep]) ch)"
    using pool_step.wait [of "system_at no_connection cs ch" i no_connection fine_sql] assms
    by (simp add: system_at_def unlocked_def fine_pool_simps)
qed

definition two_waited :: "unit pool_system" where
  \<comment> \<open>the first client has put its connection back while two clients slept\<close>
  "two_waited = system_at one_connection [Outside, Woken, Asleep] Idle"

lemma two_waited_reachable: "fine_reachable two_waited"
proof -
  have "fine_reachable (system_at no_connection [Holding 0, Asleep, Asleep] Idle)"
    using fine_wait [OF fine_wait [OF fine_take [OF fine_started], where i = 1], where i = 2] by simp
  moreover have "notify_one [Outside, Asleep, Asleep] [Outside, Woken, Asleep]"
    using notify_one.wake [of 1 "[Outside, Asleep, Asleep]"] by simp
  then have "pool_step fine_sql (system_at no_connection [Holding 0, Asleep, Asleep] Idle) two_waited"
    using pool_step.give_back [of "system_at no_connection [Holding 0, Asleep, Asleep] Idle" 0 0
        "[Outside, Woken, Asleep]" fine_sql]
    by (simp add: system_at_def unlocked_def fine_pool_simps two_waited_def)
  ultimately show ?thesis by (rule pool_reachable.step)
qed

definition overlapping :: "unit pool_system" where
  "overlapping = system_at no_connection [Holding 0, Outside, Outside] (Scanning [0])"

lemma overlapping_reachable: "fine_reachable overlapping"
proof -
  have "pool_step fine_sql (system_at one_connection [Outside, Outside, Outside] Idle)
      (system_at one_connection [Outside, Outside, Outside] (Scanning [0]))"
    using pool_step.snapshot [of "system_at one_connection [Outside, Outside, Outside] Idle" fine_sql]
    by (simp add: system_at_def fine_pool_simps)
  then have "fine_reachable (system_at one_connection [Outside, Outside, Outside] (Scanning [0]))"
    by (rule pool_reachable.step [OF fine_started])
  then show ?thesis unfolding overlapping_def by (rule fine_take) simp
qed

subsection \<open>Properties\<close>

text \<open>C18: whatever the threads do and however the driver answers, every connection of the pool is in
  exactly one place: no connection is given to two clients, none that a client has is in the
  queue, none is lost, and none is there that \<open>init\<close> did not make.\<close>

theorem pool_exclusive:
  assumes "pool_reachable S n w s"
  shows "distinct (po_connections (ps_pool s) @ all_held (ps_clients s)) \<and>
    set (po_connections (ps_pool s) @ all_held (ps_clients s)) = {0..<po_next (ps_pool s)}"
  using pool_invariant [OF assms] conserved_distinct by blast

theorem pool_exclusive_witness:
  "distinct (po_connections (ps_pool overlapping) @ all_held (ps_clients overlapping)) \<and>
    set (po_connections (ps_pool overlapping) @ all_held (ps_clients overlapping)) =
      {0..<po_next (ps_pool overlapping)}"
  using pool_exclusive [OF overlapping_reachable] .

text \<open>C34: no wake-up is lost: whenever a connection is in the queue while a client sleeps in
  \<open>cv_.wait\<close>, another client has been woken and is about to look at the queue.\<close>

theorem no_lost_wakeup:
  assumes "pool_reachable S n w s" and "Asleep \<in> set (ps_clients s)"
    and "po_connections (ps_pool s) \<noteq> []"
  shows "Woken \<in> set (ps_clients s)"
proof -
  have "0 < length (po_connections (ps_pool s))" using assms(3) by simp
  also have "\<dots> \<le> count (mset (ps_clients s)) Woken"
    using pool_invariant [OF assms(1)] assms(2) by (simp add: wakeups_def)
  finally show ?thesis by simp
qed

theorem no_lost_wakeup_witness: "Woken \<in> set (ps_clients two_waited)"
  by (rule no_lost_wakeup [OF two_waited_reachable])
     (simp_all add: two_waited_def system_at_def fine_pool_simps)

text \<open>The checking thread uses connections that clients have: it checks the connections that
  were in the queue when it looked, without the lock of the pool, and \<open>ping\<close> does not take the
  lock of the connection.  A state is reachable in which a client holds the connection the
  checking thread is about to ping or reconnect.\<close>

theorem checker_shares_connection:
  "\<exists>s a rest. pool_reachable fine_sql 3 () s \<and> Holding a \<in> set (ps_clients s) \<and>
     ps_checker s = Scanning (a # rest) \<and>
     (\<exists>s'. pool_step fine_sql s s' \<and> Holding a \<in> set (ps_clients s') \<and>
        ps_checker s' = Scanning rest)"
proof (intro exI conjI)
  show "pool_reachable fine_sql 3 () overlapping" by (rule overlapping_reachable)
  show "Holding 0 \<in> set (ps_clients overlapping)" "ps_checker overlapping = Scanning (0 # [])"
    by (simp_all add: overlapping_def system_at_def)
  have "check_connection fine_sql 0 (no_connection, ()) = (Ok (), (no_connection, ()))"
    by (rule fine_probe(2)) (rule fine_pool_simps)
  then show "pool_step fine_sql overlapping
      (overlapping\<lparr>ps_pool := no_connection, ps_world := (), ps_checker := Scanning []\<rparr>)"
    by (intro pool_step.checked [where a = 0]) (simp_all add: overlapping_def system_at_def)
qed (simp_all add: overlapping_def system_at_def)

end
