(* ===== verification/Codec.thy ===== *)
theory Codec
  imports Prelude
begin

section \<open>Text codecs\<close>

text \<open>
  What the hexadecimal, decimal and base64 routines have in common: a decoder that undoes the
  encoder, and an alphabet the encoded text stays in.  From these follow that no two values share
  a text, that the text is read back from a field that ends with a character outside the alphabet,
  and that such characters can be put into it and removed again.
\<close>

locale text_codec =
  fixes enc :: "'a \<Rightarrow> bytes" and dec :: "bytes \<Rightarrow> 'a option" and alphabet :: "char set"
  assumes dec_enc: "dec (enc x) = Some x"
    and enc_alphabet: "set (enc x) \<subseteq> alphabet"
begin

lemma enc_inject: "enc x = enc y \<longleftrightarrow> x = y"
  by (metis dec_enc option.inject)

lemma outside: "c \<notin> alphabet \<Longrightarrow> c \<notin> set (enc x)"
  using enc_alphabet by blast

lemma field_end:
  assumes "c \<notin> alphabet"
  shows "str_find_from c (length pre) (pre @ enc x @ c # post) = Some (length pre + length (enc x))"
  using outside [OF assms] by (simp add: str_find_from_def str_simps)

lemma field_text: "substr (length pre) (length (enc x)) (pre @ enc x @ post) = enc x"
  by (simp add: substr_def)

lemma field_read: "dec (substr (length pre) (length (enc x)) (pre @ enc x @ post)) = Some x"
  by (simp add: field_text dec_enc)

lemma stripped:
  assumes "c \<notin> alphabet" and "filter (\<lambda>d. d \<noteq> c) t = filter (\<lambda>d. d \<noteq> c) (enc x)"
  shows "dec (filter (\<lambda>d. d \<noteq> c) t) = Some x"
proof -
  have "filter (\<lambda>d. d \<noteq> c) (enc x) = enc x"
    using outside [OF assms(1)] by (simp add: filter_id_conv) blast
  then show ?thesis by (simp add: assms(2) dec_enc)
qed

end

text \<open>The first instance: decimal numbers, as \<open>to_string\<close> writes them and the number parsers read
  their digits.\<close>

interpretation decimal: text_codec nat_to_dec "\<lambda>s. Some (dec_value s)" "{c. is_digit c}"
  by unfold_locales (auto simp: str_simps nat_to_dec_digits)

end
