(* ===== verification/Base64.thy ===== *)
theory Base64
  imports Codec
begin

section \<open>base64\<close>

text \<open>
  \<open>AIApps/ChatServer/src/AIUtil/base64.cpp\<close>, the codec the speech and image requests use.  Bytes are numbers
  below 256, the shifts and masks are the code's.  A thrown exception is its \<open>what()\<close>.  (The
  position counter of the encoder is an \<open>unsigned int\<close>: the model is for inputs shorter than
  \<open>2 ^ 32\<close> bytes.)
\<close>

unbundle bit_operations_syntax

definition base64_chars :: "bool \<Rightarrow> bytes" where
  "base64_chars url =
     ''ABCDEFGHIJKLMNOPQRSTUVWXYZ'' @ ''abcdefghijklmnopqrstuvwxyz'' @ ''0123456789'' @
     (if url then ''-_'' else ''+/'')"

definition pos_of_char :: "char \<Rightarrow> (bytes, nat) outcome" where
  "pos_of_char c =
     (let n = (of_char c :: nat)
      in if 65 \<le> n \<and> n \<le> 90 then Ok (n - 65)
         else if 97 \<le> n \<and> n \<le> 122 then Ok (n - 97 + (90 - 65) + 1)
         else if 48 \<le> n \<and> n \<le> 57 then Ok (n - 48 + (90 - 65) + (122 - 97) + 2)
         else if c = CHR ''+'' \<or> c = CHR ''-'' then Ok 62
         else if c = CHR ''/'' \<or> c = CHR ''_'' then Ok 63
         else Throw ''Input is not valid base64-encoded data.'')"

definition byte :: "char \<Rightarrow> nat" where "byte c = of_char c"

subsection \<open>Encoding\<close>

fun encode_loop :: "bytes \<Rightarrow> char \<Rightarrow> bytes \<Rightarrow> bytes" where
  \<comment> \<open>the alphabet, the trailing character, what is left of the input\<close>
  "encode_loop chars pad [] = []"
| "encode_loop chars pad [a] =
     [chars ! drop_bit 2 (byte a AND 0xFC), chars ! push_bit 4 (byte a AND 0x03), pad, pad]"
| "encode_loop chars pad [a, b] =
     [chars ! drop_bit 2 (byte a AND 0xFC),
      chars ! (push_bit 4 (byte a AND 0x03) + drop_bit 4 (byte b AND 0xF0)),
      chars ! push_bit 2 (byte b AND 0x0F), pad]"
| "encode_loop chars pad (a # b # c # rest) =
     [chars ! drop_bit 2 (byte a AND 0xFC),
      chars ! (push_bit 4 (byte a AND 0x03) + drop_bit 4 (byte b AND 0xF0)),
      chars ! (push_bit 2 (byte b AND 0x0F) + drop_bit 6 (byte c AND 0xC0)),
      chars ! (byte c AND 0x3F)] @ encode_loop chars pad rest"

definition base64_encode :: "bytes \<Rightarrow> bool \<Rightarrow> bytes" where
  "base64_encode s url = encode_loop (base64_chars url) (if url then CHR ''.'' else CHR ''='') s"

partial_function (option) insert_loop :: "nat \<Rightarrow> nat \<Rightarrow> bytes \<Rightarrow> bytes option" where
  "insert_loop distance pos str =
     (if pos < length str
      then insert_loop distance (pos + (distance + 1)) (take pos str @ [CHR 0x0A] @ drop pos str)
      else Some str)"

definition insert_linebreaks :: "bytes \<Rightarrow> nat \<Rightarrow> bytes option" where
  "insert_linebreaks str distance =
     (if str = [] then Some [] else insert_loop distance distance str)"

definition base64_encode_pem :: "bytes \<Rightarrow> bytes option" where
  "base64_encode_pem s = insert_linebreaks (base64_encode s False) 64"

definition base64_encode_mime :: "bytes \<Rightarrow> bytes option" where
  "base64_encode_mime s = insert_linebreaks (base64_encode s False) 76"

subsection \<open>Decoding\<close>

definition out_of_range :: bytes where
  \<comment> \<open>what \<open>at()\<close> throws\<close>
  "out_of_range = ''out_of_range''"

definition with_pos :: "char \<Rightarrow> (nat \<Rightarrow> (bytes, 'a) outcome) \<Rightarrow> (bytes, 'a) outcome" where
  "with_pos c f = (case pos_of_char c of Ok n \<Rightarrow> f n | Throw e \<Rightarrow> Throw e | Crash x \<Rightarrow> Crash x)"

definition data_char :: "bytes \<Rightarrow> nat \<Rightarrow> bool" where
  \<comment> \<open>\<open>pos + k < length_of_string && at(pos + k) != '=' && at(pos + k) != '.'\<close>\<close>
  "data_char s k \<longleftrightarrow> k < length s \<and> s ! k \<noteq> CHR ''='' \<and> s ! k \<noteq> CHR ''.''"

definition decode_chunk :: "bytes \<Rightarrow> (bytes, bytes) outcome" where
  \<comment> \<open>one turn of the loop on the rest of the string\<close>
  "decode_chunk s =
     (if length s \<le> 1 then Throw out_of_range
      else with_pos (s ! 1) (\<lambda>p1. with_pos (s ! 0) (\<lambda>p0.
        let b0 = char_of (push_bit 2 p0 + drop_bit 4 (p1 AND 0x30))
        in if \<not> data_char s 2 then Ok [b0]
           else with_pos (s ! 2) (\<lambda>p2.
             let b1 = char_of (push_bit 4 (p1 AND 0x0F) + drop_bit 2 (p2 AND 0x3C))
             in if \<not> data_char s 3 then Ok [b0, b1]
                else with_pos (s ! 3) (\<lambda>p3.
                  Ok [b0, b1, char_of (push_bit 6 (p2 AND 0x03) + p3)])))))"

function decode_loop :: "bytes \<Rightarrow> (bytes, bytes) outcome" where
  "decode_loop s =
     (if s = [] then Ok []
      else case decode_chunk s of
             Ok out \<Rightarrow> (case decode_loop (drop 4 s) of Ok r \<Rightarrow> Ok (out @ r) | x \<Rightarrow> x)
           | x \<Rightarrow> x)"
  by pat_completeness auto
termination
  by (relation "measure length") auto

declare decode_loop.simps [simp del]

definition base64_decode :: "bytes \<Rightarrow> bool \<Rightarrow> (bytes, bytes) outcome" where
  "base64_decode s remove_linebreaks =
     (if s = [] then Ok []
      else if remove_linebreaks then decode_loop (filter (\<lambda>c. c \<noteq> CHR 0x0A) s)
      else decode_loop s)"

subsection \<open>Bits and alphabet\<close>

lemma byte_less: "byte a < 256"
  by (simp add: byte_def of_char_less_256)

lemma and_low_bits:
  "x AND 3 = x mod 4" "x AND 15 = x mod 16" "x AND 63 = x mod 64" for x :: nat
  using take_bit_eq_mask [of 2 x] take_bit_eq_mask [of 4 x] take_bit_eq_mask [of 6 x]
  by (simp_all add: mask_eq_exp_minus_1 take_bit_eq_mod)

lemma shifted_masks:
  "drop_bit 2 (x AND 252) = x div 4 mod 64" "drop_bit 4 (x AND 240) = x div 16 mod 16"
  "drop_bit 6 (x AND 192) = x div 64 mod 4" "drop_bit 4 (x AND 48) = x div 16 mod 4"
  "drop_bit 2 (x AND 60) = x div 4 mod 16" for x :: nat
proof -
  have d: "drop_bit 2 (252::nat) = 63" "drop_bit 4 (240::nat) = 15" "drop_bit 6 (192::nat) = 3"
    "drop_bit 4 (48::nat) = 3" "drop_bit 2 (60::nat) = 15"
    by (simp_all add: drop_bit_eq_div)
  have q: "drop_bit 2 x = x div 4" "drop_bit 4 x = x div 16" "drop_bit 6 x = x div 64"
    by (simp_all add: drop_bit_eq_div)
  show "drop_bit 2 (x AND 252) = x div 4 mod 64" "drop_bit 4 (x AND 240) = x div 16 mod 16"
    "drop_bit 6 (x AND 192) = x div 64 mod 4" "drop_bit 4 (x AND 48) = x div 16 mod 4"
    "drop_bit 2 (x AND 60) = x div 4 mod 16"
    unfolding drop_bit_and d q and_low_bits by (rule refl)+
qed

lemma shifts:
  "push_bit 2 x = 4 * x" "push_bit 4 x = 16 * x" "push_bit 6 x = 64 * x" for x :: nat
  by (simp_all add: push_bit_eq_mult)

lemmas bit_evals = shifted_masks and_low_bits shifts

fun positions :: "nat \<Rightarrow> bytes \<Rightarrow> bool" where
  "positions n [] \<longleftrightarrow> True"
| "positions n (c # cs) \<longleftrightarrow> pos_of_char c = Ok n \<and> positions (n + 1) cs"

lemma positions_nth: "positions n cs \<Longrightarrow> i < length cs \<Longrightarrow> pos_of_char (cs ! i) = Ok (n + i)"
proof (induction n cs arbitrary: i rule: positions.induct)
  case (2 n c cs)
  then show ?case by (cases i) auto
qed simp

lemma base64_positions: "positions 0 (base64_chars url)" "length (base64_chars url) = 64"
  by (simp_all add: base64_chars_def pos_of_char_def)

lemma pos_of_base64_char: "i < 64 \<Longrightarrow> pos_of_char (base64_chars url ! i) = Ok i"
  using positions_nth [OF base64_positions(1)] base64_positions(2) by simp

lemma base64_char_plain: "c \<in> {CHR ''='', CHR ''.'', CHR 0x0A} \<Longrightarrow> c \<notin> set (base64_chars url)"
  by (auto simp: base64_chars_def)

lemma base64_nth_in: "i < 64 \<Longrightarrow> base64_chars url ! i \<in> set (base64_chars url)"
  using base64_positions(2) nth_mem by metis

subsection \<open>A chunk there and back\<close>

lemma char_of_byte [simp]: "char_of (byte a) = a"
  by (simp add: byte_def)

lemma byte_split: "byte a div 4 < 64" "byte a div 16 < 16" "byte a div 64 < 4"
  using byte_less [of a] by simp_all


lemma with_pos_base64: "i < 64 \<Longrightarrow> with_pos (base64_chars url ! i) f = f i"
  by (simp add: with_pos_def pos_of_base64_char)

lemma data_char_base64:
  assumes "k < length s" "s ! k = base64_chars url ! i" "i < 64"
  shows "data_char s k"
  using assms base64_char_plain base64_nth_in [OF assms(3)] unfolding data_char_def by fastforce

abbreviation first6 :: "char \<Rightarrow> nat" where "first6 a \<equiv> byte a div 4"
abbreviation second6 :: "char \<Rightarrow> nat \<Rightarrow> nat" where "second6 a b \<equiv> 16 * (byte a mod 4) + b div 16"
abbreviation third6 :: "nat \<Rightarrow> nat \<Rightarrow> nat" where "third6 b c \<equiv> 4 * (b mod 16) + c div 64"

lemma encode_chunk3:
  "encode_loop (base64_chars url) pad (a # b # c # rest) =
     map ((!) (base64_chars url))
       [first6 a, second6 a (byte b), third6 (byte b) (byte c), byte c mod 64] @
     encode_loop (base64_chars url) pad rest"
  unfolding encode_loop.simps bit_evals using byte_split by simp

lemma encode_chunk2:
  "encode_loop (base64_chars url) pad [a, b] =
     map ((!) (base64_chars url)) [first6 a, second6 a (byte b), third6 (byte b) 0] @ [pad]"
  unfolding encode_loop.simps bit_evals using byte_split by simp

lemma encode_chunk1:
  "encode_loop (base64_chars url) pad [a] =
     map ((!) (base64_chars url)) [first6 a, second6 a 0] @ [pad, pad]"
  unfolding encode_loop.simps bit_evals using byte_split by simp

lemma sextets: "first6 a < 64" "b < 256 \<Longrightarrow> second6 a b < 64" "c < 256 \<Longrightarrow> third6 b c < 64"
  using byte_less [of a] by (simp_all add: less_mult_imp_div_less)

lemma decode_chunk_base64:
  assumes "i < 64" "j < 64" and s: "s = base64_chars url ! i # base64_chars url ! j # t"
  shows "decode_chunk s =
    (if \<not> data_char s 2 then Ok [char_of (4 * i + j div 16)]
     else with_pos (s ! 2) (\<lambda>p2.
       if \<not> data_char s 3
       then Ok [char_of (4 * i + j div 16), char_of (16 * (j mod 16) + p2 div 4 mod 16)]
       else with_pos (s ! 3) (\<lambda>p3.
         Ok [char_of (4 * i + j div 16), char_of (16 * (j mod 16) + p2 div 4 mod 16),
             char_of (64 * (p2 mod 4) + p3)])))"
proof -
  have "\<not> length s \<le> 1" "s ! 1 = base64_chars url ! j" "s ! 0 = base64_chars url ! i"
    using s by simp_all
  moreover have "j div 16 mod 4 = j div 16" using assms(2) by simp
  ultimately show ?thesis
    unfolding decode_chunk_def Let_def bit_evals
    by (simp only: if_False with_pos_base64 [OF assms(1)] with_pos_base64 [OF assms(2)])
qed

lemma sextet_joins:
  assumes "b < 256" "c < 256"
  shows "4 * first6 a + second6 a b div 16 = byte a"
    "16 * (second6 a b mod 16) + third6 b c div 4 mod 16 = b"
    "64 * (third6 b c mod 4) + c mod 64 = c"
  using assms by simp_all

lemma decode_chunk3:
  "decode_chunk (map ((!) (base64_chars url))
     [first6 a, second6 a (byte b), third6 (byte b) (byte c), byte c mod 64] @ t) = Ok [a, b, c]"
proof -
  let ?i = "first6 a" and ?j = "second6 a (byte b)" and ?k = "third6 (byte b) (byte c)"
    and ?l = "byte c mod 64"
  let ?s = "map ((!) (base64_chars url)) [?i, ?j, ?k, ?l] @ t"
  note lt = sextets(1) [of a] sextets(2) [OF byte_less, of a b]
    sextets(3) [OF byte_less, of "byte b" c]
  have l: "?l < 64" by simp
  have s: "?s = base64_chars url ! ?i # base64_chars url ! ?j # base64_chars url ! ?k #
      base64_chars url ! ?l # t" by simp
  have n: "?s ! 2 = base64_chars url ! ?k" "?s ! 3 = base64_chars url ! ?l" by simp_all
  have data: "data_char ?s 2" "data_char ?s 3"
    by (rule data_char_base64 [OF _ n(1) lt(3)]; simp) (rule data_char_base64 [OF _ n(2) l]; simp)
  show ?thesis
    unfolding decode_chunk_base64 [OF lt(1) lt(2) s] n with_pos_base64 [OF lt(3)] with_pos_base64 [OF l]
      sextet_joins [OF byte_less byte_less]
    using data by simp
qed

lemma decode_chunk2:
  assumes "pad \<in> {CHR ''='', CHR ''.''}"
  shows "decode_chunk (map ((!) (base64_chars url))
     [first6 a, second6 a (byte b), third6 (byte b) 0] @ [pad]) = Ok [a, b]"
proof -
  let ?i = "first6 a" and ?j = "second6 a (byte b)" and ?k = "third6 (byte b) 0"
  let ?s = "map ((!) (base64_chars url)) [?i, ?j, ?k] @ [pad]"
  note lt = sextets(1) [of a] sextets(2) [OF byte_less, of a b] sextets(3) [of 0 "byte b"]
  have k: "?k < 64" by simp
  have s: "?s = base64_chars url ! ?i # base64_chars url ! ?j # base64_chars url ! ?k # [pad]" by simp
  have n: "?s ! 2 = base64_chars url ! ?k" by simp
  have data: "data_char ?s 2"
    by (rule data_char_base64 [OF _ n(1) k]) simp
  have "\<not> data_char ?s 3" using assms by (auto simp: data_char_def)
  moreover have "16 * (?j mod 16) + ?k div 4 mod 16 = byte b"
    using sextet_joins(2) [OF byte_less, of 0] by simp
  ultimately show ?thesis
    unfolding decode_chunk_base64 [OF lt(1) lt(2) s] n with_pos_base64 [OF k]
      sextet_joins(1) [OF byte_less, of 0, simplified]
    using data by simp
qed

lemma decode_chunk1:
  assumes "pad \<in> {CHR ''='', CHR ''.''}"
  shows "decode_chunk (map ((!) (base64_chars url)) [first6 a, second6 a 0] @ [pad, pad]) = Ok [a]"
proof -
  let ?s = "map ((!) (base64_chars url)) [first6 a, second6 a 0] @ [pad, pad]"
  have lt: "first6 a < 64" "second6 a 0 < 64" using sextets by simp_all
  have s: "?s = base64_chars url ! first6 a # base64_chars url ! second6 a 0 # [pad, pad]" by simp
  have "\<not> data_char ?s 2" using assms by (auto simp: data_char_def)
  then show ?thesis
    unfolding decode_chunk_base64 [OF lt s]
    using sextet_joins(1) [of 0 0 a] by simp
qed

subsection \<open>The whole text\<close>

lemma decode_loop_step:
  "decode_chunk s = Ok out \<Longrightarrow> s \<noteq> [] \<Longrightarrow>
   decode_loop s = (case decode_loop (drop 4 s) of Ok r \<Rightarrow> Ok (out @ r) | x \<Rightarrow> x)"
  by (subst decode_loop.simps) simp

lemma decode_encode_loop:
  assumes "pad \<in> {CHR ''='', CHR ''.''}"
  shows "decode_loop (encode_loop (base64_chars url) pad s) = Ok s"
  using assms
proof (induction "base64_chars url" pad s rule: encode_loop.induct)
  case (1 pad)
  then show ?case by (simp add: decode_loop.simps)
next
  case (2 pad a)
  show ?case
    unfolding encode_chunk1
    by (subst decode_loop_step [OF decode_chunk1 [OF 2]]) (simp_all add: decode_loop.simps)
next
  case (3 pad a b)
  show ?case
    unfolding encode_chunk2
    by (subst decode_loop_step [OF decode_chunk2 [OF 3]]) (simp_all add: decode_loop.simps)
next
  case (4 pad a b c rest)
  show ?case
    unfolding encode_chunk3
    by (subst decode_loop_step [OF decode_chunk3]) (simp_all add: 4(1) [OF 4(2)])
qed

lemma encode_loop_chars:
  "set (encode_loop (base64_chars url) pad s) \<subseteq> insert pad (set (base64_chars url))"
proof (induction "base64_chars url" pad s rule: encode_loop.induct)
  case (2 pad a)
  show ?case
    unfolding encode_chunk1 using sextets by (auto simp: base64_nth_in)
next
  case (3 pad a b)
  show ?case
    unfolding encode_chunk2 using sextets(1,2) sextets(3) [of 0] byte_less
    by (auto simp: base64_nth_in)
next
  case (4 pad a b c rest)
  then show ?case
    unfolding encode_chunk3 using sextets(1,2) sextets(3) [OF byte_less] byte_less
    by (auto simp: base64_nth_in)
qed simp

lemma length_encode_loop: "length (encode_loop chars pad s) = (length s + 2) div 3 * 4"
proof (induction chars pad s rule: encode_loop.induct)
  case (4 chars pad a b c rest)
  have "(5 + length rest) div 3 = Suc ((length rest + 2) div 3)" by linarith
  with 4 show ?case by simp
qed simp_all

abbreviation base64_alphabet :: "bool \<Rightarrow> char set" where
  "base64_alphabet url \<equiv> insert (if url then CHR ''.'' else CHR ''='') (set (base64_chars url))"

definition decode_text :: "bytes \<Rightarrow> bytes option" where
  "decode_text s = (case base64_decode s False of Ok r \<Rightarrow> Some r | _ \<Rightarrow> None)"

lemma base64_decode_plain: "base64_decode s False = decode_loop s"
  by (simp add: base64_decode_def decode_loop.simps)

lemma decode_encode: "base64_decode (base64_encode s url) False = Ok s"
  by (simp add: base64_decode_plain base64_encode_def decode_encode_loop)

interpretation base64: text_codec "\<lambda>s. base64_encode s url" decode_text "base64_alphabet url" for url
proof unfold_locales
  show "decode_text (base64_encode s url) = Some s" for s
    by (simp add: decode_text_def decode_encode)
  show "set (base64_encode s url) \<subseteq> base64_alphabet url" for s
    using encode_loop_chars [of url _ s] unfolding base64_encode_def by simp
qed

subsection \<open>Line breaks\<close>

abbreviation NL :: char where "NL \<equiv> CHR 0x0A"

lemma insert_loop_runs:
  assumes "0 < d"
  shows "\<exists>t. insert_loop d pos s = Some t \<and>
    filter (\<lambda>c. c \<noteq> NL) t = filter (\<lambda>c. c \<noteq> NL) s \<and> length s \<le> length t"
  using assms
proof (induction "length s - pos" arbitrary: pos s rule: less_induct)
  case less
  show ?case
  proof (cases "pos < length s")
    case True
    let ?s = "take pos s @ [NL] @ drop pos s"
    have "length ?s - (pos + (d + 1)) < length s - pos" using True less.prems by simp
    from less.hyps [OF this less.prems] obtain t where
      t: "insert_loop d (pos + (d + 1)) ?s = Some t"
      "filter (\<lambda>c. c \<noteq> NL) t = filter (\<lambda>c. c \<noteq> NL) ?s" "length ?s \<le> length t" by blast
    have "filter (\<lambda>c. c \<noteq> NL) ?s = filter (\<lambda>c. c \<noteq> NL) s"
      using filter_append [of "\<lambda>c. c \<noteq> NL" "take pos s" "drop pos s"] by simp
    with t True show ?thesis by (subst insert_loop.simps) simp
  next
    case False
    then show ?thesis by (subst insert_loop.simps) simp
  qed
qed

lemma insert_linebreaks_runs:
  assumes "0 < d"
  shows "\<exists>t. insert_linebreaks s d = Some t \<and>
    filter (\<lambda>c. c \<noteq> NL) t = filter (\<lambda>c. c \<noteq> NL) s \<and> length s \<le> length t"
  using insert_loop_runs [OF assms] by (simp add: insert_linebreaks_def)

lemma decode_broken_lines:
  assumes "0 < d"
  shows "\<exists>t. insert_linebreaks (base64_encode s False) d = Some t \<and> base64_decode t True = Ok s"
proof -
  obtain t where t: "insert_linebreaks (base64_encode s False) d = Some t"
    "filter (\<lambda>c. c \<noteq> NL) t = filter (\<lambda>c. c \<noteq> NL) (base64_encode s False)"
    using insert_linebreaks_runs [OF assms] by blast
  have "NL \<notin> base64_alphabet False" using base64_char_plain [of NL False] by simp
  from base64.stripped [OF this t(2)] have "decode_text (filter (\<lambda>c. c \<noteq> NL) t) = Some s" .
  then have "decode_loop (filter (\<lambda>c. c \<noteq> NL) t) = Ok s"
    by (auto simp: decode_text_def base64_decode_plain split: outcome.splits)
  then have "base64_decode t True = Ok s"
    by (cases "t = []") (simp_all add: base64_decode_def decode_loop.simps)
  then show ?thesis using t(1) by blast
qed

subsection \<open>Properties\<close>

text \<open>C24: decoding gives back what was encoded, with either alphabet, and also through the line
  breaks of the PEM and MIME forms (whose loops end), and the encoded text has four characters for
  every three bytes begun.\<close>

theorem base64_roundtrip:
  "base64_decode (base64_encode s url) False = Ok s \<and>
   length (base64_encode s url) = (length s + 2) div 3 * 4 \<and>
   (\<exists>pem. base64_encode_pem s = Some pem \<and> base64_decode pem True = Ok s) \<and>
   (\<exists>mime. base64_encode_mime s = Some mime \<and> base64_decode mime True = Ok s)"
  unfolding base64_encode_pem_def base64_encode_mime_def
  using decode_encode decode_broken_lines [of 64 s] decode_broken_lines [of 76 s]
  by (simp add: base64_encode_def length_encode_loop)

end
