(* ===== verification/Password_Hash.thy ===== *)
theory Password_Hash
  imports Codec Actions
begin

section \<open>Password hashes\<close>

text \<open>
  \<open>AIApps/ChatServer/src/utils/PasswordHash.cpp\<close>: stored passwords are
  \<open>pbkdf2_sha256$iterations$salt$key\<close>, in hexadecimal; old ones are \<open>sha256$salt$hash\<close> and are
  replaced when their owner logs in.  The functions of OpenSSL are the fields of \<open>crypto_ops\<close>
  (\<open>'w\<close> is the state of its random generator), \<open>crypto_laws\<close> says how long their results are.
  (Passwords are shorter than \<open>2 ^ 31\<close> bytes: the code passes their length as an \<open>int\<close>.)
\<close>

unbundle bit_operations_syntax

record 'w crypto_ops =
  cr_SHA256 :: "bytes \<Rightarrow> bytes"
  cr_PBKDF2 :: "bytes \<Rightarrow> bytes \<Rightarrow> int \<Rightarrow> nat \<Rightarrow> bytes option"
    \<comment> \<open>password, salt, iterations, key length; \<open>None\<close> when \<open>PKCS5_PBKDF2_HMAC\<close> does not return 1\<close>
  cr_RAND_bytes :: "nat \<Rightarrow> 'w \<Rightarrow> bytes option \<times> 'w"

definition crypto_laws :: "'w crypto_ops \<Rightarrow> bool" where
  "crypto_laws C \<longleftrightarrow>
     (\<forall>p s i n d. cr_PBKDF2 C p s i n = Some d \<longrightarrow> length d = n) \<and>
     (\<forall>n w s w'. cr_RAND_bytes C n w = (Some s, w') \<longrightarrow> length s = n)"

definition kPbkdf2Iterations :: nat where "kPbkdf2Iterations = 310000"
definition kSaltBytes :: nat where "kSaltBytes = 16"
definition kDerivedKeyBytes :: nat where "kDerivedKeyBytes = 32"

subsection \<open>Hexadecimal text\<close>

definition hex_of_byte :: "char \<Rightarrow> bytes" where
  \<comment> \<open>\<open>setw(2)\<close>, \<open>setfill('0')\<close>, \<open>std::hex\<close>\<close>
  "hex_of_byte c = [hex_digit ((of_char c :: nat) div 16), hex_digit ((of_char c :: nat) mod 16)]"

definition toHex :: "bytes \<Rightarrow> bytes" where
  "toHex data = concat (map hex_of_byte data)"

definition hexNibble :: "char \<Rightarrow> int" where
  "hexNibble c =
     (let n = (of_char c :: int)
      in if 48 \<le> n \<and> n \<le> 57 then n - 48
         else if 97 \<le> n \<and> n \<le> 102 then n - 97 + 10
         else if 65 \<le> n \<and> n \<le> 70 then n - 65 + 10
         else -1)"

fun hex_pairs :: "bytes \<Rightarrow> bytes option" where
  "hex_pairs (h # l # rest) =
     (let hi = hexNibble h; lo = hexNibble l
      in if hi < 0 \<or> lo < 0 then None
         else map_option ((#) (char_of (push_bit 4 hi OR lo))) (hex_pairs rest))"
| "hex_pairs _ = Some []"

definition hexToBytes :: "bytes \<Rightarrow> bytes option" where
  \<comment> \<open>\<open>None\<close> for \<open>false\<close>\<close>
  "hexToBytes hex = (if length hex mod 2 \<noteq> 0 then None else hex_pairs hex)"

subsection \<open>Hashing and checking\<close>

definition sha256Hex :: "'w crypto_ops \<Rightarrow> bytes \<Rightarrow> bytes" where
  "sha256Hex C input = toHex (cr_SHA256 C input)"

definition verifyLegacySha256 :: "'w crypto_ops \<Rightarrow> bytes \<Rightarrow> bytes \<Rightarrow> bool" where
  "verifyLegacySha256 C plain stored =
     (if \<not> starts_with ''sha256$'' stored then False
      else case str_find_from (CHR ''$'') 0 stored of
             None \<Rightarrow> False
           | Some first \<Rightarrow>
               (case str_find_from (CHR ''$'') (first + 1) stored of
                  None \<Rightarrow> False
                | Some second \<Rightarrow>
                    (let saltHex = substr (first + 1) (second - first - 1) stored;
                         hashHex = drop (second + 1) stored
                     in sha256Hex C (saltHex @ plain) = hashHex)))"

definition pbkdf2_matches :: "'w crypto_ops \<Rightarrow> bytes \<Rightarrow> int \<Rightarrow> bytes \<Rightarrow> bytes \<Rightarrow> bool" where
  \<comment> \<open>from the two \<open>hexToBytes\<close> to the end\<close>
  "pbkdf2_matches C plain iterations saltHex dkHex =
     (case (hexToBytes saltHex, hexToBytes dkHex) of
        (Some salt, Some expected) \<Rightarrow>
          (if length expected \<noteq> kDerivedKeyBytes \<or> salt = [] then False
           else case cr_PBKDF2 C plain salt iterations kDerivedKeyBytes of
                  None \<Rightarrow> False
                | Some dk \<Rightarrow> dk = expected)
      | _ \<Rightarrow> False)"

definition verifyPbkdf2 :: "'w crypto_ops \<Rightarrow> bytes \<Rightarrow> bytes \<Rightarrow> bool" where
  "verifyPbkdf2 C plain stored =
     (if \<not> starts_with ''pbkdf2_sha256$'' stored then False
      else case str_find_from (CHR ''$'') 14 stored of
             None \<Rightarrow> False
           | Some d1 \<Rightarrow>
               (case stoi (substr 14 (d1 - 14) stored) of
                  None \<Rightarrow> False
                | Some iterations \<Rightarrow>
                    (if iterations < 100000 then False
                     else case str_find_from (CHR ''$'') (d1 + 1) stored of
                            None \<Rightarrow> False
                          | Some d2 \<Rightarrow>
                              pbkdf2_matches C plain iterations
                                (substr (d1 + 1) (d2 - d1 - 1) stored) (drop (d2 + 1) stored))))"

definition hashPassword :: "'w crypto_ops \<Rightarrow> bytes \<Rightarrow> (bytes, 'w, bytes) action" where
  "hashPassword C password w =
     (case cr_RAND_bytes C kSaltBytes w of
        (None, w1) \<Rightarrow> (Throw ''Failed to generate password salt'', w1)
      | (Some salt, w1) \<Rightarrow>
          (case cr_PBKDF2 C password salt (int kPbkdf2Iterations) kDerivedKeyBytes of
             None \<Rightarrow> (Throw ''PBKDF2 failed'', w1)
           | Some dk \<Rightarrow>
               (Ok (''pbkdf2_sha256$'' @ nat_to_dec kPbkdf2Iterations @ ''$'' @ toHex salt @ ''$'' @
                    toHex dk), w1)))"

definition verifyPassword ::
    "'w crypto_ops \<Rightarrow> bytes \<Rightarrow> bytes \<Rightarrow> bool \<Rightarrow> (bytes, 'w, bool \<times> bytes option) action" where
  \<comment> \<open>\<open>wanted\<close>: \<open>upgraded_out\<close> is not null; the second result is what was written there\<close>
  "verifyPassword C plain stored wanted =
     (if verifyPbkdf2 C plain stored then return_act (True, None)
      else if verifyLegacySha256 C plain stored
      then if wanted
           then bind_act (hashPassword C plain) (\<lambda>h. return_act (True, Some h))
           else return_act (True, None)
      else return_act (False, None))"

subsection \<open>Hexadecimal text is read back\<close>

lemma hex_digit_cases: "d < 16 \<Longrightarrow> of_char (hex_digit d) = (if d < 10 then 48 + d else 87 + d)"
  by (auto simp: hex_digit_def of_char_digit_char of_char_mod_256)

lemma high_nibble: "(of_char c :: nat) div 16 < 16"
  using of_char_less_256 [of c] by (simp add: less_mult_imp_div_less)

lemma of_char_int: "(of_char c :: int) = int (of_char c)"
  by (simp add: of_nat_of_char)

lemma hexNibble_digit: "d < 16 \<Longrightarrow> hexNibble (hex_digit d) = int d"
  using hex_digit_cases [of d] by (auto simp: hexNibble_def of_char_int Let_def)

lemma nibbles_join:
  assumes "hi < 16" "lo < 16"
  shows "push_bit 4 (int hi) OR int lo = int (16 * hi + lo)"
proof -
  have "push_bit 4 (int hi) AND int lo = 0"
  proof (rule bit_eqI)
    fix n
    have "lo < 2 ^ n" if "4 \<le> n" using assms(2) power_increasing [OF that, of "2::nat"] by simp
    then have "\<not> bit lo n" if "4 \<le> n" using that by (simp add: bit_iff_odd)
    then show "bit (push_bit 4 (int hi) AND int lo) n \<longleftrightarrow> bit (0::int) n"
      by (auto simp: bit_and_iff bit_push_bit_iff bit_of_nat_iff_bit)
  qed
  then have "push_bit 4 (int hi) OR int lo = push_bit 4 (int hi) + int lo"
    by (simp add: disjunctive_add_eq_or)
  then show ?thesis by (simp add: push_bit_eq_mult)
qed

lemma hex_pair_byte:
  "char_of (push_bit 4 (int ((of_char c :: nat) div 16)) OR int ((of_char c :: nat) mod 16)) = c"
proof -
  have "push_bit 4 (int ((of_char c :: nat) div 16)) OR int ((of_char c :: nat) mod 16) = of_char c"
    using nibbles_join [OF high_nibble, of "of_char c mod 16" c] by (simp add: of_char_int)
  then show ?thesis by simp
qed

lemma hexToBytes_toHex: "hexToBytes (toHex data) = Some data"
proof -
  have "hex_pairs (toHex data) = Some data"
  proof (induction data)
    case (Cons c data)
    then show ?case
      using hex_pair_byte [of c] high_nibble [of c]
      by (simp add: toHex_def hex_of_byte_def hexNibble_digit Let_def)
  qed (simp add: toHex_def)
  moreover have "length (toHex data) = 2 * length data"
    by (induction data) (simp_all add: toHex_def hex_of_byte_def)
  ultimately show ?thesis by (simp add: hexToBytes_def)
qed

interpretation hex: text_codec toHex hexToBytes "hex_digit ` {..<16}"
proof unfold_locales
  show "hexToBytes (toHex data) = Some data" for data by (rule hexToBytes_toHex)
  show "set (toHex data) \<subseteq> hex_digit ` {..<16}" for data
  proof (induction data)
    case (Cons c data)
    with high_nibble [of c] show ?case by (auto simp: toHex_def hex_of_byte_def)
  qed (simp add: toHex_def)
qed

lemma hex_length [simp]: "length (toHex data) = 2 * length data"
  by (induction data) (simp_all add: toHex_def hex_of_byte_def)

lemma dollar_free: "CHR ''$'' \<notin> hex_digit ` {..<16}" "CHR ''$'' \<notin> {c. is_digit c}"
  by (auto simp: is_digit_def dest!: arg_cong [of "CHR ''$''" _ "of_char :: char \<Rightarrow> nat"]
      split: if_splits simp: hex_digit_cases)

subsection \<open>Stored passwords are read back field by field\<close>

definition stored_pbkdf2 :: "nat \<Rightarrow> bytes \<Rightarrow> bytes \<Rightarrow> bytes" where
  "stored_pbkdf2 n salt dk =
     ''pbkdf2_sha256$'' @ nat_to_dec n @ ''$'' @ toHex salt @ ''$'' @ toHex dk"

definition stored_sha256 :: "bytes \<Rightarrow> bytes \<Rightarrow> bytes" where
  "stored_sha256 salt hash = ''sha256$'' @ salt @ ''$'' @ hash"

lemma starts_with_append [simp]: "starts_with p (p @ s)"
  by (simp add: starts_with_def)

lemma starts_with_conflict:
  "\<not> starts_with ''pbkdf2_sha256$'' (stored_sha256 salt hash)"
  "\<not> starts_with ''sha256$'' (stored_pbkdf2 n salt dk)"
  by (simp_all add: starts_with_def stored_sha256_def stored_pbkdf2_def)

lemma verifyPbkdf2_stored:
  assumes "n < 2 ^ 31"
  shows "verifyPbkdf2 C plain (stored_pbkdf2 n salt dk) \<longleftrightarrow>
    100000 \<le> n \<and> length dk = 32 \<and> salt \<noteq> [] \<and> cr_PBKDF2 C plain salt (int n) 32 = Some dk"
proof -
  define P where "P = ''pbkdf2_sha256$''"
  have P: "length P = 14" by (simp add: P_def)
  let ?c = "CHR ''$''"
  let ?s = "stored_pbkdf2 n salt dk" and ?D = "nat_to_dec n" and ?S = "toHex salt"
  have s: "?s = P @ ?D @ ?c # (?S @ ?c # toHex dk)"
    by (simp add: stored_pbkdf2_def P_def)
  have s2: "?s = (P @ ?D @ [?c]) @ ?S @ ?c # toHex dk" by (simp add: s)
  have d1: "str_find_from ?c 14 ?s = Some (14 + length ?D)"
    using decimal.field_end [OF dollar_free(2), of P n] by (simp add: s P)
  have d2: "str_find_from ?c (14 + length ?D + 1) ?s = Some (14 + length ?D + 1 + length ?S)"
    using hex.field_end [OF dollar_free(1), of "P @ ?D @ [?c]" salt] unfolding s2 by (simp add: P)
  have iter: "substr 14 (14 + length ?D - 14) ?s = ?D"
    using decimal.field_text [of P n] by (simp add: s P)
  have salt: "substr (14 + length ?D + 1) (14 + length ?D + 1 + length ?S - (14 + length ?D) - 1) ?s = ?S"
    using hex.field_text [of "P @ ?D @ [?c]" salt] unfolding s2 by (simp add: P)
  have key: "drop (14 + length ?D + 1 + length ?S + 1) ?s = toHex dk" by (simp add: s P)
  have "starts_with ''pbkdf2_sha256$'' ?s"
    unfolding s P_def [symmetric] by (rule starts_with_append)
  then show ?thesis
    unfolding verifyPbkdf2_def d1 option.case iter stoi_nat_to_dec [OF assms] d2 salt key
    by (auto simp: pbkdf2_matches_def hexToBytes_toHex kDerivedKeyBytes_def split: option.splits)
qed

lemma verifyLegacy_stored:
  assumes "CHR ''$'' \<notin> set salt"
  shows "verifyLegacySha256 C plain (stored_sha256 salt hash) \<longleftrightarrow> sha256Hex C (salt @ plain) = hash"
proof -
  let ?c = "CHR ''$''" and ?s = "stored_sha256 salt hash"
  have find1: "str_find_from ?c 0 ?s = Some 6"
    using find_char_append [of ?c "''sha256''" "salt @ ?c # hash"]
    by (simp add: str_find_from_def stored_sha256_def)
  have rest: "drop 7 ?s = salt @ ?c # hash" by (simp add: stored_sha256_def)
  have find2: "str_find_from ?c (6 + 1) ?s = Some (7 + length salt)"
    using assms by (simp add: str_find_from_def rest find_char_append)
  have salt: "substr (6 + 1) (7 + length salt - 6 - 1) ?s = salt"
    by (simp add: substr_def rest)
  have hash: "drop (7 + length salt + 1) ?s = hash"
    using drop_drop [of "length salt + 1" 7 ?s] by (simp add: rest ac_simps)
  have "starts_with ''sha256$'' ?s" by (simp add: starts_with_def stored_sha256_def)
  then show ?thesis
    unfolding verifyLegacySha256_def find1 option.case find2 salt hash by (simp add: Let_def)
qed

lemma hashPassword_Ok:
  assumes "hashPassword C p w = (Ok stored, w')" and "crypto_laws C"
  obtains salt dk where "stored = stored_pbkdf2 kPbkdf2Iterations salt dk" "length salt = 16"
    "length dk = 32" "cr_PBKDF2 C p salt 310000 32 = Some dk"
proof -
  obtain salt w1 where r: "cr_RAND_bytes C 16 w = (Some salt, w1)"
    using assms(1)
    by (auto simp: hashPassword_def kSaltBytes_def split: prod.splits option.splits)
  obtain dk where k: "cr_PBKDF2 C p salt 310000 32 = Some dk"
    using assms(1) r
    by (auto simp: hashPassword_def kSaltBytes_def kDerivedKeyBytes_def kPbkdf2Iterations_def
        split: option.splits)
  have "stored = stored_pbkdf2 kPbkdf2Iterations salt dk"
    using assms(1) r k
    by (simp add: hashPassword_def kSaltBytes_def kDerivedKeyBytes_def stored_pbkdf2_def
        kPbkdf2Iterations_def)
  moreover have "length salt = 16" "length dk = 32"
    using assms(2) r k unfolding crypto_laws_def by blast+
  ultimately show thesis using that k by blast
qed

lemma verify_hashed:
  assumes "hashPassword C p w = (Ok stored, w')" and laws: "crypto_laws C"
  shows "\<exists>salt. length salt = 16 \<and> (\<forall>q wanted v. verifyPassword C q stored wanted v =
    (Ok (cr_PBKDF2 C q salt 310000 32 = cr_PBKDF2 C p salt 310000 32, None), v))"
proof -
  from hashPassword_Ok [OF assms] obtain salt dk where
    st: "stored = stored_pbkdf2 kPbkdf2Iterations salt dk" and len: "length salt = 16" "length dk = 32"
    and dk: "cr_PBKDF2 C p salt 310000 32 = Some dk" by blast
  have "verifyPbkdf2 C q stored \<longleftrightarrow> cr_PBKDF2 C q salt 310000 32 = cr_PBKDF2 C p salt 310000 32" for q
    using len dk verifyPbkdf2_stored [of kPbkdf2Iterations C q salt dk]
    by (auto simp: st kPbkdf2Iterations_def)
  moreover have "\<not> verifyLegacySha256 C q stored" for q
    by (simp add: verifyLegacySha256_def st starts_with_conflict)
  ultimately show ?thesis
    using len(1) by (intro exI [of _ salt]) (auto simp: verifyPassword_def act_simps)
qed

subsection \<open>A toy library\<close>

definition toy_crypto :: "nat crypto_ops" where
  \<comment> \<open>the key is the password and the salt, cut or filled up to the length asked for\<close>
  "toy_crypto = \<lparr>cr_SHA256 = (\<lambda>x. x),
     cr_PBKDF2 = (\<lambda>p s i n. Some (take n (p @ s @ replicate n (CHR ''0'')))),
     cr_RAND_bytes = (\<lambda>n w. (Some (replicate n (char_of w)), w + 1))\<rparr>"

lemma toy_crypto_laws: "crypto_laws toy_crypto"
  by (auto simp: crypto_laws_def toy_crypto_def min_def)

lemma toy_hash: "\<exists>stored. hashPassword toy_crypto p w = (Ok stored, w + 1)"
  by (simp add: hashPassword_def toy_crypto_def)

subsection \<open>Properties\<close>

text \<open>C25: a password that was hashed is accepted, and any other exactly when it has the same derived
  key for the salt that was drawn: what \<open>hashPassword\<close> writes, \<open>verifyPassword\<close> reads back field by
  field; it never asks for an upgrade and never throws.\<close>

theorem password_roundtrip:
  assumes "hashPassword C p w = (Ok stored, w')" and "crypto_laws C"
  shows "\<exists>salt. length salt = 16 \<and> (\<forall>q wanted v. verifyPassword C q stored wanted v =
    (Ok (cr_PBKDF2 C q salt 310000 32 = cr_PBKDF2 C p salt 310000 32, None), v))"
  using assms by (rule verify_hashed)

theorem password_roundtrip_witness:
  "\<exists>stored. hashPassword toy_crypto ''secret'' 5 = (Ok stored, 6) \<and>
     verifyPassword toy_crypto ''secret'' stored True 6 = (Ok (True, None), 6) \<and>
     verifyPassword toy_crypto ''Secret'' stored True 6 = (Ok (False, None), 6)"
proof -
  obtain stored where st: "hashPassword toy_crypto ''secret'' 5 = (Ok stored, 6)"
    using toy_hash [of "''secret''" 5] by auto
  from password_roundtrip [OF this toy_crypto_laws] obtain salt where
    "length salt = 16" and v: "\<And>q wanted v. verifyPassword toy_crypto q stored wanted v =
      (Ok (cr_PBKDF2 toy_crypto q salt 310000 32 = cr_PBKDF2 toy_crypto ''secret'' salt 310000 32,
        None), v)" by blast
  moreover have "cr_PBKDF2 toy_crypto ''Secret'' salt 310000 32 \<noteq>
      cr_PBKDF2 toy_crypto ''secret'' salt 310000 32"
    by (simp add: toy_crypto_def)
  ultimately show ?thesis using st by auto
qed

text \<open>An account in the old format is checked against its salted SHA-256 hash, and on success the
  caller is given a new hash of the password, which accepts it without another upgrade; when
  hashing fails the exception leaves, although the password was right.\<close>

theorem legacy_upgrade:
  assumes "CHR ''$'' \<notin> set salt" and "crypto_laws C"
  shows "verifyPassword C q (stored_sha256 salt hash) True w =
      (if sha256Hex C (salt @ q) = hash
       then (case hashPassword C q w of
               (Ok new, w1) \<Rightarrow> (Ok (True, Some new), w1)
             | (Throw e, w1) \<Rightarrow> (Throw e, w1)
             | (Crash x, w1) \<Rightarrow> (Crash x, w1))
       else (Ok (False, None), w)) \<and>
    (\<forall>new w1. hashPassword C q w = (Ok new, w1) \<longrightarrow>
       verifyPassword C q new True w1 = (Ok (True, None), w1))"
proof
  have no: "\<not> verifyPbkdf2 C q (stored_sha256 salt hash)"
    by (simp add: verifyPbkdf2_def starts_with_conflict)
  show "verifyPassword C q (stored_sha256 salt hash) True w =
      (if sha256Hex C (salt @ q) = hash
       then (case hashPassword C q w of
               (Ok new, w1) \<Rightarrow> (Ok (True, Some new), w1)
             | (Throw e, w1) \<Rightarrow> (Throw e, w1)
             | (Crash x, w1) \<Rightarrow> (Crash x, w1))
       else (Ok (False, None), w))"
    by (simp add: verifyPassword_def no verifyLegacy_stored [OF assms(1)] bind_act_def return_act_def
        split: prod.split outcome.split)
  show "\<forall>new w1. hashPassword C q w = (Ok new, w1) \<longrightarrow>
       verifyPassword C q new True w1 = (Ok (True, None), w1)"
    using verify_hashed [OF _ assms(2)] by fastforce
qed

theorem legacy_upgrade_witness:
  "\<exists>new. verifyPassword toy_crypto ''b'' (stored_sha256 ''a'' ''6162'') True 5 = (Ok (True, Some new), 6) \<and>
     verifyPassword toy_crypto ''b'' new True 6 = (Ok (True, None), 6)"
proof -
  obtain new where new: "hashPassword toy_crypto ''b'' 5 = (Ok new, 6)"
    using toy_hash [of "''b''" 5] by auto
  have "sha256Hex toy_crypto (''a'' @ ''b'') = ''6162''"
    by (simp add: sha256Hex_def toy_crypto_def toHex_def hex_of_byte_def hex_digit_def digit_chars)
  then show ?thesis
    using legacy_upgrade [of "''a''" toy_crypto "''b''" "''6162''" 5] new toy_crypto_laws by simp
qed

end
