(* ===== verification/Mysql_Util.thy ===== *)
theory Mysql_Util
  imports Pool_Properties
begin

section \<open>MysqlUtil, and what the handlers see of it\<close>

text \<open>
  \<open>HttpServer/include/utils/MysqlUtil.h\<close> as one handler runs it: \<open>getConnection\<close>, the statement, and
  the deleter of the \<open>shared_ptr\<close>, which puts the connection back also when the statement throws.  In a
  run of one handler nobody else gives a connection back, so a wait for one is \<open>Blocked\<close>.  A handler
  sees the exceptions by their \<open>what()\<close>.  Reading a result set is the driver's: \<open>row_ops\<close>.
\<close>

record 'w row_ops =
  row_next :: "handle \<Rightarrow> (bytes, 'w, bool) action"
  row_getString :: "handle \<Rightarrow> bytes \<Rightarrow> (bytes, 'w, bytes) action"
  row_getInt :: "handle \<Rightarrow> bytes \<Rightarrow> (bytes, 'w, int) action"
  row_getInt64 :: "handle \<Rightarrow> bytes \<Rightarrow> (bytes, 'w, int) action"

record 'w mysql_ops =
  my_init :: "bytes \<Rightarrow> bytes \<Rightarrow> bytes \<Rightarrow> bytes \<Rightarrow> nat \<Rightarrow> (bytes, 'w, unit) action"
  my_query :: "bytes \<Rightarrow> sql_param list \<Rightarrow> (bytes, 'w, handle) action"
  my_update :: "bytes \<Rightarrow> sql_param list \<Rightarrow> (bytes, 'w, int) action"
  my_rows :: "'w row_ops"

definition what_of :: "db_exn \<Rightarrow> bytes" where
  "what_of e = (case e of SQLException t \<Rightarrow> t | DbException t \<Rightarrow> t | OtherException t \<Rightarrow> t)"

definition on_pool :: "(db_exn, db_pool, 'a) action \<Rightarrow> (db_exn, db_pool \<times> 'w, 'a) action" where
  "on_pool m s = (let (r, po) = m (fst s) in (r, (po, snd s)))"

definition give_back :: "conn_id \<Rightarrow> (db_exn, db_pool \<times> 'w, unit) action" where
  "give_back a = modify_act (\<lambda>(po, w). (push_connection a po, w))"

definition getConnection :: "'w sql_ops \<Rightarrow> (db_exn, db_pool \<times> 'w, conn_id) action" where
  "getConnection S =
     bind_act (on_pool take_connection) (\<lambda>r.
       case r of
         None \<Rightarrow> lift_out (Crash Blocked)
       | Some a \<Rightarrow>
           catch_act (bind_act (probe S a) (\<lambda>_. return_act a))
             (\<lambda>e. bind_act (give_back a) (\<lambda>_. throw_act e)))"

definition using_connection ::
    "'w sql_ops \<Rightarrow> (conn_id \<Rightarrow> (db_exn, db_pool \<times> 'w, 'a) action) \<Rightarrow>
      (db_exn, db_pool \<times> 'w, 'a) action" where
  "using_connection S f =
     bind_act (getConnection S) (\<lambda>a.
     bind_act
       (catch_act (f a) (\<lambda>e. bind_act (give_back a) (\<lambda>_. throw_act e)))
       (\<lambda>r. bind_act (give_back a) (\<lambda>_. return_act r)))"

definition mysql_executeQuery ::
    "'w sql_ops \<Rightarrow> bytes \<Rightarrow> sql_param list \<Rightarrow> (db_exn, db_pool \<times> 'w, handle) action" where
  "mysql_executeQuery S sql args = using_connection S (\<lambda>a. query_on S a sql args)"

definition mysql_executeUpdate ::
    "'w sql_ops \<Rightarrow> bytes \<Rightarrow> sql_param list \<Rightarrow> (db_exn, db_pool \<times> 'w, int) action" where
  "mysql_executeUpdate S sql args = using_connection S (\<lambda>a. update_on S a sql args)"

definition on_driver :: "('e, 'w, 'a) action \<Rightarrow> ('e, db_pool \<times> 'w, 'a) action" where
  "on_driver m s = (let (r, w) = m (snd s) in (r, (fst s, w)))"

definition mysql_util :: "'w sql_ops \<Rightarrow> 'w row_ops \<Rightarrow> (db_pool \<times> 'w) mysql_ops" where
  "mysql_util S R =
     \<lparr>my_init = (\<lambda>host user password database poolSize.
        catch_act (init S host user password database poolSize) (\<lambda>e. throw_act (what_of e))),
      my_query = (\<lambda>sql args. catch_act (mysql_executeQuery S sql args) (\<lambda>e. throw_act (what_of e))),
      my_update = (\<lambda>sql args. catch_act (mysql_executeUpdate S sql args) (\<lambda>e. throw_act (what_of e))),
      my_rows = \<lparr>row_next = (\<lambda>h. on_driver (row_next R h)),
                 row_getString = (\<lambda>h c. on_driver (row_getString R h c)),
                 row_getInt = (\<lambda>h c. on_driver (row_getInt R h c)),
                 row_getInt64 = (\<lambda>h c. on_driver (row_getInt64 R h c))\<rparr>\<rparr>"

subsection \<open>The connection comes back\<close>

lemma keeps_query [intro]: "keeps_queue (query_on S a sql args)" "keeps_queue (update_on S a sql args)"
  by (simp_all add: keeps_queue_def query_on_def update_on_def on_sql_def split: prod.split)

lemma getConnection_run:
  assumes "getConnection S (po, w) = (r, (po', w'))" and q: "po_connections po = a # rest"
  shows "case r of Ok b \<Rightarrow> b = a \<and> po_connections po' = rest
    | Throw e \<Rightarrow> po_connections po' = rest @ [a] | Crash x \<Rightarrow> True"
proof -
  let ?po1 = "po\<lparr>po_connections := rest\<rparr>"
  have run: "catch_act (bind_act (probe S a) (\<lambda>_. return_act a))
      (\<lambda>e. bind_act (give_back a) (\<lambda>_. throw_act e)) (?po1, w) = (r, (po', w'))"
    using assms by (simp add: getConnection_def on_pool_def take_connection_def bind_act_def)
  obtain r1 po1 w1 where p: "probe S a (?po1, w) = (r1, (po1, w1))" by (metis surj_pair)
  have "po_connections po1 = rest" using probe_keeps [OF p] by (simp add: same_queue_def)
  then show ?thesis using run p
    by (cases r1) (auto simp: catch_act_def bind_act_def return_act_def throw_act_def give_back_def
        modify_act_def push_connection_def)
qed

lemma using_connection_run:
  assumes "using_connection S f (po, w) = (r, (po', w'))" and q: "po_connections po = a # rest"
    and f: "\<And>a. keeps_queue (f a)"
  shows "case r of Crash x \<Rightarrow> True | _ \<Rightarrow> po_connections po' = rest @ [a]"
proof -
  obtain r1 po1 w1 where g: "getConnection S (po, w) = (r1, (po1, w1))" by (metis surj_pair)
  note c = getConnection_run [OF g q]
  show ?thesis
  proof (cases r1)
    case (Ok b)
    obtain r2 po2 w2 where h: "f b (po1, w1) = (r2, (po2, w2))" by (metis surj_pair)
    have "po_connections po2 = rest" "b = a"
      using c Ok keeps_queueD [OF f h] by (auto simp: same_queue_def)
    then show ?thesis using assms(1) g h Ok
      by (cases r2) (auto simp: using_connection_def catch_act_def bind_act_def return_act_def
          throw_act_def give_back_def modify_act_def push_connection_def)
  next
    case (Throw e)
    then show ?thesis using assms(1) g c by (auto simp: using_connection_def bind_act_def)
  next
    case (Crash x)
    then show ?thesis using assms(1) g by (auto simp: using_connection_def bind_act_def)
  qed
qed

lemma mysql_queue:
  assumes q: "po_connections po = a # rest"
  shows "my_query (mysql_util S R) sql args (po, w) = (r, (po', w')) \<Longrightarrow>
      (\<And>x. r \<noteq> Crash x) \<Longrightarrow> po_connections po' = rest @ [a]"
    and "my_update (mysql_util S R) sql args (po, w) = (n, (po', w')) \<Longrightarrow>
      (\<And>x. n \<noteq> Crash x) \<Longrightarrow> po_connections po' = rest @ [a]"
proof -
  assume 1: "my_query (mysql_util S R) sql args (po, w) = (r, (po', w'))" "\<And>x. r \<noteq> Crash x"
  obtain r1 po1 w1 where g: "mysql_executeQuery S sql args (po, w) = (r1, (po1, w1))"
    by (metis surj_pair)
  show "po_connections po' = rest @ [a]"
    using using_connection_run [OF g [unfolded mysql_executeQuery_def] q keeps_query(1)] 1 g
    by (cases r1) (auto simp: mysql_util_def catch_act_def throw_act_def)
next
  assume 1: "my_update (mysql_util S R) sql args (po, w) = (n, (po', w'))" "\<And>x. n \<noteq> Crash x"
  obtain r1 po1 w1 where g: "mysql_executeUpdate S sql args (po, w) = (r1, (po1, w1))"
    by (metis surj_pair)
  show "po_connections po' = rest @ [a]"
    using using_connection_run [OF g [unfolded mysql_executeUpdate_def] q keeps_query(2)] 1 g
    by (cases r1) (auto simp: mysql_util_def catch_act_def throw_act_def)
qed

text \<open>C22: whether a query or an update returns or throws, and wherever it throws (in the check of the
  connection, in preparing, binding or running), the connection it took is back at the end of the
  queue: statements run one after the other never wait as long as the pool has one connection.\<close>

theorem connection_comes_back:
  assumes "po_connections po = a # rest"
  shows "(\<forall>r po' w'. my_query (mysql_util S R) sql args (po, w) = (r, (po', w')) \<longrightarrow>
       (\<forall>x. r \<noteq> Crash x) \<longrightarrow> po_connections po' = rest @ [a]) \<and>
    (\<forall>n po' w'. my_update (mysql_util S R) sql args (po, w) = (n, (po', w')) \<longrightarrow>
       (\<forall>x. n \<noteq> Crash x) \<longrightarrow> po_connections po' = rest @ [a])"
  using mysql_queue [OF assms] by metis

definition fine_rows :: "unit row_ops" where
  "fine_rows = \<lparr>row_next = (\<lambda>h. return_act True), row_getString = (\<lambda>h c. return_act []),
     row_getInt = (\<lambda>h c. return_act 0), row_getInt64 = (\<lambda>h c. return_act 0)\<rparr>"

theorem connection_comes_back_witness:
  "\<exists>po'. my_query (mysql_util fine_sql fine_rows) ''SELECT 1'' [PInt 3] (one_connection, ()) =
      (Ok 0, (po', ())) \<and> po_connections po' = [0]"
proof -
  have q: "po_connections one_connection = 0 # []" by (simp add: one_connection_def)
  let ?po = "one_connection\<lparr>po_connections := []\<rparr>"
  have "db_conn (po_objects ?po 0) = Some 0"
    by (simp add: one_connection_def fine_object_def)
  then have "probe fine_sql 0 (?po, ()) = (Ok (), (?po, ()))" by (rule fine_probe)
  then have "getConnection fine_sql (one_connection, ()) = (Ok 0, (?po, ()))"
    by (simp add: getConnection_def on_pool_def take_connection_def q bind_act_def catch_act_def
        return_act_def)
  then obtain po' where run: "my_query (mysql_util fine_sql fine_rows) ''SELECT 1'' [PInt 3] (one_connection, ()) =
      (Ok 0, (po', ()))"
    by (simp add: mysql_util_def mysql_executeQuery_def using_connection_def query_on_def on_sql_def
        executeQuery_def deref_def one_connection_def fine_object_def fine_sql_def bind_act_def
        catch_act_def return_act_def give_back_def modify_act_def)
  with connection_comes_back [OF q, of fine_sql fine_rows "''SELECT 1''" "[PInt 3]" "()"]
  have "po_connections po' = [0]" by auto
  with run show ?thesis by blast
qed

end
