(* ===== verification/Json.thy ===== *)
theory Json
  imports Actions
begin

section \<open>The interface of the JSON library\<close>

text \<open>
  \<open>HttpServer/include/utils/JsonUtil.h\<close> includes \<open>nlohmann::json\<close>, which is not part of the
  repository.  Its functions are the fields of \<open>json_ops\<close> over an unknown type \<open>'j\<close> of values;
  exceptions are their \<open>what()\<close>.  \<open>json_laws\<close> is what its documentation promises and the
  program relies on.  \<open>simple_json\<close> is an implementation of the operations whose text form keeps
  no structure but that of the values the witnesses use.
\<close>

record 'j json_ops =
  js_parse :: "bytes \<Rightarrow> (bytes, 'j) outcome"
  js_read :: "bytes \<Rightarrow> (bytes, 'j) outcome"           \<comment> \<open>\<open>in >> j\<close>: the first value of a stream, what follows is left\<close>
  js_dump :: "'j \<Rightarrow> (bytes, bytes) outcome"           \<comment> \<open>\<open>dump()\<close>; throws on text that is not UTF-8\<close>
  js_dump4 :: "'j \<Rightarrow> (bytes, bytes) outcome"          \<comment> \<open>\<open>dump(4)\<close>\<close>
  js_null :: 'j
  js_string :: "bytes \<Rightarrow> 'j"
  js_bool :: "bool \<Rightarrow> 'j"
  js_int :: "int \<Rightarrow> 'j"
  js_double :: "bytes \<Rightarrow> 'j"                          \<comment> \<open>the literal\<close>
  js_array :: "'j list \<Rightarrow> 'j"
  js_object :: "(bytes \<times> 'j) list \<Rightarrow> 'j"              \<comment> \<open>the members in the order they are assigned\<close>
  js_contains :: "bytes \<Rightarrow> 'j \<Rightarrow> bool"                \<comment> \<open>false when it is not an object\<close>
  js_at :: "bytes \<Rightarrow> 'j \<Rightarrow> (bytes, 'j) outcome"       \<comment> \<open>\<open>operator[]\<close>: a null for a missing key\<close>
  js_cat :: "bytes \<Rightarrow> 'j \<Rightarrow> (bytes, 'j) outcome"      \<comment> \<open>\<open>operator[]\<close> of a \<open>const\<close> value\<close>
  js_nth :: "nat \<Rightarrow> 'j \<Rightarrow> (bytes, 'j) outcome"
  js_elements :: "'j \<Rightarrow> 'j list"
  js_items :: "'j \<Rightarrow> (bytes \<times> 'j) list"
  js_empty :: "'j \<Rightarrow> bool"
  js_is_string :: "'j \<Rightarrow> bool"
  js_is_array :: "'j \<Rightarrow> bool"
  js_is_object :: "'j \<Rightarrow> bool"
  js_is_null :: "'j \<Rightarrow> bool"
  js_is_integer :: "'j \<Rightarrow> bool"                       \<comment> \<open>\<open>is_number_integer\<close>: signed or unsigned\<close>
  js_is_unsigned :: "'j \<Rightarrow> bool"
  js_get_string :: "'j \<Rightarrow> (bytes, bytes) outcome"     \<comment> \<open>throws when it is not a string\<close>
  js_get_int :: "'j \<Rightarrow> int"
  js_get_unsigned :: "'j \<Rightarrow> nat"

definition json_laws :: "'j json_ops \<Rightarrow> bool" where
  "json_laws J \<longleftrightarrow>
     (\<forall>s. js_get_string J (js_string J s) = Ok s \<and> js_is_string J (js_string J s)) \<and>
     (\<forall>k ms. js_contains J k (js_object J ms) \<longleftrightarrow> k \<in> fst ` set ms) \<and>
     (\<forall>k ms v. map_of (rev ms) k = Some v \<longrightarrow>
        js_at J k (js_object J ms) = Ok v \<and> js_cat J k (js_object J ms) = Ok v) \<and>
     (\<forall>k ms. k \<notin> fst ` set ms \<longrightarrow> js_cat J k (js_object J ms) = Crash AssertFailed) \<and>
     (\<forall>xs. (js_empty J (js_array J xs) \<longleftrightarrow> xs = []) \<and> js_is_array J (js_array J xs) \<and>
        js_elements J (js_array J xs) = xs) \<and>
     (\<forall>xs i. i < length xs \<longrightarrow> js_nth J i (js_array J xs) = Ok (xs ! i))"

definition string_field :: "'j json_ops \<Rightarrow> bytes \<Rightarrow> 'j \<Rightarrow> (bytes, bytes) outcome" where
  \<comment> \<open>\<open>std::string s = j["key"];\<close>\<close>
  "string_field J k j = bind_out (js_at J k j) (js_get_string J)"

definition optional_field :: "'j json_ops \<Rightarrow> bytes \<Rightarrow> 'j \<Rightarrow> bytes \<Rightarrow> (bytes, bytes) outcome" where
  \<comment> \<open>\<open>if (j.contains("key")) s = j["key"];\<close>\<close>
  "optional_field J k j s = (if js_contains J k j then string_field J k j else Ok s)"

lemma json_string:
  assumes "json_laws J"
  shows "js_get_string J (js_string J s) = Ok s" "js_is_string J (js_string J s)"
  using assms [unfolded json_laws_def, THEN conjunct1, rule_format, of s] by simp_all

lemma json_contains:
  assumes "json_laws J"
  shows "js_contains J k (js_object J ms) \<longleftrightarrow> k \<in> fst ` set ms"
  using assms [unfolded json_laws_def, THEN conjunct2, THEN conjunct1, rule_format, of k ms] .

lemma json_member:
  assumes "json_laws J" and "map_of (rev ms) k = Some v"
  shows "js_at J k (js_object J ms) = Ok v" "js_cat J k (js_object J ms) = Ok v"
  using assms(1) [unfolded json_laws_def, THEN conjunct2, THEN conjunct2, THEN conjunct1, rule_format, OF assms(2)] by simp_all

lemma json_missing:
  assumes "json_laws J" and "k \<notin> fst ` set ms"
  shows "js_cat J k (js_object J ms) = Crash AssertFailed"
  using assms(1) [unfolded json_laws_def, THEN conjunct2, THEN conjunct2, THEN conjunct2, THEN conjunct1, rule_format, OF assms(2)] .

lemma json_array:
  assumes "json_laws J"
  shows "js_empty J (js_array J xs) \<longleftrightarrow> xs = []" "js_is_array J (js_array J xs)"
    "js_elements J (js_array J xs) = xs"
  using assms [unfolded json_laws_def, THEN conjunct2, THEN conjunct2, THEN conjunct2, THEN conjunct2, THEN conjunct1, rule_format, of xs] by simp_all

lemma json_nth:
  assumes "json_laws J" and "i < length xs"
  shows "js_nth J i (js_array J xs) = Ok (xs ! i)"
  using assms(1) [unfolded json_laws_def, THEN conjunct2, THEN conjunct2, THEN conjunct2, THEN conjunct2, THEN conjunct2, rule_format, OF assms(2)] .

lemma json_string_field:
  assumes "json_laws J" and "map_of (rev ms) k = Some (js_string J s)"
  shows "string_field J k (js_object J ms) = Ok s"
    "optional_field J k (js_object J ms) d = Ok s"
proof -
  show 1: "string_field J k (js_object J ms) = Ok s"
    by (simp add: string_field_def json_member [OF assms] json_string [OF assms(1)])
  have "k \<in> fst ` set ms"
    using assms(2) by (metis domI dom_map_of_conv_image_fst set_rev)
  then show "optional_field J k (js_object J ms) d = Ok s"
    by (simp add: optional_field_def json_contains [OF assms(1)] 1)
qed

subsection \<open>An implementation\<close>

datatype simple_json =
  SNull | SString bytes | SBool bool | SInt int | SDouble bytes | SArray "simple_json list"
| SObject "(bytes \<times> simple_json) list"

definition simple_at :: "(bytes, simple_json) outcome \<Rightarrow> bytes \<Rightarrow> simple_json \<Rightarrow> (bytes, simple_json) outcome" where
  "simple_at missing k j =
     (case j of
        SObject ms \<Rightarrow> (case map_of (rev ms) k of Some v \<Rightarrow> Ok v | None \<Rightarrow> missing)
      | _ \<Rightarrow> Throw ''type_error.305'')"

definition simple_ops :: "(bytes \<Rightarrow> (bytes, simple_json) outcome) \<Rightarrow> (simple_json \<Rightarrow> (bytes, bytes) outcome) \<Rightarrow>
    simple_json json_ops" where
  \<comment> \<open>for any reader and writer of texts\<close>
  "simple_ops reader writer = \<lparr>
     js_parse = reader, js_read = reader, js_dump = writer, js_dump4 = writer,
     js_null = SNull, js_string = SString, js_bool = SBool, js_int = SInt, js_double = SDouble,
     js_array = SArray, js_object = SObject,
     js_contains = (\<lambda>k j. case j of SObject ms \<Rightarrow> k \<in> fst ` set ms | _ \<Rightarrow> False),
     js_at = simple_at (Ok SNull), js_cat = simple_at (Crash AssertFailed),
     js_nth = (\<lambda>i j. case j of SArray xs \<Rightarrow> if i < length xs then Ok (xs ! i) else Crash AssertFailed
                       | _ \<Rightarrow> Throw ''type_error.305''),
     js_elements = (\<lambda>j. case j of SArray xs \<Rightarrow> xs | _ \<Rightarrow> []),
     js_items = (\<lambda>j. case j of SObject ms \<Rightarrow> ms | _ \<Rightarrow> []),
     js_empty = (\<lambda>j. j = SNull \<or> j = SArray [] \<or> j = SObject []),
     js_is_string = (\<lambda>j. case j of SString _ \<Rightarrow> True | _ \<Rightarrow> False),
     js_is_array = (\<lambda>j. case j of SArray _ \<Rightarrow> True | _ \<Rightarrow> False),
     js_is_object = (\<lambda>j. case j of SObject _ \<Rightarrow> True | _ \<Rightarrow> False),
     js_is_null = (\<lambda>j. j = SNull),
     js_is_integer = (\<lambda>j. case j of SInt _ \<Rightarrow> True | _ \<Rightarrow> False),
     js_is_unsigned = (\<lambda>j. case j of SInt n \<Rightarrow> 0 \<le> n | _ \<Rightarrow> False),
     js_get_string = (\<lambda>j. case j of SString s \<Rightarrow> Ok s | _ \<Rightarrow> Throw ''type_error.302''),
     js_get_int = (\<lambda>j. case j of SInt n \<Rightarrow> n | _ \<Rightarrow> 0),
     js_get_unsigned = (\<lambda>j. case j of SInt n \<Rightarrow> nat n | _ \<Rightarrow> 0)\<rparr>"

lemma simple_json_laws: "json_laws (simple_ops reader writer)"
proof -
  have "map_of (rev ms) k = Some v \<Longrightarrow> k \<in> fst ` set ms" for k v and ms :: "(bytes \<times> simple_json) list"
    using map_of_SomeD [of "rev ms" k v] by force
  moreover have "k \<notin> fst ` set ms \<Longrightarrow> map_of (rev ms) k = None" for k and ms :: "(bytes \<times> simple_json) list"
    by (simp add: map_of_eq_None_iff)
  ultimately show ?thesis
    unfolding json_laws_def simple_ops_def simple_at_def
    by (auto split: option.split)
qed

end
