(* ===== verification/AI_Strategy.thy ===== *)
theory AI_Strategy
  imports Json
begin

section \<open>Model strategies and their factory\<close>

text \<open>
  \<open>AIApps/ChatServer/include/AIUtil/AIStrategy.h\<close>, \<open>AIFactory.h\<close> and \<open>src/AIUtil/AIStrategy.cpp\<close>,
  \<open>AIFactory.cpp\<close>: one constructor per class, holding its \<open>apiKey_\<close>; a virtual function is a
  function by cases.  \<open>env\<close> is \<open>std::getenv\<close>.  A message is its text and its time stamp.
\<close>

type_synonym message = "bytes \<times> int"
type_synonym environment = "bytes \<Rightarrow> bytes option"

datatype strategy = Aliyun bytes | DouBao bytes | AliyunRAG bytes | AliyunMcp bytes

definition from_env :: "bytes \<Rightarrow> bytes \<Rightarrow> (bytes \<Rightarrow> 'a) \<Rightarrow> environment \<Rightarrow> (bytes, 'a) outcome" where
  \<comment> \<open>what the constructors do with the variable of their key\<close>
  "from_env var err f env = (case env var of None \<Rightarrow> Throw err | Some key \<Rightarrow> Ok (f key))"

definition AliyunStrategy :: "environment \<Rightarrow> (bytes, strategy) outcome" where
  "AliyunStrategy = from_env ''DASHSCOPE_API_KEY'' ''Aliyun API Key not found!'' Aliyun"

definition DouBaoStrategy :: "environment \<Rightarrow> (bytes, strategy) outcome" where
  "DouBaoStrategy = from_env ''DOUBAO_API_KEY'' ''DOUBAO API Key not found!'' DouBao"

definition AliyunRAGStrategy :: "environment \<Rightarrow> (bytes, strategy) outcome" where
  "AliyunRAGStrategy = from_env ''DASHSCOPE_API_KEY'' ''Aliyun API Key not found!'' AliyunRAG"

definition AliyunMcpStrategy :: "environment \<Rightarrow> (bytes, strategy) outcome" where
  "AliyunMcpStrategy = from_env ''DASHSCOPE_API_KEY'' ''Aliyun API Key not found!'' AliyunMcp"

fun isMCPModel :: "strategy \<Rightarrow> bool" where
  "isMCPModel (AliyunMcp _) = True"
| "isMCPModel _ = False"

fun getApiKey :: "strategy \<Rightarrow> bytes" where
  "getApiKey (Aliyun k) = k"
| "getApiKey (DouBao k) = k"
| "getApiKey (AliyunRAG k) = k"
| "getApiKey (AliyunMcp k) = k"

definition aliyun_url :: bytes where
  "aliyun_url = ''https://dashscope.aliyuncs.com/compatible-mode/v1/chat/completions''"

definition doubao_url :: bytes where
  "doubao_url = ''https://ark.cn-beijing.volces.com/api/v3/chat/completions''"

definition rag_url :: "environment \<Rightarrow> (bytes, bytes) outcome" where
  "rag_url env =
     (case env ''Knowledge_Base_ID'' of
        None \<Rightarrow> Throw ''Knowledge_Base_ID not found!''
      | Some key \<Rightarrow> Ok (''https://dashscope.aliyuncs.com/api/v1/apps/'' @ key @ ''/completion''))"

definition mcp_url :: bytes where
  "mcp_url = ''https://dashscope.aliyuncs.com/compatible-mode/v1/chat/completions''"

fun getApiUrl :: "environment \<Rightarrow> strategy \<Rightarrow> (bytes, bytes) outcome" where
  "getApiUrl env (Aliyun _) = Ok aliyun_url"
| "getApiUrl env (DouBao _) = Ok doubao_url"
| "getApiUrl env (AliyunRAG _) = rag_url env"
| "getApiUrl env (AliyunMcp _) = Ok mcp_url"

definition aliyun_model :: bytes where "aliyun_model = ''qwen-plus''"

definition doubao_model :: "environment \<Rightarrow> bytes" where
  "doubao_model env =
     (case env ''DOUBAO_MODEL_ID'' of Some m \<Rightarrow> m | None \<Rightarrow> ''doubao-seed-1-6-thinking-250715'')"

definition rag_model :: bytes where "rag_model = []"

definition mcp_model :: bytes where "mcp_model = ''qwen-plus''"

fun getModel :: "environment \<Rightarrow> strategy \<Rightarrow> bytes" where
  "getModel env (Aliyun _) = aliyun_model"
| "getModel env (DouBao _) = doubao_model env"
| "getModel env (AliyunRAG _) = rag_model"
| "getModel env (AliyunMcp _) = mcp_model"

subsection \<open>Requests\<close>

definition role :: "nat \<Rightarrow> bytes" where
  "role i = (if i mod 2 = 0 then ''user'' else ''assistant'')"

definition message_array :: "'j json_ops \<Rightarrow> message list \<Rightarrow> 'j" where
  \<comment> \<open>the loop of the four \<open>buildRequest\<close>\<close>
  "message_array J messages =
     js_array J (map (\<lambda>(i, m). js_object J [(''role'', js_string J (role i)),
                                           (''content'', js_string J (fst m))])
                     (enumerate 0 messages))"

definition model_request :: "'j json_ops \<Rightarrow> bytes \<Rightarrow> message list \<Rightarrow> 'j" where
  \<comment> \<open>the body of three of them\<close>
  "model_request J model messages =
     js_object J [(''model'', js_string J model), (''messages'', message_array J messages)]"

definition aliyun_request :: "'j json_ops \<Rightarrow> message list \<Rightarrow> 'j" where
  "aliyun_request J messages = model_request J aliyun_model messages"

definition doubao_request :: "'j json_ops \<Rightarrow> environment \<Rightarrow> message list \<Rightarrow> 'j" where
  "doubao_request J env messages = model_request J (doubao_model env) messages"

definition rag_request :: "'j json_ops \<Rightarrow> message list \<Rightarrow> 'j" where
  "rag_request J messages =
     js_object J [(''input'', js_object J [(''messages'', message_array J messages)]),
                  (''parameters'', js_object J [])]"

definition mcp_request :: "'j json_ops \<Rightarrow> message list \<Rightarrow> 'j" where
  "mcp_request J messages = model_request J mcp_model messages"

fun buildRequest :: "'j json_ops \<Rightarrow> environment \<Rightarrow> strategy \<Rightarrow> message list \<Rightarrow> 'j" where
  "buildRequest J env (Aliyun _) messages = aliyun_request J messages"
| "buildRequest J env (DouBao _) messages = doubao_request J env messages"
| "buildRequest J env (AliyunRAG _) messages = rag_request J messages"
| "buildRequest J env (AliyunMcp _) messages = mcp_request J messages"

subsection \<open>Responses\<close>

definition first_choice_content :: "'j json_ops \<Rightarrow> 'j \<Rightarrow> (bytes, bytes) outcome" where
  \<comment> \<open>\<open>parseResponse\<close> of \<open>AliyunStrategy\<close>\<close>
  "first_choice_content J response =
     (if js_contains J ''choices'' response
      then bind_out (js_cat J ''choices'' response) (\<lambda>choices.
             if \<not> js_empty J choices
             then bind_out (js_nth J 0 choices) (\<lambda>choice0.
                  bind_out (js_cat J ''message'' choice0) (\<lambda>message.
                  bind_out (js_cat J ''content'' message) (js_get_string J)))
             else Ok [])
      else Ok [])"

definition mcp_response :: "'j json_ops \<Rightarrow> 'j \<Rightarrow> (bytes, bytes) outcome" where
  \<comment> \<open>\<open>parseResponse\<close> of \<open>AliyunMcpStrategy\<close>, the same lines\<close>
  "mcp_response J response = first_choice_content J response"

fun join_parts :: "'j json_ops \<Rightarrow> 'j list \<Rightarrow> (bytes, bytes) outcome" where
  \<comment> \<open>the loop over \<open>content\<close>\<close>
  "join_parts J [] = Ok []"
| "join_parts J (part # rest) =
     bind_out
       (if js_is_object J part \<and> js_contains J ''text'' part
        then bind_out (js_cat J ''text'' part) (\<lambda>t.
               if js_is_string J t then js_get_string J t else js_dump J part)
        else js_dump J part)
       (\<lambda>s. bind_out (join_parts J rest) (\<lambda>r. Ok (s @ r)))"

definition content_text :: "'j json_ops \<Rightarrow> 'j \<Rightarrow> (bytes, bytes) outcome" where
  "content_text J content =
     (if js_is_string J content then js_get_string J content
      else if js_is_array J content then join_parts J (js_elements J content)
      else if \<not> js_is_null J content then js_dump J content
      else Ok [])"

definition reasoning_text :: "'j json_ops \<Rightarrow> 'j \<Rightarrow> (bytes, bytes) outcome" where
  "reasoning_text J r =
     (if js_is_string J r then js_get_string J r
      else if \<not> js_is_null J r then js_dump J r
      else Ok [])"

definition extractFromMessage :: "'j json_ops \<Rightarrow> 'j \<Rightarrow> (bytes, bytes) outcome" where
  "extractFromMessage J msg =
     bind_out
       (if js_contains J ''content'' msg
        then bind_out (js_cat J ''content'' msg) (content_text J)
        else Ok [])
       (\<lambda>out. if out = [] \<and> js_contains J ''reasoning_content'' msg
              then bind_out (js_cat J ''reasoning_content'' msg) (reasoning_text J)
              else Ok out)"

definition api_error_prefix :: bytes where
  "api_error_prefix = ''[API'' @ map char_of [0xE9, 0x94, 0x99, 0xE8, 0xAF, 0xAF :: nat] @ ''] ''"

definition error_text :: "'j json_ops \<Rightarrow> 'j \<Rightarrow> (bytes, bytes) outcome" where
  "error_text J e =
     (if js_is_object J e \<and> js_contains J ''message'' e
      then bind_out (js_cat J ''message'' e) (\<lambda>m.
             if js_is_string J m then js_get_string J m else js_dump J e)
      else js_dump J e)"

definition doubao_response :: "'j json_ops \<Rightarrow> 'j \<Rightarrow> (bytes, bytes) outcome" where
  "doubao_response J response =
     (if js_contains J ''error'' response
      then bind_out (bind_out (js_cat J ''error'' response) (error_text J))
             (\<lambda>msg. Ok (api_error_prefix @ msg))
      else if \<not> js_contains J ''choices'' response then Ok []
      else bind_out (js_cat J ''choices'' response) (\<lambda>choices.
           if js_empty J choices then Ok []
           else bind_out (js_nth J 0 choices) (\<lambda>choice0.
             if \<not> js_contains J ''message'' choice0 then Ok []
             else bind_out (js_cat J ''message'' choice0) (\<lambda>message.
                  bind_out (extractFromMessage J message) (\<lambda>text.
                  if text \<noteq> [] then Ok text
                  else if js_contains J ''text'' choice0
                  then bind_out (js_cat J ''text'' choice0) (\<lambda>t.
                         if js_is_string J t then js_get_string J t else Ok [])
                  else Ok [])))))"

definition rag_response :: "'j json_ops \<Rightarrow> 'j \<Rightarrow> (bytes, bytes) outcome" where
  "rag_response J response =
     (if js_contains J ''output'' response
      then bind_out (js_cat J ''output'' response) (\<lambda>out.
             if js_contains J ''text'' out
             then bind_out (js_cat J ''text'' out) (js_get_string J)
             else Ok [])
      else Ok [])"

fun parseResponse :: "'j json_ops \<Rightarrow> strategy \<Rightarrow> 'j \<Rightarrow> (bytes, bytes) outcome" where
  "parseResponse J (Aliyun _) r = first_choice_content J r"
| "parseResponse J (DouBao _) r = doubao_response J r"
| "parseResponse J (AliyunRAG _) r = rag_response J r"
| "parseResponse J (AliyunMcp _) r = mcp_response J r"

subsection \<open>StrategyFactory\<close>

type_synonym creators = "bytes \<rightharpoonup> (environment \<Rightarrow> (bytes, strategy) outcome)"

definition registerStrategy ::
    "bytes \<Rightarrow> (environment \<Rightarrow> (bytes, strategy) outcome) \<Rightarrow> creators \<Rightarrow> creators" where
  "registerStrategy name creator creators = creators(name \<mapsto> creator)"

definition factory_instance :: creators where
  \<comment> \<open>the factory as \<open>instance()\<close> makes it\<close>
  "factory_instance = Map.empty"

definition StrategyRegister ::
    "bytes \<Rightarrow> (environment \<Rightarrow> (bytes, strategy) outcome) \<Rightarrow> creators \<Rightarrow> creators" where
  \<comment> \<open>the class is given by its constructor\<close>
  "StrategyRegister name constr creators = registerStrategy name (\<lambda>env. constr env) creators"

definition registered :: creators where
  \<comment> \<open>the four \<open>static StrategyRegister\<close> objects\<close>
  "registered =
     StrategyRegister ''4'' AliyunMcpStrategy (StrategyRegister ''3'' AliyunRAGStrategy
       (StrategyRegister ''2'' DouBaoStrategy (StrategyRegister ''1'' AliyunStrategy factory_instance)))"

definition create :: "creators \<Rightarrow> environment \<Rightarrow> bytes \<Rightarrow> (bytes, strategy) outcome" where
  "create creators env name =
     (case creators name of
        None \<Rightarrow> Throw (''Unknown strategy: '' @ name)
      | Some creator \<Rightarrow> creator env)"

subsection \<open>Facts\<close>

lemma strategy_names:
  "create registered env name =
     (if name = ''1'' then AliyunStrategy env else if name = ''2'' then DouBaoStrategy env
      else if name = ''3'' then AliyunRAGStrategy env else if name = ''4'' then AliyunMcpStrategy env
      else Throw (''Unknown strategy: '' @ name))"
  by (simp add: create_def registered_def StrategyRegister_def registerStrategy_def factory_instance_def)

lemma create_not_crash: "create registered env name \<noteq> Crash x"
  by (simp add: strategy_names AliyunStrategy_def DouBaoStrategy_def AliyunRAGStrategy_def
      AliyunMcpStrategy_def from_env_def split: option.split)

lemma message_array_nth:
  assumes "json_laws J" and "i < length ms"
  shows "js_nth J i (message_array J ms) =
    Ok (js_object J [(''role'', js_string J (role i)), (''content'', js_string J (fst (ms ! i)))])"
  using assms by (simp add: message_array_def json_nth nth_enumerate_eq)

end
