(* ===== verification/AI_Config.thy ===== *)
theory AI_Config
  imports AI_Strategy "HOL-Library.AList"
begin

section \<open>Prompts and tool calls\<close>

text \<open>
  \<open>AIApps/ChatServer/include/AIUtil/AIConfig.h\<close> and \<open>src/AIUtil/AIConfig.cpp\<close>.  \<open>std::regex_replace\<close>
  is modelled for the two patterns the code uses, which match one literal text each; the
  replacement is a format string in which \<open>$\<close> has a meaning.  An unordered map is the list of its
  entries in some order of iteration, here that of insertion; only the order of the parameter names
  in the text for the model depends on it.
\<close>

record ai_tool =
  at_name :: bytes
  at_params :: "(bytes \<times> bytes) list"
  at_desc :: bytes

record 'j ai_tool_call =
  tc_toolName :: bytes
  tc_args :: 'j
  tc_isToolCall :: bool

record ai_config =
  ac_promptTemplate :: bytes
  ac_tools :: "ai_tool list"

definition new_config :: ai_config where
  "new_config = \<lparr>ac_promptTemplate = [], ac_tools = []\<rparr>"

subsection \<open>Loading\<close>

fun load_params :: "'j json_ops \<Rightarrow> (bytes \<times> 'j) list \<Rightarrow> (bytes \<times> bytes) list \<Rightarrow> (bytes, (bytes \<times> bytes) list) outcome" where
  "load_params J [] ps = Ok ps"
| "load_params J ((key, val) # rest) ps =
     bind_out (js_get_string J val) (\<lambda>s. load_params J rest (AList.update key s ps))"

definition json_value :: "'j json_ops \<Rightarrow> bytes \<Rightarrow> 'j \<Rightarrow> (bytes, bytes) outcome" where
  \<comment> \<open>\<open>value(key, "")\<close>\<close>
  "json_value J key j =
     (if \<not> js_is_object J j then Throw ''type_error.306''
      else if js_contains J key j then bind_out (js_cat J key j) (js_get_string J)
      else Ok [])"

definition load_tool :: "'j json_ops \<Rightarrow> 'j \<Rightarrow> (bytes, ai_tool) outcome" where
  "load_tool J tool =
     bind_out (json_value J ''name'' tool) (\<lambda>name.
     bind_out (json_value J ''desc'' tool) (\<lambda>desc.
     bind_out
       (if js_contains J ''params'' tool
        then bind_out (js_at J ''params'' tool) (\<lambda>p.
               if js_is_object J p then load_params J (js_items J p) [] else Ok [])
        else Ok [])
       (\<lambda>params. Ok \<lparr>at_name = name, at_params = params, at_desc = desc\<rparr>)))"

fun load_tools :: "'j json_ops \<Rightarrow> 'j list \<Rightarrow> (bytes, ai_tool list) outcome" where
  "load_tools J [] = Ok []"
| "load_tools J (t # ts) =
     bind_out (load_tool J t) (\<lambda>x. bind_out (load_tools J ts) (\<lambda>xs. Ok (x # xs)))"

definition loadFromFile ::
    "'j json_ops \<Rightarrow> bytes option \<Rightarrow> ai_config \<Rightarrow> (bytes, bool \<times> ai_config) outcome" where
  \<comment> \<open>the file's text, \<open>None\<close> when it cannot be opened\<close>
  "loadFromFile J file cfg =
     (case file of
        None \<Rightarrow> Ok (False, cfg)
      | Some text \<Rightarrow>
          bind_out (js_read J text) (\<lambda>j.
          if \<not> js_contains J ''prompt_template'' j then Ok (False, cfg)
          else bind_out (js_at J ''prompt_template'' j) (\<lambda>p.
            if \<not> js_is_string J p then Ok (False, cfg)
            else bind_out (js_get_string J p) (\<lambda>template.
              let cfg1 = cfg\<lparr>ac_promptTemplate := template\<rparr>
              in if js_contains J ''tools'' j
                 then bind_out (js_at J ''tools'' j) (\<lambda>ts.
                        if js_is_array J ts
                        then bind_out (load_tools J (js_elements J ts)) (\<lambda>tools.
                               Ok (True, cfg1\<lparr>ac_tools := ac_tools cfg1 @ tools\<rparr>))
                        else Ok (True, cfg1))
                 else Ok (True, cfg1)))))"

subsection \<open>Prompts\<close>

definition arrow :: bytes where
  "arrow = map char_of [0xC2, 0xA1, 0xC3, 0xBA :: nat]"

definition tool_line :: "ai_tool \<Rightarrow> bytes" where
  "tool_line t =
     at_name t @ ''('' @ intercalate '', '' (map fst (at_params t)) @ '') '' @ arrow @ '' '' @
     at_desc t @ [CHR 0x0A]"

definition buildToolList :: "ai_config \<Rightarrow> bytes" where
  "buildToolList cfg = concat (map tool_line (ac_tools cfg))"

function expand_format :: "bytes \<Rightarrow> bytes \<Rightarrow> bytes \<Rightarrow> bytes \<Rightarrow> bytes" where
  \<comment> \<open>\<open>match_results::format\<close>: the match, what is before and behind it, the format\<close>
  "expand_format m pre post [] = []"
| "expand_format m pre post (c # r) =
     (if c \<noteq> CHR ''$'' then c # expand_format m pre post r
      else case r of
             [] \<Rightarrow> [c]
           | d # r1 \<Rightarrow>
               if d = CHR ''$'' then d # expand_format m pre post r1
               else if d = CHR ''&'' then m @ expand_format m pre post r1
               else if d = CHR ''`'' then pre @ expand_format m pre post r1
               else if d = CHR 0x27 then post @ expand_format m pre post r1
               else if is_digit d
               then (case r1 of
                       e # r2 \<Rightarrow>
                         if is_digit e
                         then (if digit_val d * 10 + digit_val e = 0 then m else []) @
                              expand_format m pre post r2
                         else (if digit_val d = 0 then m else []) @ expand_format m pre post r1
                     | [] \<Rightarrow> if digit_val d = 0 then m else [])
               else c # expand_format m pre post r)"
  by pat_completeness auto
termination
  by (relation "measure (\<lambda>(m, pre, post, f). length f)") auto

function regex_replace :: "bytes \<Rightarrow> bytes \<Rightarrow> bytes \<Rightarrow> bytes" where
  \<comment> \<open>the literal, the format, the text\<close>
  "regex_replace lit fmt s =
     (if lit = [] then s
      else case str_find lit s of
             None \<Rightarrow> s
           | Some i \<Rightarrow>
               take i s @ expand_format lit (take i s) (drop (i + length lit) s) fmt @
               regex_replace lit fmt (drop (i + length lit) s))"
  by pat_completeness auto
termination
  by (relation "measure (\<lambda>(lit, fmt, s). length s)") (auto simp: neq_Nil_conv dest!: str_find_bound)

declare regex_replace.simps [simp del]

definition buildPrompt :: "ai_config \<Rightarrow> bytes \<Rightarrow> bytes" where
  "buildPrompt cfg userInput =
     regex_replace ''{tool_list}'' (buildToolList cfg)
       (regex_replace ''{user_input}'' userInput (ac_promptTemplate cfg))"

definition parseAIResponse :: "'j json_ops \<Rightarrow> bytes \<Rightarrow> (bytes, 'j ai_tool_call) outcome" where
  "parseAIResponse J response =
     (let none = \<lparr>tc_toolName = [], tc_args = js_null J, tc_isToolCall = False\<rparr>
      in case
           bind_out (js_parse J response) (\<lambda>j.
             if js_contains J ''tool'' j
             then bind_out (js_at J ''tool'' j) (\<lambda>tool.
                  if js_is_string J tool
                  then bind_out (js_get_string J tool) (\<lambda>name.
                       bind_out
                         (if js_contains J ''args'' j
                          then bind_out (js_at J ''args'' j) (\<lambda>a.
                                 Ok (if js_is_object J a then a else js_null J))
                          else Ok (js_null J))
                         (\<lambda>args. Ok \<lparr>tc_toolName = name, tc_args = args, tc_isToolCall = True\<rparr>))
                  else Ok none)
             else Ok none)
         of Ok call \<Rightarrow> Ok call | Throw _ \<Rightarrow> Ok none | Crash x \<Rightarrow> Crash x)"

definition user_said :: bytes where
  "user_said = map char_of [0xE4, 0xB8, 0x8B, 0xE9, 0x9D, 0xA2, 0xE6, 0x98, 0xAF, 0xE7, 0x94, 0xA8,
     0xE6, 0x88, 0xB7, 0xE8, 0xAF, 0xB4, 0xE7, 0x9A, 0x84, 0xE8, 0xAF, 0x9D, 0xEF, 0xBC, 0x9A :: nat]"

definition called_tool :: bytes where
  "called_tool = map char_of [0xE6, 0x88, 0x91, 0xE5, 0x88, 0x9A, 0xE6, 0x89, 0x8D, 0xE8, 0xB0, 0x83,
     0xE7, 0x94, 0xA8, 0xE4, 0xBA, 0x86, 0xE5, 0xB7, 0xA5, 0xE5, 0x85, 0xB7 :: nat] @ '' [''"

definition with_arguments :: bytes where
  "with_arguments = ''] '' @ map char_of [0xEF, 0xBC, 0x8C, 0xE5, 0x8F, 0x82, 0xE6, 0x95, 0xB0, 0xE4,
     0xB8, 0xBA, 0xEF, 0xBC, 0x9A :: nat]"

definition tool_returned :: bytes where
  "tool_returned = map char_of [0xE5, 0xB7, 0xA5, 0xE5, 0x85, 0xB7, 0xE8, 0xBF, 0x94, 0xE5, 0x9B,
     0x9E, 0xE7, 0x9A, 0x84, 0xE7, 0xBB, 0x93, 0xE6, 0x9E, 0x9C, 0xE5, 0xA6, 0x82, 0xE4, 0xB8, 0x8B,
     0xEF, 0xBC, 0x9A, 0x0A :: nat]"

definition please_answer :: bytes where
  "please_answer = map char_of [0xE8, 0xAF, 0xB7, 0xE6, 0xA0, 0xB9, 0xE6, 0x8D, 0xAE, 0xE4, 0xBB,
     0xA5, 0xE4, 0xB8, 0x8A, 0xE4, 0xBF, 0xA1, 0xE6, 0x81, 0xAF, 0xEF, 0xBC, 0x8C, 0xE7, 0x94, 0xA8,
     0xE8, 0x87, 0xAA, 0xE7, 0x84, 0xB6, 0xE8, 0xAF, 0xAD, 0xE8, 0xA8, 0x80, 0xE5, 0x9B, 0x9E, 0xE7,
     0xAD, 0x94, 0xE7, 0x94, 0xA8, 0xE6, 0x88, 0xB7, 0xE3, 0x80, 0x82 :: nat]"

definition buildToolResultPrompt ::
    "'j json_ops \<Rightarrow> bytes \<Rightarrow> bytes \<Rightarrow> 'j \<Rightarrow> 'j \<Rightarrow> (bytes, bytes) outcome" where
  "buildToolResultPrompt J userInput toolName toolArgs toolResult =
     bind_out (js_dump J toolArgs) (\<lambda>args.
     bind_out (js_dump4 J toolResult) (\<lambda>res.
       Ok (user_said @ userInput @ [CHR 0x0A] @ called_tool @ toolName @ with_arguments @ args @
           [CHR 0x0A] @ tool_returned @ res @ [CHR 0x0A] @ please_answer)))"

subsection \<open>Replacing\<close>

lemma expand_plain: "CHR ''$'' \<notin> set f \<Longrightarrow> expand_format m pre post f = f"
  by (induction f) auto

lemma replace_absent: "str_find lit s = None \<Longrightarrow> regex_replace lit fmt s = s"
  by (subst regex_replace.simps) simp

lemma replace_first:
  assumes "lit \<noteq> []" and "str_find lit s = Some i" and "CHR ''$'' \<notin> set fmt"
  shows "regex_replace lit fmt s =
    take i s @ fmt @ regex_replace lit fmt (drop (i + length lit) s)"
  by (subst regex_replace.simps) (simp add: assms expand_plain)

end
