(* ===== verification/Web_Service.thy ===== *)
theory Web_Service
  imports AI_Config
begin

section \<open>What the chat program asks of the system\<close>

text \<open>
  libcurl, the clock, the file system, the environment and the channels to RabbitMQ are not part
  of the repository: they are the fields of \<open>web_ops\<close> over an unknown state \<open>'w\<close>.
  \<open>wb_perform\<close> is \<open>curl_easy_perform\<close> of a request with everything set by \<open>curl_easy_setopt\<close>;
  it returns what the write callback collected, or the text of the error.
\<close>

record http_call =
  hc_url :: bytes
  hc_headers :: "bytes list"
  hc_body :: "bytes option"        \<comment> \<open>\<open>CURLOPT_POSTFIELDS\<close>\<close>

record 'w web_ops =
  wb_env :: environment
  wb_now_ms :: "'w \<Rightarrow> int \<times> 'w"
  wb_now_ns :: "'w \<Rightarrow> int \<times> 'w"
  wb_srand_time :: "'w \<Rightarrow> 'w"          \<comment> \<open>\<open>std::srand(std::time(nullptr))\<close>\<close>
  wb_rand :: "'w \<Rightarrow> nat \<times> 'w"
  wb_localtime :: "'w \<Rightarrow> bytes \<times> 'w"   \<comment> \<open>as \<open>%Y-%m-%d %H:%M:%S\<close>\<close>
  wb_sleep :: "nat \<Rightarrow> 'w \<Rightarrow> 'w"
  wb_file :: "bytes \<Rightarrow> 'w \<Rightarrow> bytes option \<times> 'w"
  wb_curl_init :: "'w \<Rightarrow> bool \<times> 'w"
  wb_perform :: "http_call \<Rightarrow> (bytes, 'w, bytes) action"
  wb_escape :: "bytes \<Rightarrow> bytes option"
  wb_channel :: "(bytes, 'w, nat) action"
    \<comment> \<open>\<open>Channel::Create("localhost", 5672, "guest", "guest", "/")\<close>\<close>
  wb_publish :: "nat \<Rightarrow> bytes \<Rightarrow> bytes \<Rightarrow> (bytes, 'w, unit) action"
    \<comment> \<open>\<open>BasicPublish\<close> on a channel: queue and message\<close>

definition curl_call ::
    "'w web_ops \<Rightarrow> http_call \<Rightarrow> (bytes, 'w, bytes option option) action" where
  \<comment> \<open>\<open>None\<close> when there is no handle, \<open>Some None\<close> when the transfer failed\<close>
  "curl_call W c w =
     (case wb_curl_init W w of
        (False, w1) \<Rightarrow> (Ok None, w1)
      | (True, w1) \<Rightarrow>
          (case wb_perform W c w1 of
             (Ok text, w2) \<Rightarrow> (Ok (Some (Some text)), w2)
           | (Throw _, w2) \<Rightarrow> (Ok (Some None), w2)
           | (Crash x, w2) \<Rightarrow> (Crash x, w2)))"

section \<open>AIToolRegistry\<close>

text \<open>\<open>AIApps/ChatServer/src/AIUtil/AIToolRegistry.cpp\<close>: the tools a model may call.\<close>

type_synonym ('j, 'w) tool_func = "'j \<Rightarrow> (bytes, 'w, 'j) action"
type_synonym ('j, 'w) tool_registry = "bytes \<rightharpoonup> ('j, 'w) tool_func"

definition json_error :: "'j json_ops \<Rightarrow> bytes \<Rightarrow> 'j" where
  "json_error J text = js_object J [(''error'', js_string J text)]"

definition getWeather :: "'j json_ops \<Rightarrow> 'w web_ops \<Rightarrow> ('j, 'w) tool_func" where
  "getWeather J W args =
     (if \<not> js_contains J ''city'' args then return_act (json_error J ''Missing parameter: city'')
      else bind_act (lift_out (bind_out (js_cat J ''city'' args) (js_get_string J))) (\<lambda>city.
        case wb_escape W city of
          None \<Rightarrow> return_act (json_error J ''URL encode failed'')
        | Some encodedCity \<Rightarrow>
            bind_act
              (curl_call W \<lparr>hc_url = ''https://wttr.in/'' @ encodedCity @ ''?format=3&lang=zh'',
                            hc_headers = [], hc_body = None\<rparr>)
              (\<lambda>r. return_act (case r of
                 None \<Rightarrow> json_error J ''Failed to init CURL''
               | Some None \<Rightarrow> json_error J ''CURL request failed''
               | Some (Some response) \<Rightarrow>
                   js_object J [(''city'', js_string J city), (''weather'', js_string J response)]))))"

definition getTime :: "'j json_ops \<Rightarrow> 'w web_ops \<Rightarrow> ('j, 'w) tool_func" where
  "getTime J W args w =
     (let (buffer, w1) = wb_localtime W w
      in (Ok (js_object J [(''time'', js_string J buffer)]), w1))"

definition registerTool ::
    "bytes \<Rightarrow> ('j, 'w) tool_func \<Rightarrow> ('j, 'w) tool_registry \<Rightarrow> ('j, 'w) tool_registry" where
  "registerTool name f tools = tools(name \<mapsto> f)"

definition AIToolRegistry :: "'j json_ops \<Rightarrow> 'w web_ops \<Rightarrow> ('j, 'w) tool_registry" where
  "AIToolRegistry J W =
     registerTool ''get_time'' (getTime J W) (registerTool ''get_weather'' (getWeather J W) Map.empty)"

definition hasTool :: "bytes \<Rightarrow> ('j, 'w) tool_registry \<Rightarrow> bool" where
  "hasTool name tools \<longleftrightarrow> tools name \<noteq> None"

definition invoke :: "('j, 'w) tool_registry \<Rightarrow> bytes \<Rightarrow> 'j \<Rightarrow> (bytes, 'w, 'j) action" where
  "invoke tools name args =
     (case tools name of
        None \<Rightarrow> throw_act (''Tool not found: '' @ name)
      | Some f \<Rightarrow> f args)"

lemma registry_tools: "hasTool name (AIToolRegistry J W) \<longleftrightarrow> name \<in> {''get_weather'', ''get_time''}"
  by (auto simp: hasTool_def AIToolRegistry_def registerTool_def)

lemma invoke_unknown:
  "\<not> hasTool name tools \<Longrightarrow> invoke tools name args w = (Throw (''Tool not found: '' @ name), w)"
  by (auto simp: hasTool_def invoke_def throw_act_def)

subsection \<open>A toy system\<close>

definition toy_web :: "environment \<Rightarrow> (http_call \<Rightarrow> (bytes, bytes) outcome) \<Rightarrow> (bytes \<Rightarrow> bytes option) \<Rightarrow>
    (nat \<times> bytes list) web_ops" where
  \<comment> \<open>a counting clock and the list of what was published; servers and files are functions\<close>
  "toy_web env server files =
     \<lparr>wb_env = env,
      wb_now_ms = (\<lambda>(n, ms). (int n + 1, (n + 1, ms))),
      wb_now_ns = (\<lambda>(n, ms). (int n + 1, (n + 1, ms))),
      wb_srand_time = id, wb_rand = (\<lambda>(n, ms). (n, (n + 1, ms))),
      wb_localtime = (\<lambda>w. (''2025-01-01 00:00:00'', w)), wb_sleep = (\<lambda>k (n, ms). (n + k, ms)),
      wb_file = (\<lambda>path w. (files path, w)), wb_curl_init = (\<lambda>w. (True, w)),
      wb_perform = (\<lambda>call w. (server call, w)), wb_escape = Some,
      wb_channel = (\<lambda>w. (Ok 0, w)),
      wb_publish = (\<lambda>i q m (n, ms). (Ok (), (n, ms @ [m])))\<rparr>"

end
