(* ===== verification/Mq_Manager.thy ===== *)
theory Mq_Manager
  imports Web_Service "HOL-Library.Word" "HOL-Library.Multiset"
begin

section \<open>MQManager\<close>

text \<open>
  \<open>AIApps/ChatServer/include/AIUtil/MQManager.h\<close> and \<open>src/AIUtil/MQManager.cpp\<close>: SQL statements
  are published to a RabbitMQ queue, over a pool of channels used in turn, and executed by worker
  threads.  The counter is a \<open>size_t\<close> of 64 bits.  The first publication constructs the singleton; a
  constructor that throws leaves it unconstructed, so that the next publication tries again.
\<close>

record 'w mq_world =
  mq_pool :: "nat list option"   \<comment> \<open>the channels of the singleton, once it is constructed\<close>
  mq_counter :: "64 word"
  mq_ext :: 'w

definition kPoolSize :: nat where "kPoolSize = 5"

definition next_channel :: "nat \<Rightarrow> 64 word \<Rightarrow> nat" where
  \<comment> \<open>\<open>counter_.fetch_add(1) % poolSize_\<close>: the old value is used\<close>
  "next_channel poolSize counter = unat counter mod poolSize"

primrec create_channels :: "'w web_ops \<Rightarrow> nat \<Rightarrow> nat list \<Rightarrow> (bytes, 'w, nat list) action" where
  "create_channels W 0 pool = return_act pool"
| "create_channels W (Suc n) pool =
     bind_act (wb_channel W) (\<lambda>channel. create_channels W n (pool @ [channel]))"

definition MQManager :: "'w web_ops \<Rightarrow> nat \<Rightarrow> (bytes, 'w, nat list) action" where
  "MQManager W poolSize = create_channels W poolSize []"

definition mq_instance :: "'w web_ops \<Rightarrow> (bytes, 'w mq_world, nat list) action" where
  \<comment> \<open>\<open>instance()\<close>; the counter of the constructor is the 0 it has until then\<close>
  "mq_instance W q =
     (case mq_pool q of
        Some pool \<Rightarrow> (Ok pool, q)
      | None \<Rightarrow>
          (case MQManager W kPoolSize (mq_ext q) of
             (Ok pool, w) \<Rightarrow> (Ok pool, q\<lparr>mq_pool := Some pool, mq_ext := w\<rparr>)
           | (Throw e, w) \<Rightarrow> (Throw e, q\<lparr>mq_ext := w\<rparr>)
           | (Crash x, w) \<Rightarrow> (Crash x, q\<lparr>mq_ext := w\<rparr>)))"

definition publish :: "'w web_ops \<Rightarrow> bytes \<Rightarrow> bytes \<Rightarrow> (bytes, 'w mq_world, unit) action" where
  "publish W queue msg =
     bind_act (mq_instance W) (\<lambda>pool q.
       let index = next_channel kPoolSize (mq_counter q);
           (r, w) = wb_publish W (pool ! index) queue msg (mq_ext q)
       in (r, q\<lparr>mq_counter := mq_counter q + 1, mq_ext := w\<rparr>))"

text \<open>The index is always one of the channels.\<close>

lemma create_channels_length:
  "create_channels W n pool w = (Ok pool', w') \<Longrightarrow> length pool' = length pool + n"
  by (induction n arbitrary: pool w) (auto simp: return_act_def bind_Ok_iff)

lemma instance_channels:
  assumes "mq_instance W q = (Ok pool, q')" and "mq_pool q \<noteq> None \<Longrightarrow> length (the (mq_pool q)) = kPoolSize"
  shows "length pool = kPoolSize" "mq_pool q' = Some pool" "next_channel kPoolSize counter < length pool"
proof -
  show 1: "length pool = kPoolSize"
    using assms create_channels_length [of W kPoolSize "[]" "mq_ext q" pool]
    by (auto simp: mq_instance_def MQManager_def split: option.splits prod.splits outcome.splits)
  show "mq_pool q' = Some pool"
    using assms by (auto simp: mq_instance_def split: option.splits prod.splits outcome.splits)
  show "next_channel kPoolSize counter < length pool"
    unfolding 1 by (simp add: next_channel_def kPoolSize_def)
qed

text \<open>The construction changes the world only, and a failed one is made up for by the next.\<close>

lemma instance_counter: "mq_instance W q = (r, q') \<Longrightarrow> mq_counter q' = mq_counter q"
  by (auto simp: mq_instance_def split: option.splits prod.splits outcome.splits)

lemma instance_retry:
  assumes "mq_instance W q = (Throw e, q')"
  shows "mq_pool q' = None" "publish W queue msg q = (Throw e, q')"
  using assms
  by (auto simp: mq_instance_def publish_def bind_act_def split: option.splits prod.splits outcome.splits)

lemma create_channels_works:
  assumes "\<And>w. \<exists>c w'. wb_channel W w = (Ok c, w') \<and> log w' = log w"
  shows "\<exists>pool' w'. create_channels W n pool w = (Ok pool', w') \<and> log w' = log w"
proof (induction n arbitrary: pool w)
  case (Suc n)
  obtain c w1 where "wb_channel W w = (Ok c, w1)" "log w1 = log w" using assms by blast
  with Suc [of "pool @ [c]" w1] show ?case by (auto simp: bind_act_def)
qed (simp add: return_act_def)

lemma instance_works:
  assumes "\<And>w. \<exists>c w'. wb_channel W w = (Ok c, w') \<and> log w' = log w"
  shows "\<exists>pool q'. mq_instance W q = (Ok pool, q') \<and> log (mq_ext q') = log (mq_ext q)"
proof (cases "mq_pool q")
  case None
  obtain pool w where "MQManager W kPoolSize (mq_ext q) = (Ok pool, w)" "log w = log (mq_ext q)"
    using create_channels_works [of W log, OF assms] unfolding MQManager_def by blast
  with None show ?thesis by (simp add: mq_instance_def)
qed (simp add: mq_instance_def)

section \<open>RabbitMQThreadPool\<close>

text \<open>
  Each worker looks at \<open>stop_\<close>, takes one message at a time (\<open>BasicQos(tag, 1)\<close>), calls the handler
  and then acknowledges.  An exception of the handler leaves the loop and ends the thread, and so does
  an exception of the channel (\<open>channel_step\<close>): while it is created, while the worker waits for a
  message, or in the acknowledgement.  The broker puts the message of a dead worker that was not
  acknowledged back to the front of the queue, so a statement whose acknowledgement fails is executed
  again.  \<open>wp_done\<close> (executed), \<open>wp_acked\<close>, \<open>wp_again\<close> (executed, but put back) and
  \<open>wp_published\<close> record the history.  The queue is durable: a pool starts with what waits in it.
\<close>

datatype worker =
  Ready              \<comment> \<open>before \<open>while (!stop_)\<close>, or still creating its channel\<close>
| Polling            \<comment> \<open>in \<open>BasicConsumeMessage\<close>, or after a time-out before it looks again\<close>
| Handling bytes     \<comment> \<open>in the handler\<close>
| Executed bytes     \<comment> \<open>before \<open>BasicAck\<close>\<close>
| Dead
| Stopped

record 'w worker_pool =
  wp_queue :: "bytes list"
  wp_workers :: "worker list"
  wp_stop :: bool
  wp_world :: 'w
  wp_done :: "bytes list"
  wp_acked :: "bytes list"
  wp_again :: "bytes list"
  wp_published :: "bytes list"

definition start_pool :: "nat \<Rightarrow> bytes list \<Rightarrow> 'w \<Rightarrow> 'w worker_pool" where
  "start_pool thread_num waiting w =
     \<lparr>wp_queue = waiting, wp_workers = replicate thread_num Ready, wp_stop = False, wp_world = w,
      wp_done = [], wp_acked = [], wp_again = [], wp_published = waiting\<rparr>"

definition shutdown_pool :: "'w worker_pool \<Rightarrow> 'w worker_pool" where
  "shutdown_pool p = p\<lparr>wp_stop := True\<rparr>"

inductive worker_step ::
    "(bytes \<Rightarrow> (bytes, 'w, unit) action) \<Rightarrow> 'w worker_pool \<Rightarrow> 'w worker_pool \<Rightarrow> bool"
  for handler where
  poll: "\<not> wp_stop p \<Longrightarrow> i < length (wp_workers p) \<Longrightarrow> wp_workers p ! i = Ready \<Longrightarrow>
    worker_step handler p (p\<lparr>wp_workers := (wp_workers p)[i := Polling]\<rparr>)"
| deliver: "i < length (wp_workers p) \<Longrightarrow> wp_workers p ! i = Polling \<Longrightarrow>
    wp_queue p = m # rest \<Longrightarrow>
    worker_step handler p
      (p\<lparr>wp_queue := rest, wp_workers := (wp_workers p)[i := Handling m]\<rparr>)"
| handled: "i < length (wp_workers p) \<Longrightarrow> wp_workers p ! i = Handling m \<Longrightarrow>
    handler m (wp_world p) = (Ok (), w) \<Longrightarrow>
    worker_step handler p
      (p\<lparr>wp_world := w, wp_workers := (wp_workers p)[i := Executed m], wp_done := wp_done p @ [m]\<rparr>)"
| acked: "i < length (wp_workers p) \<Longrightarrow> wp_workers p ! i = Executed m \<Longrightarrow>
    worker_step handler p
      (p\<lparr>wp_workers := (wp_workers p)[i := Ready], wp_acked := wp_acked p @ [m]\<rparr>)"
| failed: "i < length (wp_workers p) \<Longrightarrow> wp_workers p ! i = Handling m \<Longrightarrow>
    handler m (wp_world p) = (Throw e, w) \<Longrightarrow>
    worker_step handler p
      (p\<lparr>wp_world := w, wp_workers := (wp_workers p)[i := Dead], wp_queue := m # wp_queue p\<rparr>)"
| stopped: "wp_stop p \<Longrightarrow> i < length (wp_workers p) \<Longrightarrow> wp_workers p ! i \<in> {Ready, Polling} \<Longrightarrow>
    worker_step handler p (p\<lparr>wp_workers := (wp_workers p)[i := Stopped]\<rparr>)"
| published: "worker_step handler p
      (p\<lparr>wp_queue := wp_queue p @ [m], wp_published := wp_published p @ [m]\<rparr>)"
| shutdown: "worker_step handler p (shutdown_pool p)"

fun in_hand :: "worker \<Rightarrow> bytes list" where
  \<comment> \<open>delivered and not acknowledged\<close>
  "in_hand (Handling m) = [m]"
| "in_hand (Executed m) = [m]"
| "in_hand _ = []"

inductive channel_step :: "'w worker_pool \<Rightarrow> 'w worker_pool \<Rightarrow> bool" where
  \<comment> \<open>an exception of the channel; one that breaks during the handler shows in the acknowledgement\<close>
  broken: "i < length (wp_workers p) \<Longrightarrow> wp_workers p ! i \<in> {Ready, Polling} \<union> range Executed \<Longrightarrow>
    channel_step p
      (p\<lparr>wp_workers := (wp_workers p)[i := Dead], wp_queue := in_hand (wp_workers p ! i) @ wp_queue p,
         wp_again := wp_again p @ in_hand (wp_workers p ! i)\<rparr>)"

inductive worker_run ::
    "(bytes \<Rightarrow> (bytes, 'w, unit) action) \<Rightarrow> 'w worker_pool \<Rightarrow> 'w worker_pool \<Rightarrow> bool"
  for handler where
  run_refl: "worker_run handler p p"
| run_step: "worker_run handler p q \<Longrightarrow> worker_step handler q r \<or> channel_step q r \<Longrightarrow> worker_run handler p r"

lemma worker_run_trans: "worker_run h q r \<Longrightarrow> worker_run h p q \<Longrightarrow> worker_run h p r"
  by (induction rule: worker_run.induct) (auto intro: worker_run.run_step)

subsection \<open>No statement is lost, and which are executed twice\<close>

fun executed_in_hand :: "worker \<Rightarrow> bytes list" where
  "executed_in_hand (Executed m) = [m]"
| "executed_in_hand _ = []"

abbreviation in_hands :: "'w worker_pool \<Rightarrow> bytes list" where
  "in_hands p \<equiv> concat (map in_hand (wp_workers p))"

abbreviation executed_in_hands :: "'w worker_pool \<Rightarrow> bytes list" where
  "executed_in_hands p \<equiv> concat (map executed_in_hand (wp_workers p))"

definition dead_workers :: "'w worker_pool \<Rightarrow> nat" where
  "dead_workers p = count_list (wp_workers p) Dead"

definition accounted :: "'w worker_pool \<Rightarrow> bool" where
  "accounted p \<longleftrightarrow>
     mset (wp_queue p) + mset (in_hands p) + mset (wp_acked p) = mset (wp_published p) \<and>
     mset (wp_done p) = mset (wp_acked p) + mset (executed_in_hands p) + mset (wp_again p) \<and>
     length (wp_again p) \<le> dead_workers p"

text \<open>A worker that changes, and the rest: what is counted over the workers is counted for each.\<close>

lemma concat_split:
  assumes "i < length ws"
  shows "mset (concat (map f ws)) = mset (f (ws ! i)) + mset (concat (map f (take i ws @ drop (Suc i) ws)))"
    and "mset (concat (map f (ws[i := x]))) = mset (f x) + mset (concat (map f (take i ws @ drop (Suc i) ws)))"
proof -
  have "map f ws = map f (take i ws) @ f (ws ! i) # map f (drop (Suc i) ws)"
    by (metis assms id_take_nth_drop list.simps(9) map_append)
  then show "mset (concat (map f ws)) = mset (f (ws ! i)) + mset (concat (map f (take i ws @ drop (Suc i) ws)))"
    by simp
  show "mset (concat (map f (ws[i := x]))) = mset (f x) + mset (concat (map f (take i ws @ drop (Suc i) ws)))"
    using assms by (simp add: upd_conv_take_nth_drop)
qed

lemma dead_split:
  assumes "i < length ws"
  shows "count_list ws Dead = count_list (take i ws @ drop (Suc i) ws) Dead + (if ws ! i = Dead then 1 else 0)"
    and "count_list (ws[i := x]) Dead = count_list (take i ws @ drop (Suc i) ws) Dead + (if x = Dead then 1 else 0)"
proof -
  have "count_list ws Dead = count_list (take i ws @ ws ! i # drop (Suc i) ws) Dead"
    using assms by (simp add: id_take_nth_drop [symmetric])
  then show "count_list ws Dead = count_list (take i ws @ drop (Suc i) ws) Dead + (if ws ! i = Dead then 1 else 0)"
    by simp
  show "count_list (ws[i := x]) Dead = count_list (take i ws @ drop (Suc i) ws) Dead + (if x = Dead then 1 else 0)"
    using assms by (simp add: upd_conv_take_nth_drop)
qed

lemma accounted_update:
  \<comment> \<open>one worker changes from \<open>a\<close> to \<open>x\<close>\<close>
  assumes "accounted p" and "i < length (wp_workers p)" and "wp_workers q = (wp_workers p)[i := x]"
    and "wp_published q = wp_published p"
    and "mset (wp_queue q) + mset (in_hand x) + mset (wp_acked q) =
      mset (wp_queue p) + mset (in_hand (wp_workers p ! i)) + mset (wp_acked p)"
    and "mset (wp_done q) + mset (wp_acked p) + mset (executed_in_hand (wp_workers p ! i)) + mset (wp_again p) =
      mset (wp_done p) + mset (wp_acked q) + mset (executed_in_hand x) + mset (wp_again q)"
    and "length (wp_again q) + (if wp_workers p ! i = Dead then 1 else 0) \<le> length (wp_again p) + (if x = Dead then 1 else 0)"
  shows "accounted q"
proof -
  let ?ws = "take i (wp_workers p) @ drop (Suc i) (wp_workers p)"
  define H where "H = mset (concat (map in_hand ?ws))"
  define X where "X = mset (concat (map executed_in_hand ?ws))"
  have h: "mset (in_hands p) = mset (in_hand (wp_workers p ! i)) + H" "mset (in_hands q) = mset (in_hand x) + H"
    "mset (executed_in_hands p) = mset (executed_in_hand (wp_workers p ! i)) + X"
    "mset (executed_in_hands q) = mset (executed_in_hand x) + X"
    unfolding assms(3) H_def X_def using concat_split [OF assms(2)] by metis+
  have "mset (wp_queue q) + mset (in_hands q) + mset (wp_acked q) = mset (wp_published q)"
  proof -
    have "mset (wp_queue q) + mset (in_hands q) + mset (wp_acked q) =
        (mset (wp_queue q) + mset (in_hand x) + mset (wp_acked q)) + H" by (simp only: h ac_simps)
    also have "\<dots> = (mset (wp_queue p) + mset (in_hand (wp_workers p ! i)) + mset (wp_acked p)) + H"
      by (simp only: assms(5))
    also have "\<dots> = mset (wp_queue p) + mset (in_hands p) + mset (wp_acked p)" by (simp only: h ac_simps)
    finally show ?thesis using assms(1,4) by (simp add: accounted_def)
  qed
  moreover have "mset (wp_done q) = mset (wp_acked q) + mset (executed_in_hands q) + mset (wp_again q)"
  proof -
    have "mset (wp_done q) + (mset (wp_acked p) + mset (executed_in_hands p) + mset (wp_again p)) =
        (mset (wp_done q) + mset (wp_acked p) + mset (executed_in_hand (wp_workers p ! i)) + mset (wp_again p)) + X"
      by (simp only: h ac_simps)
    also have "\<dots> = (mset (wp_done p) + mset (wp_acked q) + mset (executed_in_hand x) + mset (wp_again q)) + X"
      by (simp only: assms(6))
    also have "\<dots> = mset (wp_done p) + (mset (wp_acked q) + mset (executed_in_hands q) + mset (wp_again q))"
      by (simp only: h ac_simps)
    finally show ?thesis using assms(1) by (simp add: accounted_def)
  qed
  moreover have "length (wp_again q) \<le> dead_workers q"
    using assms(1,7) dead_split [OF assms(2)] unfolding dead_workers_def assms(3) accounted_def by (simp split: if_splits)
  ultimately show ?thesis by (simp add: accounted_def)
qed

lemma accounted_step:
  assumes "worker_step h p q" and inv: "accounted p"
  shows "accounted q"
  using assms(1)
proof cases
  case (published m)
  then show ?thesis using inv by (simp add: accounted_def dead_workers_def ac_simps)
next
  case shutdown
  then show ?thesis using inv by (simp add: accounted_def dead_workers_def shutdown_pool_def)
next
  case (poll i)
  show ?thesis by (rule accounted_update [OF inv poll(3), of _ Polling]) (simp_all add: poll(1,4))
next
  case (deliver i m rest)
  show ?thesis by (rule accounted_update [OF inv deliver(2), of _ "Handling m"]) (simp_all add: deliver(1,3,4))
next
  case (handled i m w)
  show ?thesis by (rule accounted_update [OF inv handled(2), of _ "Executed m"]) (simp_all add: handled(1,3))
next
  case (acked i m)
  show ?thesis by (rule accounted_update [OF inv acked(2), of _ Ready]) (simp_all add: acked(1,3))
next
  case (failed i m e w)
  show ?thesis by (rule accounted_update [OF inv failed(2), of _ Dead]) (simp_all add: failed(1,3))
next
  case (stopped i)
  from stopped(4) show ?thesis by (intro accounted_update [OF inv stopped(3), of _ Stopped]) (auto simp: stopped(1))
qed

lemma accounted_channel:
  assumes "channel_step p q" and inv: "accounted p"
  shows "accounted q"
  using assms(1)
proof cases
  case (broken i)
  from broken(3) show ?thesis
    by (intro accounted_update [OF inv broken(2), of _ Dead]) (auto simp: broken(1))
qed

lemma accounted_run: "worker_run h p q \<Longrightarrow> accounted p \<Longrightarrow> accounted q"
  by (induction rule: worker_run.induct) (auto intro: accounted_step accounted_channel)

lemma no_hands [simp]:
  "concat (map in_hand (replicate n Ready)) = []" "concat (map executed_in_hand (replicate n Ready)) = []"
  by (induction n) auto

lemma accounted_start: "accounted (start_pool n ms w)"
  by (simp add: accounted_def start_pool_def)

subsection \<open>A statement that always fails\<close>

definition poisonous :: "(bytes \<Rightarrow> (bytes, 'w, unit) action) \<Rightarrow> bytes \<Rightarrow> bool" where
  "poisonous handler m \<longleftrightarrow> (\<forall>w. \<exists>e w'. handler m w = (Throw e, w'))"

lemma kill_one:
  assumes poison: "poisonous h m" and "\<not> wp_stop p" and "i < length (wp_workers p)"
    and "wp_workers p ! i = Ready" and q: "wp_queue p = m # rest"
  shows "\<exists>w. worker_run h p (p\<lparr>wp_workers := (wp_workers p)[i := Dead], wp_world := w\<rparr>)"
proof -
  let ?p1 = "p\<lparr>wp_workers := (wp_workers p)[i := Polling]\<rparr>"
  let ?p2 = "?p1\<lparr>wp_queue := rest, wp_workers := (wp_workers ?p1)[i := Handling m]\<rparr>"
  obtain e w where "h m (wp_world p) = (Throw e, w)"
    using poison [unfolded poisonous_def, rule_format, of "wp_world p"] by blast
  then have 3: "worker_step h ?p2 (?p2\<lparr>wp_world := w, wp_workers := (wp_workers ?p2)[i := Dead],
      wp_queue := m # wp_queue ?p2\<rparr>)"
    by (intro worker_step.failed) (use assms in simp_all)
  have same: "?p2\<lparr>wp_world := w, wp_workers := (wp_workers ?p2)[i := Dead],
      wp_queue := m # wp_queue ?p2\<rparr> = p\<lparr>wp_workers := (wp_workers p)[i := Dead], wp_world := w\<rparr>"
    using q by simp
  have 1: "worker_step h p ?p1" using assms by (intro worker_step.poll)
  have 2: "worker_step h ?p1 ?p2" by (rule worker_step.deliver) (use assms in simp_all)
  note step = worker_run.run_step
  from step [OF step [OF step [OF worker_run.run_refl disjI1 [OF 1]] disjI1 [OF 2]] disjI1 [OF 3]]
  show ?thesis unfolding same by blast
qed

lemma kill_first:
  assumes poison: "poisonous h m" and "\<not> wp_stop p" and "n \<le> length (wp_workers p)"
    and "list_all (\<lambda>x. x = Ready) (wp_workers p)" and "wp_queue p = m # rest"
  shows "\<exists>w. worker_run h p
    (p\<lparr>wp_workers := replicate n Dead @ drop n (wp_workers p), wp_world := w\<rparr>)"
  using assms(3)
proof (induction n)
  case 0
  have "worker_run h p (p\<lparr>wp_workers := wp_workers p, wp_world := wp_world p\<rparr>)"
    by (simp add: worker_run.run_refl)
  then show ?case by (intro exI [of _ "wp_world p"]) simp
next
  case (Suc n)
  then obtain w where run: "worker_run h p
      (p\<lparr>wp_workers := replicate n Dead @ drop n (wp_workers p), wp_world := w\<rparr>)" by auto
  let ?q = "p\<lparr>wp_workers := replicate n Dead @ drop n (wp_workers p), wp_world := w\<rparr>"
  have "wp_workers ?q ! n = Ready" "n < length (wp_workers ?q)"
    using Suc.prems assms(4) by (auto simp: nth_append list_all_length)
  then obtain w2 where "worker_run h ?q (?q\<lparr>wp_workers := (wp_workers ?q)[n := Dead], wp_world := w2\<rparr>)"
    using kill_one [OF poison, of ?q n rest] assms(2,5) by auto
  moreover have "(wp_workers ?q)[n := Dead] = replicate (Suc n) Dead @ drop (Suc n) (wp_workers p)"
    using Suc.prems by (simp add: list_update_append replicate_append_same Cons_nth_drop_Suc [symmetric])
  ultimately have "worker_run h p (p\<lparr>wp_workers := replicate (Suc n) Dead @ drop (Suc n) (wp_workers p),
      wp_world := w2\<rparr>)" using worker_run_trans [OF _ run] by simp
  then show ?case by blast
qed

lemma dead_step:
  assumes "worker_step h p q \<or> channel_step p q" and dead: "list_all (\<lambda>x. x = Dead) (wp_workers p)"
  shows "wp_workers q = wp_workers p \<and> wp_done q = wp_done p"
  using assms(1)
proof
  assume "worker_step h p q"
  then show ?thesis using dead by cases (auto simp: list_all_length shutdown_pool_def)
next
  assume "channel_step p q"
  then show ?thesis using dead by cases (auto simp: list_all_length)
qed

lemma dead_run:
  assumes "worker_run h p q" and dead: "list_all (\<lambda>x. x = Dead) (wp_workers p)"
  shows "wp_workers q = wp_workers p \<and> wp_done q = wp_done p"
  using assms
proof (induction rule: worker_run.induct)
  case (run_step p q r)
  then show ?case using dead_step [of h q r] by simp
qed simp

subsection \<open>The properties\<close>

text \<open>C17: every statement that was published is, in every state the workers reach, in the queue, delivered to
  one worker that has not acknowledged it, or acknowledged: none is lost, whatever exceptions the handler
  and the channels raise.  A statement is executed once for each of its acknowledgements, once while its
  acknowledgement is outstanding, and once more for each time it was executed and put back because the
  acknowledgement failed; that happens at most once for each worker that died.\<close>

theorem statements_accounted:
  assumes "worker_run handler (start_pool n waiting w) p"
  shows "mset (wp_queue p) + mset (in_hands p) + mset (wp_acked p) = mset (wp_published p) \<and>
    mset (wp_done p) = mset (wp_acked p) + mset (executed_in_hands p) + mset (wp_again p) \<and>
    length (wp_again p) \<le> dead_workers p"
  using accounted_run [OF assms accounted_start] by (simp add: accounted_def)

lemma statements_accounted_witness:
  \<comment> \<open>the statement is executed, its acknowledgement fails, the other worker executes it again\<close>
  "\<exists>p :: nat worker_pool. wp_done p = [''s'', ''s''] \<and> wp_published p = [''s''] \<and> wp_again p = [''s''] \<and>
     mset (wp_done p) = mset (wp_acked p) + mset (executed_in_hands p) + mset (wp_again p)"
proof -
  let ?h = "\<lambda>m w. (Ok (), w) :: (bytes, unit) outcome \<times> nat"
  let ?p0 = "start_pool 2 [''s''] 0 :: nat worker_pool"
  let ?p1 = "?p0\<lparr>wp_workers := [Polling, Ready]\<rparr>"
  let ?p2 = "?p1\<lparr>wp_queue := [], wp_workers := [Handling ''s'', Ready]\<rparr>"
  let ?p3 = "?p2\<lparr>wp_workers := [Executed ''s'', Ready], wp_done := [''s'']\<rparr>"
  let ?p4 = "?p3\<lparr>wp_workers := [Dead, Ready], wp_queue := [''s''], wp_again := [''s'']\<rparr>"
  let ?p5 = "?p4\<lparr>wp_workers := [Dead, Polling]\<rparr>"
  let ?p6 = "?p5\<lparr>wp_queue := [], wp_workers := [Dead, Handling ''s'']\<rparr>"
  let ?p7 = "?p6\<lparr>wp_workers := [Dead, Executed ''s''], wp_done := [''s'', ''s'']\<rparr>"
  let ?run = "worker_run ?h ?p0"
  note defs = start_pool_def eval_nat_numeral
  have 1: "worker_step ?h ?p0 ?p1" using worker_step.poll [of ?p0 0 ?h] by (simp add: defs)
  have 2: "worker_step ?h ?p1 ?p2" using worker_step.deliver [of 0 ?p1 "''s''" "[]" ?h] by (simp add: defs)
  have 3: "worker_step ?h ?p2 ?p3" using worker_step.handled [of 0 ?p2 "''s''" ?h 0] by (simp add: defs)
  have 4: "channel_step ?p3 ?p4" using channel_step.broken [of 0 ?p3] by (simp add: defs)
  have 5: "worker_step ?h ?p4 ?p5" using worker_step.poll [of ?p4 1 ?h] by (simp add: defs)
  have 6: "worker_step ?h ?p5 ?p6" using worker_step.deliver [of 1 ?p5 "''s''" "[]" ?h] by (simp add: defs)
  have 7: "worker_step ?h ?p6 ?p7" using worker_step.handled [of 1 ?p6 "''s''" ?h 0] by (simp add: defs)
  note step = worker_run.run_step
  note run = step [OF step [OF step [OF step [OF step [OF step [OF step [OF worker_run.run_refl disjI1 [OF 1]] disjI1 [OF 2]]
    disjI1 [OF 3]] disjI2 [OF 4]] disjI1 [OF 5]] disjI1 [OF 6]] disjI1 [OF 7]]
  from statements_accounted [OF run] show ?thesis by (intro exI [of _ ?p7]) (simp add: defs)
qed

text \<open>C38: A statement the database always rejects ends every worker: each of them takes it, dies and leaves it at the front of the queue for the next, and when all are dead no statement is executed any more, whatever is published.\<close>

theorem poison_stops_workers:
  assumes "poisonous handler m" and "\<not> wp_stop p"
    and "list_all (\<lambda>x. x = Ready) (wp_workers p)" and "wp_queue p = m # rest"
  shows "\<exists>q. worker_run handler p q \<and> list_all (\<lambda>x. x = Dead) (wp_workers q) \<and>
    wp_queue q = m # rest \<and> wp_done q = wp_done p \<and>
    (\<forall>r. worker_run handler q r \<longrightarrow> wp_done r = wp_done p)"
proof -
  obtain w where "worker_run handler p
      (p\<lparr>wp_workers := replicate (length (wp_workers p)) Dead, wp_world := w\<rparr>)" (is "worker_run _ _ ?q")
    using kill_first [OF assms(1,2) order_refl assms(3,4)] by auto
  moreover have "list_all (\<lambda>x. x = Dead) (wp_workers ?q)" by (simp add: list_all_length)
  ultimately show ?thesis
    using dead_run [of handler ?q] assms(4) by (intro exI [of _ ?q]) auto
qed

lemma poison_stops_workers_witness:
  "\<exists>q. list_all (\<lambda>x. x = Dead) (wp_workers (q :: nat worker_pool)) \<and> wp_queue q = [''bad'', ''good'']"
  using poison_stops_workers
    [of "\<lambda>m w. if m = ''bad'' then (Throw ''syntax'', w) else (Ok (), w :: nat)" "''bad''"
        "start_pool 2 [''bad'', ''good''] 0" "[''good'']"]
  by (auto simp: poisonous_def start_pool_def eval_nat_numeral)

end
