(* ===== verification/AI_Helper.thy ===== *)
theory AI_Helper
  imports Mq_Manager Http_Response
begin

section \<open>AIHelper\<close>

text \<open>
  \<open>AIApps/ChatServer/include/AIUtil/AIHelper.h\<close> and \<open>src/AIUtil/AIHelper.cpp\<close>: one conversation of
  one user with a model.  Even positions of \<open>ah_messages\<close> are the user's, odd ones the model's.  An
  action runs on the helper and the world with the counter of \<open>MQManager\<close>.  Output to the console is
  left out.
\<close>

record ai_helper =
  ah_strategy :: "strategy option"     \<comment> \<open>\<open>None\<close>: the null pointer it starts with\<close>
  ah_messages :: "message list"

definition new_helper :: ai_helper where
  "new_helper = \<lparr>ah_strategy = None, ah_messages = []\<rparr>"

type_synonym 'w helper_state = "ai_helper \<times> 'w mq_world"
type_synonym ('w, 'a) helper_action = "(bytes, 'w helper_state, 'a) action"

definition on_mq :: "(bytes, 'w mq_world, 'a) action \<Rightarrow> ('w, 'a) helper_action" where
  "on_mq m s = (let (r, q) = m (snd s) in (r, (fst s, q)))"

definition on_web :: "(bytes, 'w, 'a) action \<Rightarrow> ('w, 'a) helper_action" where
  "on_web m s = (let (r, w) = m (mq_ext (snd s)) in (r, (fst s, (snd s)\<lparr>mq_ext := w\<rparr>)))"

definition with_helper :: "(ai_helper \<Rightarrow> ('w, 'a) helper_action) \<Rightarrow> ('w, 'a) helper_action" where
  "with_helper f s = f (fst s) s"

definition modify_helper :: "(ai_helper \<Rightarrow> ai_helper) \<Rightarrow> ('w, unit) helper_action" where
  "modify_helper f s = (Ok (), (f (fst s), snd s))"

lemma on_mq_run [act_simps]: "m (snd s) = (r, q) \<Longrightarrow> on_mq m s = (r, (fst s, q))"
  by (simp add: on_mq_def)

lemma on_web_run [act_simps]:
  "m (mq_ext (snd s)) = (r, w) \<Longrightarrow> on_web m s = (r, (fst s, (snd s)\<lparr>mq_ext := w\<rparr>))"
  by (simp add: on_web_def)

lemma with_helper_run [act_simps]: "with_helper f s = f (fst s) s"
  by (simp add: with_helper_def)

lemma modify_helper_run [act_simps]: "modify_helper f s = (Ok (), (f (fst s), snd s))"
  by (simp add: modify_helper_def)

definition setStrategy :: "strategy \<Rightarrow> ai_helper \<Rightarrow> ai_helper" where
  "setStrategy strat h = h\<lparr>ah_strategy := Some strat\<rparr>"

definition restoreMessage :: "bytes \<Rightarrow> int \<Rightarrow> ai_helper \<Rightarrow> ai_helper" where
  "restoreMessage userInput ms h = h\<lparr>ah_messages := ah_messages h @ [(userInput, ms)]\<rparr>"

definition GetMessages :: "ai_helper \<Rightarrow> message list" where
  "GetMessages h = ah_messages h"

definition pop_back :: "ai_helper \<Rightarrow> ai_helper" where
  "pop_back h = h\<lparr>ah_messages := butlast (ah_messages h)\<rparr>"

definition maskApiKey :: "bytes \<Rightarrow> bytes" where
  "maskApiKey k =
     (if k = [] then ''(empty)''
      else if length k \<le> 12 then ''***''
      else take 4 k @ ''...'' @ drop (length k - 4) k)"

subsection \<open>The SQL statement of a message\<close>

definition escape_char :: "char \<Rightarrow> bytes" where
  "escape_char c =
     (if c = CHR 0x5C then [CHR 0x5C, CHR 0x5C]
      else if c = CHR 0x27 then [CHR 0x5C, CHR 0x27]
      else if c = CHR 0x22 then [CHR 0x5C, CHR 0x22]
      else if c = CHR 0x0A then [CHR 0x5C, CHR ''n'']
      else if c = CHR 0x0D then [CHR 0x5C, CHR ''r'']
      else if c = CHR 0x09 then [CHR 0x5C, CHR ''t'']
      else [c])"

definition escapeString :: "bytes \<Rightarrow> bytes" where
  "escapeString input = concat (map escape_char input)"

definition quoted :: "bytes \<Rightarrow> bytes" where
  "quoted s = CHR 0x27 # escapeString s @ [CHR 0x27]"

definition insert_statement :: "int \<Rightarrow> bytes \<Rightarrow> bool \<Rightarrow> bytes \<Rightarrow> int \<Rightarrow> bytes \<Rightarrow> bytes" where
  "insert_statement userId userName is_user userInput ms sessionId =
     ''INSERT INTO chat_message (id, username, session_id, is_user, content, ts) VALUES ('' @
     int_to_dec userId @ '', '' @ quoted userName @ '', '' @ sessionId @ '', '' @
     (if is_user then ''1'' else ''0'') @ '', '' @ quoted userInput @ '', '' @ int_to_dec ms @ '')''"

definition pushMessageToMysql ::
    "'w web_ops \<Rightarrow> int \<Rightarrow> bytes \<Rightarrow> bool \<Rightarrow> bytes \<Rightarrow> int \<Rightarrow> bytes \<Rightarrow> ('w, unit) helper_action" where
  "pushMessageToMysql W userId userName is_user userInput ms sessionId =
     on_mq (publish W ''sql_queue'' (insert_statement userId userName is_user userInput ms sessionId))"

definition addMessage ::
    "'w web_ops \<Rightarrow> int \<Rightarrow> bytes \<Rightarrow> bool \<Rightarrow> bytes \<Rightarrow> bytes \<Rightarrow> ('w, unit) helper_action" where
  "addMessage W userId userName is_user userInput sessionId =
     bind_act (on_web (\<lambda>w. let (ms, w1) = wb_now_ms W w in (Ok ms, w1))) (\<lambda>ms.
     bind_act (modify_helper (restoreMessage userInput ms)) (\<lambda>_.
     pushMessageToMysql W userId userName is_user userInput ms sessionId))"

subsection \<open>Requests\<close>

definition strategy_of :: "(strategy \<Rightarrow> ('w, 'a) helper_action) \<Rightarrow> ('w, 'a) helper_action" where
  \<comment> \<open>\<open>strategy->...\<close>\<close>
  "strategy_of f s = (case ah_strategy (fst s) of None \<Rightarrow> (Crash NullDeref, s) | Some x \<Rightarrow> f x s)"

lemma strategy_of_run [act_simps]: "ah_strategy (fst s) = Some x \<Longrightarrow> strategy_of f s = f x s"
  by (simp add: strategy_of_def)

definition WriteCallback :: "bytes \<Rightarrow> bytes \<Rightarrow> nat \<times> bytes" where
  \<comment> \<open>the bytes that arrived, the buffer; called by \<open>curl_easy_perform\<close>\<close>
  "WriteCallback contents buffer = (length contents, buffer @ contents)"

definition parse_reply :: "'j json_ops \<Rightarrow> bytes \<Rightarrow> (bytes, 'j) outcome" where
  "parse_reply J readBuffer =
     (case js_parse J readBuffer of
        Throw _ \<Rightarrow> Throw (''Failed to parse JSON response: '' @ readBuffer)
      | r \<Rightarrow> r)"

definition executeCurl :: "'j json_ops \<Rightarrow> 'w web_ops \<Rightarrow> 'j \<Rightarrow> ('w, 'j) helper_action" where
  "executeCurl J W payload =
     bind_act (on_web (\<lambda>w. let (ok, w1) = wb_curl_init W w in (Ok ok, w1))) (\<lambda>ok.
     if \<not> ok then throw_act ''Failed to initialize curl''
     else strategy_of (\<lambda>strategy.
       bind_act (lift_out (getApiUrl (wb_env W) strategy)) (\<lambda>url.
       bind_act (lift_out (js_dump J payload)) (\<lambda>payloadStr.
       bind_act
         (catch_act
            (on_web (wb_perform W
               \<lparr>hc_url = c_str url,
                hc_headers = [c_str (''Authorization: Bearer '' @ getApiKey strategy),
                              ''Content-Type: application/json''],
                hc_body = Some (c_str payloadStr)\<rparr>))
            (\<lambda>e. throw_act (''curl_easy_perform() failed: '' @ e)))
         (\<lambda>readBuffer. lift_out (parse_reply J readBuffer))))))"

definition request :: "'j json_ops \<Rightarrow> 'w web_ops \<Rightarrow> 'j \<Rightarrow> ('w, 'j) helper_action" where
  "request J W payload = executeCurl J W payload"

definition ask_model :: "'j json_ops \<Rightarrow> 'w web_ops \<Rightarrow> ('w, bytes) helper_action" where
  \<comment> \<open>\<open>buildRequest\<close> on the messages, \<open>executeCurl\<close>, \<open>parseResponse\<close>: three times in \<open>chat\<close>\<close>
  "ask_model J W =
     strategy_of (\<lambda>strategy. with_helper (\<lambda>h.
       bind_act (executeCurl J W (buildRequest J (wb_env W) strategy (ah_messages h))) (\<lambda>response.
       lift_out (parseResponse J strategy response))))"

subsection \<open>chat\<close>

definition unparsed_reply :: bytes where
  "unparsed_reply = ''[Error] '' @ map char_of [0xE6, 0x97, 0xA0, 0xE6, 0xB3, 0x95, 0xE8, 0xA7, 0xA3,
     0xE6, 0x9E, 0x90, 0xE5, 0x93, 0x8D, 0xE5, 0xBA, 0x94 :: nat]"

definition tool_call_failed :: bytes where
  "tool_call_failed = CHR ''['' # map char_of [0xE5, 0xB7, 0xA5, 0xE5, 0x85, 0xB7, 0xE8, 0xB0, 0x83,
     0xE7, 0x94, 0xA8, 0xE5, 0xA4, 0xB1, 0xE8, 0xB4, 0xA5 :: nat] @ ''] ''"

definition plain_chat ::
    "'j json_ops \<Rightarrow> 'w web_ops \<Rightarrow> int \<Rightarrow> bytes \<Rightarrow> bytes \<Rightarrow> bytes \<Rightarrow> ('w, bytes) helper_action" where
  "plain_chat J W userId userName sessionId userQuestion =
     bind_act (addMessage W userId userName True userQuestion sessionId) (\<lambda>_.
     bind_act (ask_model J W) (\<lambda>answer.
     bind_act (addMessage W userId userName False answer sessionId) (\<lambda>_.
     return_act (if answer = [] then unparsed_reply else answer))))"

definition add_exchange ::
    "'w web_ops \<Rightarrow> int \<Rightarrow> bytes \<Rightarrow> bytes \<Rightarrow> bytes \<Rightarrow> bytes \<Rightarrow> ('w, bytes) helper_action" where
  \<comment> \<open>the two \<open>addMessage\<close> and the \<open>return\<close> at the ends of the MCP branch\<close>
  "add_exchange W userId userName sessionId userQuestion answer =
     bind_act (addMessage W userId userName True userQuestion sessionId) (\<lambda>_.
     bind_act (addMessage W userId userName False answer sessionId) (\<lambda>_.
     return_act answer))"

definition ask_once :: "'j json_ops \<Rightarrow> 'w web_ops \<Rightarrow> bytes \<Rightarrow> ('w, bytes) helper_action" where
  \<comment> \<open>the prompt is a message while the request is built; it stays when the call throws\<close>
  "ask_once J W prompt =
     bind_act (modify_helper (restoreMessage prompt 0)) (\<lambda>_.
     bind_act (ask_model J W) (\<lambda>answer.
     bind_act (modify_helper pop_back) (\<lambda>_. return_act answer)))"

definition load_config :: "'j json_ops \<Rightarrow> 'w web_ops \<Rightarrow> ('w, ai_config) helper_action" where
  "load_config J W =
     bind_act (on_web (\<lambda>w. let (file, w1) = wb_file W ''../AIApps/ChatServer/resource/config.json'' w
                           in (Ok file, w1))) (\<lambda>file.
     bind_act (lift_out (loadFromFile J file new_config)) (\<lambda>(loaded, config). return_act config))"

definition run_tool ::
    "'j json_ops \<Rightarrow> 'w web_ops \<Rightarrow> 'j ai_tool_call \<Rightarrow> ('w, bytes + 'j) helper_action" where
  \<comment> \<open>the \<open>try\<close> block: the text of the failure or the tool's answer\<close>
  "run_tool J W call =
     catch_act
       (bind_act (on_web (invoke (AIToolRegistry J W) (tc_toolName call) (tc_args call)))
          (\<lambda>r. return_act (Inr r)))
       (\<lambda>e. return_act (Inl (tool_call_failed @ e)))"

definition second_call ::
    "'j json_ops \<Rightarrow> 'w web_ops \<Rightarrow> bytes \<Rightarrow> 'j ai_tool_call \<Rightarrow> 'j \<Rightarrow> ('w, bytes) helper_action" where
  "second_call J W userQuestion call toolResult =
     bind_act (lift_out (buildToolResultPrompt J userQuestion (tc_toolName call) (tc_args call) toolResult))
       (ask_once J W)"

definition tool_answer ::
    "'j json_ops \<Rightarrow> 'w web_ops \<Rightarrow> bytes \<Rightarrow> 'j ai_tool_call \<Rightarrow> ('w, bytes) helper_action" where
  \<comment> \<open>case 2: the model wants a tool\<close>
  "tool_answer J W userQuestion call =
     bind_act (run_tool J W call) (\<lambda>r.
       case r of
         Inl err \<Rightarrow> return_act err
       | Inr toolResult \<Rightarrow> second_call J W userQuestion call toolResult)"

definition mcp_answer :: "'j json_ops \<Rightarrow> 'w web_ops \<Rightarrow> bytes \<Rightarrow> ('w, bytes) helper_action" where
  "mcp_answer J W userQuestion =
     bind_act (load_config J W) (\<lambda>config.
     bind_act (ask_once J W (buildPrompt config userQuestion)) (\<lambda>aiResult.
     bind_act (lift_out (parseAIResponse J aiResult)) (\<lambda>call.
     if \<not> tc_isToolCall call then return_act aiResult else tool_answer J W userQuestion call)))"

definition mcp_chat ::
    "'j json_ops \<Rightarrow> 'w web_ops \<Rightarrow> int \<Rightarrow> bytes \<Rightarrow> bytes \<Rightarrow> bytes \<Rightarrow> ('w, bytes) helper_action" where
  "mcp_chat J W userId userName sessionId userQuestion =
     bind_act (mcp_answer J W userQuestion) (add_exchange W userId userName sessionId userQuestion)"

definition chat ::
    "'j json_ops \<Rightarrow> 'w web_ops \<Rightarrow> int \<Rightarrow> bytes \<Rightarrow> bytes \<Rightarrow> bytes \<Rightarrow> bytes \<Rightarrow> ('w, bytes) helper_action" where
  "chat J W userId userName sessionId userQuestion modelType =
     bind_act (lift_out (create registered (wb_env W) modelType)) (\<lambda>strategy.
     bind_act (modify_helper (setStrategy strategy)) (\<lambda>_.
     (if \<not> isMCPModel strategy then plain_chat else mcp_chat)
       J W userId userName sessionId userQuestion))"

end
