(* ===== verification/AI_Helper_Properties.thy ===== *)
theory AI_Helper_Properties
  imports AI_Helper
begin

section \<open>What a conversation stays\<close>

text \<open>
  Asking the model changes neither the messages nor the counter of publications; \<open>stays\<close> says so of
  an action, and its rules follow the structure of the code.
\<close>

definition stays :: "('w, 'a) helper_action \<Rightarrow> bool" where
  "stays m \<longleftrightarrow> (\<forall>s r s'. m s = (r, s') \<longrightarrow> fst s' = fst s \<and> mq_counter (snd s') = mq_counter (snd s))"

named_theorems stays_intros \<open>actions that keep the helper and the counter\<close>

lemma staysD: "stays m \<Longrightarrow> m s = (r, s') \<Longrightarrow> fst s' = fst s \<and> mq_counter (snd s') = mq_counter (snd s)"
  unfolding stays_def by blast

lemma stays_return [stays_intros]: "stays (return_act a)"
  by (simp add: stays_def return_act_def)

lemma stays_throw [stays_intros]: "stays (throw_act e)"
  by (simp add: stays_def throw_act_def)

lemma stays_lift [stays_intros]: "stays (lift_out r)"
  by (simp add: stays_def lift_out_def)

lemma stays_web [stays_intros]: "stays (on_web m)"
  by (auto simp: stays_def on_web_def split: prod.splits)

lemma stays_bind [stays_intros]: "stays m \<Longrightarrow> (\<And>a. stays (f a)) \<Longrightarrow> stays (bind_act m f)"
  unfolding stays_def bind_act_def
  by (fastforce split: prod.splits outcome.splits)

lemma stays_catch [stays_intros]: "stays m \<Longrightarrow> (\<And>e. stays (h e)) \<Longrightarrow> stays (catch_act m h)"
  unfolding stays_def catch_act_def
  by (fastforce split: prod.splits outcome.splits)

lemma stays_strategy [stays_intros]: "(\<And>x. stays (f x)) \<Longrightarrow> stays (strategy_of f)"
  by (auto simp: stays_def strategy_of_def split: option.splits)

lemma stays_helper [stays_intros]: "(\<And>h. stays (f h)) \<Longrightarrow> stays (with_helper f)"
  by (auto simp: stays_def with_helper_def)

lemma stays_if [stays_intros]: "stays a \<Longrightarrow> stays b \<Longrightarrow> stays (if c then a else b)"
  by simp

lemma stays_executeCurl [stays_intros]: "stays (executeCurl J W payload)"
  unfolding executeCurl_def by (intro stays_intros)

lemma stays_ask_model [stays_intros]: "stays (ask_model J W)"
  unfolding ask_model_def by (intro stays_intros)

lemma stays_load_config [stays_intros]: "stays (load_config J W)"
  unfolding load_config_def by (intro stays_intros) (auto split: prod.split intro!: stays_intros)

subsection \<open>Adding messages\<close>

lemma publish_counter: "publish W q m x = (Ok u, x') \<Longrightarrow> mq_counter x' = mq_counter x + 1"
  by (auto simp: publish_def bind_act_def Let_def dest!: instance_counter split: prod.splits outcome.splits)

lemma addMessage_run:
  assumes "addMessage W userId userName is_user text sid s = (Ok u, s')"
  shows "\<exists>ms. fst s' = restoreMessage text ms (fst s)" "mq_counter (snd s') = mq_counter (snd s) + 1"
  using assms
  by (auto simp: addMessage_def pushMessageToMysql_def on_web_def on_mq_def bind_act_def
      modify_helper_def Let_def split: prod.splits outcome.splits dest!: publish_counter)

lemma addMessage_messages:
  assumes "addMessage W userId userName is_user text sid s = (Ok u, s')"
  shows "\<exists>ms. ah_messages (fst s') = ah_messages (fst s) @ [(text, ms)]"
    "mq_counter (snd s') = mq_counter (snd s) + 1"
  using addMessage_run [OF assms] by (auto simp: restoreMessage_def)

lemma ask_once_messages:
  assumes "ask_once J W prompt s = (Ok a, s')"
  shows "ah_messages (fst s') = ah_messages (fst s)" "mq_counter (snd s') = mq_counter (snd s)"
proof -
  obtain s1 where "ask_model J W (restoreMessage prompt 0 (fst s), snd s) = (Ok a, s1)"
      "s' = (pop_back (fst s1), snd s1)"
    using assms by (auto simp: ask_once_def bind_Ok_iff act_simps)
  with staysD [OF stays_ask_model this(1)]
  show "ah_messages (fst s') = ah_messages (fst s)" "mq_counter (snd s') = mq_counter (snd s)"
    by (simp_all add: pop_back_def restoreMessage_def)
qed

lemma failed_prompt_stays:
  \<comment> \<open>the prompt of a call that throws is not removed\<close>
  assumes "ask_once J W prompt (h, q) = (Throw e, (h', q'))"
  shows "ah_messages h' = ah_messages h @ [(prompt, 0)]"
  using assms stays_ask_model [THEN staysD]
  by (fastforce simp: ask_once_def bind_act_def modify_helper_def modify_act_def restoreMessage_def
      return_act_def act_simps split: prod.splits outcome.splits)

lemma add_exchange_messages:
  assumes "add_exchange W userId userName sid question answer s = (Ok a, s')"
  shows "\<exists>t1 t2. ah_messages (fst s') = ah_messages (fst s) @ [(question, t1), (answer, t2)]"
    "mq_counter (snd s') = mq_counter (snd s) + 2" "a = answer"
proof -
  obtain s1 where 1: "addMessage W userId userName True question sid s = (Ok (), s1)"
      and 2: "addMessage W userId userName False answer sid s1 = (Ok (), s')" and "a = answer"
    using assms by (auto simp: add_exchange_def bind_Ok_iff act_simps)
  with addMessage_messages [OF 1] addMessage_messages [OF 2]
  show "\<exists>t1 t2. ah_messages (fst s') = ah_messages (fst s) @ [(question, t1), (answer, t2)]"
    "mq_counter (snd s') = mq_counter (snd s) + 2" "a = answer" by auto
qed

subsection \<open>A chat that returns\<close>

lemma plain_chat_messages:
  assumes "plain_chat J W userId userName sid question s = (Ok a, s')"
  shows "\<exists>t1 answer t2. ah_messages (fst s') = ah_messages (fst s) @ [(question, t1), (answer, t2)] \<and>
    a = (if answer = [] then unparsed_reply else answer) \<and>
    mq_counter (snd s') = mq_counter (snd s) + 2"
proof -
  obtain s1 answer s2 where 1: "addMessage W userId userName True question sid s = (Ok (), s1)"
    and 2: "ask_model J W s1 = (Ok answer, s2)"
    and 3: "addMessage W userId userName False answer sid s2 = (Ok (), s')"
    and "a = (if answer = [] then unparsed_reply else answer)"
    using assms by (auto simp: plain_chat_def bind_Ok_iff act_simps)
  with addMessage_messages [OF 1] staysD [OF stays_ask_model 2] addMessage_messages [OF 3]
  obtain t1 t2 where "ah_messages (fst s') = ah_messages (fst s) @ [(question, t1), (answer, t2)]"
    "mq_counter (snd s') = mq_counter (snd s) + 2" by auto
  with \<open>a = _\<close> show ?thesis by blast
qed

lemma stays_run_tool [stays_intros]: "stays (run_tool J W call)"
  unfolding run_tool_def by (intro stays_intros)

text \<open>Actions that leave the conversation as it was when they return.\<close>

definition restores :: "('w, 'a) helper_action \<Rightarrow> bool" where
  "restores m \<longleftrightarrow> (\<forall>s a s'. m s = (Ok a, s') \<longrightarrow>
     ah_messages (fst s') = ah_messages (fst s) \<and> mq_counter (snd s') = mq_counter (snd s))"

lemma restoresD:
  assumes "restores m" and "m s = (Ok a, s')"
  shows "ah_messages (fst s') = ah_messages (fst s)" "mq_counter (snd s') = mq_counter (snd s)"
  using assms unfolding restores_def by blast+

lemma stays_restores: "stays m \<Longrightarrow> restores m"
  unfolding stays_def restores_def by metis

lemma restores_ask_once: "restores (ask_once J W prompt)"
  using ask_once_messages unfolding restores_def by blast

lemma restores_bind: "restores m \<Longrightarrow> (\<And>a. restores (f a)) \<Longrightarrow> restores (bind_act m f)"
  unfolding restores_def by (auto elim!: bind_OkE)

lemma restores_second_call: "restores (second_call J W question call toolResult)"
  unfolding second_call_def
  by (intro restores_bind restores_ask_once stays_restores stays_intros)

lemma restores_if: "restores a \<Longrightarrow> restores b \<Longrightarrow> restores (if c then a else b)"
  by simp

lemma restores_sum:
  "(\<And>x. restores (f x)) \<Longrightarrow> (\<And>y. restores (g y)) \<Longrightarrow>
    restores (case r of Inl x \<Rightarrow> f x | Inr y \<Rightarrow> g y)"
  by (cases r) simp_all

lemmas restores_intros = restores_bind restores_if restores_sum restores_ask_once
  restores_second_call stays_load_config [THEN stays_restores] stays_run_tool [THEN stays_restores]
  stays_return [THEN stays_restores] stays_lift [THEN stays_restores]

lemma restores_tool_answer: "restores (tool_answer J W question call)"
  unfolding tool_answer_def by (intro restores_intros)

lemma restores_mcp_answer: "restores (mcp_answer J W question)"
  unfolding mcp_answer_def by (intro restores_intros restores_tool_answer)

lemma mcp_chat_messages:
  assumes "mcp_chat J W userId userName sid question s = (Ok a, s')"
  shows "\<exists>t1 t2. ah_messages (fst s') = ah_messages (fst s) @ [(question, t1), (a, t2)] \<and>
    mq_counter (snd s') = mq_counter (snd s) + 2"
proof -
  obtain answer s1 where 1: "mcp_answer J W question s = (Ok answer, s1)"
    and 2: "add_exchange W userId userName sid question answer s1 = (Ok a, s')"
    using assms unfolding mcp_chat_def by (rule bind_OkE)
  show ?thesis
    using restoresD [OF restores_mcp_answer 1] add_exchange_messages [OF 2] by auto
qed

lemma mcp_is_4:
  assumes "create registered env modelType = Ok x"
  shows "isMCPModel x \<longleftrightarrow> modelType = ''4''"
  using assms
  by (auto simp: strategy_names AliyunStrategy_def DouBaoStrategy_def AliyunRAGStrategy_def
      AliyunMcpStrategy_def from_env_def split: if_splits option.splits)

lemma chat_start:
  assumes "chat J W userId userName sid question modelType s = (Ok a, s')"
  obtains x where "create registered (wb_env W) modelType = Ok x"
    "(if isMCPModel x then mcp_chat else plain_chat) J W userId userName sid question
      (setStrategy x (fst s), snd s) = (Ok a, s')"
  using assms by (auto simp: chat_def bind_Ok_iff act_simps split: if_splits)

lemma chat_messages:
  assumes "chat J W userId userName sid question modelType s = (Ok a, s')"
  shows "\<exists>t1 answer t2. ah_messages (fst s') = ah_messages (fst s) @ [(question, t1), (answer, t2)] \<and>
    a = (if answer = [] \<and> modelType \<noteq> ''4'' then unparsed_reply else answer) \<and>
    mq_counter (snd s') = mq_counter (snd s) + 2"
proof -
  obtain x where x: "create registered (wb_env W) modelType = Ok x" and
    r: "(if isMCPModel x then mcp_chat else plain_chat) J W userId userName sid question
      (setStrategy x (fst s), snd s) = (Ok a, s')" using assms by (rule chat_start)
  have keep: "ah_messages (setStrategy x (fst s)) = ah_messages (fst s)"
    by (simp add: setStrategy_def)
  show ?thesis
  proof (cases "isMCPModel x")
    case True
    with r have "mcp_chat J W userId userName sid question (setStrategy x (fst s), snd s) = (Ok a, s')"
      by simp
    from mcp_chat_messages [OF this] True mcp_is_4 [OF x] show ?thesis by (auto simp: keep)
  next
    case False
    with r have "plain_chat J W userId userName sid question (setStrategy x (fst s), snd s) = (Ok a, s')"
      by simp
    from plain_chat_messages [OF this] obtain t1 answer t2 where
      "ah_messages (fst s') = ah_messages (fst s) @ [(question, t1), (answer, t2)]"
      "a = (if answer = [] then unparsed_reply else answer)"
      "mq_counter (snd s') = mq_counter (snd s) + 2" by (auto simp only: keep fst_conv snd_conv)
    with False mcp_is_4 [OF x] show ?thesis by (intro exI [of _ t1] exI [of _ answer] exI [of _ t2]) simp
  qed
qed

subsection \<open>A chat that fails\<close>

definition publish_works :: "'w web_ops \<Rightarrow> bool" where
  "publish_works W \<longleftrightarrow> (\<forall>w. \<exists>c w'. wb_channel W w = (Ok c, w')) \<and>
     (\<forall>i q m w. \<exists>w'. wb_publish W i q m w = (Ok (), w'))"

lemma publish_worksD:
  assumes "publish_works W"
  shows "\<exists>x'. publish W q m x = (Ok (), x')"
proof -
  obtain pool x1 where i: "mq_instance W x = (Ok pool, x1)"
    using instance_works [of W "\<lambda>_. ()" x] assms by (auto simp: publish_works_def)
  obtain w where "wb_publish W (pool ! next_channel kPoolSize (mq_counter x1)) q m (mq_ext x1) = (Ok (), w)"
    using assms [unfolded publish_works_def] by blast
  with i show ?thesis by (simp add: publish_def bind_act_def)
qed

lemma addMessage_works:
  assumes "publish_works W"
  shows "\<exists>s' ms. addMessage W userId userName is_user text sid s = (Ok (), s') \<and>
    fst s' = restoreMessage text ms (fst s) \<and> mq_counter (snd s') = mq_counter (snd s) + 1"
proof -
  obtain r s' where run: "addMessage W userId userName is_user text sid s = (r, s')" by (rule prod.exhaust)
  obtain ms w where now: "wb_now_ms W (mq_ext (snd s)) = (ms, w)" by (rule prod.exhaust)
  obtain q2 where pub: "publish W ''sql_queue''
      (insert_statement userId userName is_user text ms sid) ((snd s)\<lparr>mq_ext := w\<rparr>) = (Ok (), q2)"
    using publish_worksD [OF assms] by blast
  have "r = Ok ()" using run
    by (auto simp: addMessage_def pushMessageToMysql_def on_web_def on_mq_def bind_act_def
        modify_helper_def now pub Let_def)
  with run addMessage_run [of W userId userName is_user "text" sid s "()" s'] show ?thesis by auto
qed

lemma failed_plain_chat:
  assumes "chat J W userId userName sid question modelType s = (Throw e, s')"
    and "create registered (wb_env W) modelType = Ok x" and "modelType \<noteq> ''4''"
    and pub: "publish_works W"
  shows "\<exists>t. ah_messages (fst s') = ah_messages (fst s) @ [(question, t)] \<and>
    mq_counter (snd s') = mq_counter (snd s) + 1"
proof -
  let ?s = "(setStrategy x (fst s), snd s)"
  have r: "plain_chat J W userId userName sid question ?s = (Throw e, s')"
    using assms(1-3) mcp_is_4 [OF assms(2)] by (simp add: chat_def act_simps)
  obtain s1 ms where 1: "addMessage W userId userName True question sid ?s = (Ok (), s1)"
    "fst s1 = restoreMessage question ms (setStrategy x (fst s))"
    "mq_counter (snd s1) = mq_counter (snd s) + 1"
    using addMessage_works [OF pub, of userId userName True question sid ?s] by auto
  obtain r2 s2 where 2: "ask_model J W s1 = (r2, s2)" by (rule prod.exhaust)
  note k = staysD [OF stays_ask_model 2]
  have "s' = s2"
  proof (cases r2)
    case (Ok answer)
    obtain s3 where "addMessage W userId userName False answer sid s2 = (Ok (), s3)"
      using addMessage_works [OF pub, of userId userName False answer sid s2] by auto
    with r 1(1) 2 Ok show ?thesis by (simp add: plain_chat_def act_simps)
  next
    case (Throw e2)
    with r 1(1) 2 show ?thesis by (simp add: plain_chat_def bind_act_def)
  next
    case (Crash f)
    with r 1(1) 2 show ?thesis by (simp add: plain_chat_def bind_act_def)
  qed
  with k 1 show ?thesis by (simp add: restoreMessage_def setStrategy_def)
qed

subsection \<open>Escaped text as the database reads it\<close>

text \<open>
  \<open>read\<close> stands for how MySQL reads the rest of a string literal after the opening quote: the text
  and what follows the closing quote.  \<open>literal_laws\<close> is the part of its manual the code relies on.
\<close>

definition literal_laws :: "(bytes \<Rightarrow> (bytes \<times> bytes) option) \<Rightarrow> bool" where
  "literal_laws rd \<longleftrightarrow>
     (\<forall>c r. c \<noteq> CHR 0x27 \<longrightarrow> rd (CHR 0x27 # c # r) = Some ([], c # r)) \<and>
     (\<forall>c r. c \<noteq> CHR 0x27 \<longrightarrow> c \<noteq> CHR 0x5C \<longrightarrow> rd (c # r) = map_option (apfst ((#) c)) (rd r)) \<and>
     (\<forall>c r. c \<in> {CHR 0x5C, CHR 0x27, CHR 0x22} \<longrightarrow>
        rd (CHR 0x5C # c # r) = map_option (apfst ((#) c)) (rd r)) \<and>
     (\<forall>r. rd (CHR 0x5C # CHR ''n'' # r) = map_option (apfst ((#) (CHR 0x0A))) (rd r)) \<and>
     (\<forall>r. rd (CHR 0x5C # CHR ''r'' # r) = map_option (apfst ((#) (CHR 0x0D))) (rd r)) \<and>
     (\<forall>r. rd (CHR 0x5C # CHR ''t'' # r) = map_option (apfst ((#) (CHR 0x09))) (rd r))"

lemma read_escaped_char:
  assumes "literal_laws rd"
  shows "rd (escape_char c @ r) = map_option (apfst ((#) c)) (rd r)"
  using assms unfolding literal_laws_def escape_char_def by auto

lemma read_escaped:
  assumes "literal_laws rd" and "c \<noteq> CHR 0x27"
  shows "rd (escapeString s @ CHR 0x27 # c # r) = Some (s, c # r)"
proof (induction s)
  case Nil
  show ?case using assms by (simp add: literal_laws_def escapeString_def)
next
  case (Cons a s)
  have "escapeString (a # s) @ CHR 0x27 # c # r = escape_char a @ escapeString s @ CHR 0x27 # c # r"
    by (simp add: escapeString_def)
  with Cons show ?case by (simp only: read_escaped_char [OF assms(1)]) simp
qed

fun plain_literal :: "bytes \<Rightarrow> (bytes \<times> bytes) option" where
  \<comment> \<open>an instance\<close>
  "plain_literal [] = None"
| "plain_literal (c # r) =
     (if c = CHR 0x27 then Some ([], r)
      else if c = CHR 0x5C then
        (case r of
           [] \<Rightarrow> None
         | d # r1 \<Rightarrow>
             map_option (apfst ((#) (if d = CHR ''n'' then CHR 0x0A else if d = CHR ''r'' then CHR 0x0D
               else if d = CHR ''t'' then CHR 0x09 else d))) (plain_literal r1))
      else map_option (apfst ((#) c)) (plain_literal r))"

lemma plain_literal_laws: "literal_laws plain_literal"
  by (simp add: literal_laws_def)

subsection \<open>A toy conversation\<close>

definition toy_env :: environment where
  "toy_env v = (if v = ''DASHSCOPE_API_KEY'' then Some ''key'' else None)"

definition toy_json :: "simple_json json_ops" where
  \<comment> \<open>every text but \<open>down\<close> is an answer with that content\<close>
  "toy_json = simple_ops
     (\<lambda>text. if text = ''down'' then Throw ''parse_error''
             else Ok (SObject [(''choices'', SArray [SObject [(''message'',
               SObject [(''content'', SString text)])]])]))
     (\<lambda>j. Ok ''{}'')"

definition toy_start :: "(nat \<times> bytes list) helper_state" where
  "toy_start = (new_helper, \<lparr>mq_pool = None, mq_counter = 0, mq_ext = (5, [])\<rparr>)"

lemma toy_web_simps:
  "wb_env (toy_web env server files) = env"
  "wb_now_ms (toy_web env server files) (n, ms) = (int n + 1, (n + 1, ms))"
  "wb_curl_init (toy_web env server files) w = (True, w)"
  "wb_perform (toy_web env server files) call w = (server call, w)"
  "wb_channel (toy_web env server files) w = (Ok 0, w)"
  "wb_publish (toy_web env server files) i q m (n, ms) = (Ok (), (n, ms @ [m]))"
  by (simp_all add: toy_web_def)

lemma toy_publish: "publish_works (toy_web env server files)"
  by (simp add: publish_works_def toy_web_def)

lemma toy_publish_run:
  "publish (toy_web env server files) queue m \<lparr>mq_pool = p, mq_counter = c, mq_ext = (n, ms)\<rparr> =
    (Ok (), \<lparr>mq_pool = Some (case p of None \<Rightarrow> [0, 0, 0, 0, 0] | Some pool \<Rightarrow> pool), mq_counter = c + 1,
       mq_ext = (n, ms @ [m])\<rparr>)"
proof -
  have "MQManager (toy_web env server files) kPoolSize w = (Ok [0, 0, 0, 0, 0], w)" for w
    by (simp add: MQManager_def kPoolSize_def eval_nat_numeral toy_web_def bind_act_def return_act_def)
  then show ?thesis
    by (cases p) (simp_all add: publish_def mq_instance_def bind_act_def toy_web_simps)
qed

lemma toy_json_simps:
  "js_dump toy_json j = Ok ''{}''"
  "js_parse toy_json text = (if text = ''down'' then Throw ''parse_error''
     else Ok (SObject [(''choices'', SArray [SObject [(''message'', SObject [(''content'', SString text)])]])]))"
  by (simp_all add: toy_json_def simple_ops_def)

lemma toy_parse:
  "first_choice_content toy_json (SObject [(''choices'', SArray [SObject [(''message'',
    SObject [(''content'', SString text)])]])]) = Ok text"
  by (simp add: first_choice_content_def toy_json_def simple_ops_def simple_at_def)

lemma toy_chat:
  "\<exists>s'. chat toy_json (toy_web toy_env (\<lambda>_. Ok text) files) 7 ''ann'' ''1'' question ''1'' toy_start =
    (if text = ''down'' then Throw ''Failed to parse JSON response: down''
     else if text = [] then Ok unparsed_reply else Ok text, s')"
  by (simp add: chat_def strategy_names AliyunStrategy_def from_env_def toy_env_def toy_web_simps
      plain_chat_def ask_model_def executeCurl_def addMessage_def pushMessageToMysql_def
      toy_publish_run toy_start_def toy_json_simps toy_parse setStrategy_def restoreMessage_def parse_reply_def c_str_def
      act_simps bind_act_def on_web_def on_mq_def catch_act_def strategy_of_def with_helper_def
      modify_helper_def lift_out_def return_act_def Let_def)

subsection \<open>The properties\<close>

text \<open>C14: a chat that returns has added exactly two messages, the user's question and the model's
  answer, whatever model was asked and whatever prompts and tool calls it took; the caller gets the
  answer (a fixed text for an empty one, but not from the model with tools), and two statements
  were published.\<close>

theorem chat_adds_exchange:
  assumes "chat J W userId userName sid question modelType (h, q) = (Ok a, (h', q'))"
  shows "\<exists>t1 answer t2. ah_messages h' = ah_messages h @ [(question, t1), (answer, t2)] \<and>
    a = (if answer = [] \<and> modelType \<noteq> ''4'' then unparsed_reply else answer) \<and>
    mq_counter q' = mq_counter q + 2"
  using chat_messages [OF assms] by simp

theorem chat_adds_exchange_witness:
  "\<exists>h' q' t1 t2. chat toy_json (toy_web toy_env (\<lambda>_. Ok ''hi'') (\<lambda>_. None)) 7 ''ann'' ''1'' ''hello'' ''1'' toy_start =
     (Ok ''hi'', (h', q')) \<and>
     ah_messages h' = [(''hello'', t1), (''hi'', t2)] \<and> mq_counter q' = 2"
proof -
  obtain h' q' where run: "chat toy_json (toy_web toy_env (\<lambda>_. Ok ''hi'') (\<lambda>_. None)) 7 ''ann'' ''1'' ''hello'' ''1''
      toy_start = (Ok ''hi'', (h', q'))"
    using toy_chat [of "''hi''" "\<lambda>_. None" "''hello''"] by auto
  from chat_adds_exchange [OF this [unfolded toy_start_def]] obtain t1 answer t2 where
    m: "ah_messages h' = [(''hello'', t1), (answer, t2)]"
    and a: "''hi'' = (if answer = [] then unparsed_reply else answer)" and "mq_counter q' = 2"
    by (auto simp: new_helper_def)
  have "answer = ''hi''" using a by (auto simp: unparsed_reply_def split: if_splits)
  with run m \<open>mq_counter q' = 2\<close> show ?thesis by blast
qed

text \<open>When a model without tools cannot be asked, or its reply cannot be read, the question stays
  in the conversation without an answer (and was published), so in a conversation of complete
  exchanges the next question the user sends is sent to the model as if the assistant had said it.\<close>

theorem failed_chat_flips_roles:
  assumes "chat J W userId userName sid question modelType (h, q) = (Throw e, (h', q'))"
    and "create registered (wb_env W) modelType = Ok x" and "modelType \<noteq> ''4''"
    and "publish_works W" and "even (length (ah_messages h))"
  shows "\<exists>t. ah_messages h' = ah_messages h @ [(question, t)] \<and> mq_counter q' = mq_counter q + 1 \<and>
    role (length (ah_messages h')) = ''assistant''"
  using failed_plain_chat [OF assms(1-4)] assms(5) by (auto simp: role_def even_iff_mod_2_eq_zero)

theorem failed_chat_flips_roles_witness:
  "\<exists>h' q' t. chat toy_json (toy_web toy_env (\<lambda>_. Ok ''down'') (\<lambda>_. None)) 7 ''ann'' ''1'' ''hello'' ''1'' toy_start =
     (Throw ''Failed to parse JSON response: down'', (h', q')) \<and>
     ah_messages h' = [(''hello'', t)] \<and> role (length (ah_messages h')) = ''assistant''"
proof -
  obtain h' q' where run: "chat toy_json (toy_web toy_env (\<lambda>_. Ok ''down'') (\<lambda>_. None)) 7 ''ann'' ''1'' ''hello'' ''1''
      toy_start = (Throw ''Failed to parse JSON response: down'', (h', q'))"
    using toy_chat [of "''down''" "\<lambda>_. None" "''hello''"] by auto
  have "create registered (wb_env (toy_web toy_env (\<lambda>_. Ok ''down'') (\<lambda>_. None))) ''1'' = Ok (Aliyun ''key'')"
    by (simp add: strategy_names AliyunStrategy_def from_env_def toy_env_def toy_web_simps)
  from failed_chat_flips_roles [OF run [unfolded toy_start_def] this _ toy_publish]
  show ?thesis unfolding toy_start_def [symmetric] using run by (auto simp: new_helper_def)
qed

text \<open>The text of a message is what the database reads back from the statement, whatever quotes,
  backslashes and line ends it has: no text leaves its string literal.\<close>

theorem message_text_roundtrip:
  assumes "literal_laws rd"
  shows "\<exists>before after. insert_statement userId userName is_user text ms sid = before @ CHR 0x27 # after \<and>
    rd after = Some (text, '', '' @ int_to_dec ms @ '')'')"
proof -
  define before where "before =
     ''INSERT INTO chat_message (id, username, session_id, is_user, content, ts) VALUES ('' @
     int_to_dec userId @ '', '' @ quoted userName @ '', '' @ sid @ '', '' @
     (if is_user then ''1'' else ''0'') @ '', ''"
  define after where "after = escapeString text @ CHR 0x27 # CHR '','' # '' '' @ int_to_dec ms @ '')''"
  have "insert_statement userId userName is_user text ms sid = before @ CHR 0x27 # after"
    by (simp add: insert_statement_def before_def after_def quoted_def)
  moreover have "rd after = Some (text, '', '' @ int_to_dec ms @ '')'')"
    using read_escaped [OF assms, of "CHR '',''" "text"] by (simp add: after_def)
  ultimately show ?thesis by blast
qed

theorem message_text_roundtrip_witness:
  "\<exists>before after. insert_statement 7 ''ann'' True ''it's'' 5 ''1'' = before @ CHR 0x27 # after \<and>
    plain_literal after = Some (''it's'', '', '' @ int_to_dec 5 @ '')'')"
  by (rule message_text_roundtrip) (rule plain_literal_laws)

end
