(* ===== verification/AI_Speech.thy ===== *)
theory AI_Speech
  imports Web_Service Http_Response "HOL-Library.Word"
begin

unbundle bit_operations_syntax

section \<open>AISessionIdGenerator\<close>

text \<open>\<open>AIApps/ChatServer/src/AIUtil/AISessionIdGenerator.cpp\<close>: ids of conversations.\<close>

definition generate :: "'w web_ops \<Rightarrow> (bytes, 'w, bytes) action" where
  "generate W w =
     (let (now, w1) = wb_now_ns W (wb_srand_time W w);
          (r, w2) = wb_rand W w1
      in (Ok (int_to_dec (now XOR int (r mod 100000))), w2))"

lemma dec_digits: "set (nat_to_dec n) \<subseteq> {c. is_digit c}"
  by (auto dest: nat_to_dec_digits)

lemma generated_id_digits:
  assumes "generate W w = (Ok sid, w')" and "\<And>v. 0 \<le> fst (wb_now_ns W v)"
  shows "set sid \<subseteq> {c. is_digit c}"
proof -
  obtain now w1 r w2 where n: "wb_now_ns W (wb_srand_time W w) = (now, w1)" "wb_rand W w1 = (r, w2)"
    by (metis surj_pair)
  have "0 \<le> now" using assms(2) [of "wb_srand_time W w"] n by simp
  then have "0 \<le> now XOR int (r mod 100000)" by simp
  moreover have "sid = int_to_dec (now XOR int (r mod 100000))"
    using assms(1) n by (simp add: generate_def)
  ultimately show ?thesis by (simp add: int_to_dec_def dec_digits)
qed

section \<open>AISpeechProcessor\<close>

text \<open>
  \<open>AIApps/ChatServer/include/AIUtil/AISpeechProcessor.h\<close> and \<open>src/AIUtil/AISpeechProcessor.cpp\<close>:
  speech recognition and synthesis over HTTP.  A synthesis makes a task and then asks for its state
  once a second, at most 60 times.
\<close>

record speech_processor =
  sp_client_id :: bytes
  sp_client_secret :: bytes
  sp_cuid :: bytes
  sp_token :: bytes

definition onWriteData :: "bytes \<Rightarrow> bytes \<Rightarrow> nat \<times> bytes" where
  "onWriteData buffer str = (length buffer, str @ buffer)"

definition attempt :: "(bytes, 'a) outcome \<Rightarrow> 'a \<Rightarrow> (bytes, 'a) outcome" where
  \<comment> \<open>\<open>try { ... } catch (...) { }\<close> and what follows it\<close>
  "attempt r d = (case r of Throw _ \<Rightarrow> Ok d | _ \<Rightarrow> r)"

definition getAccessToken :: "'j json_ops \<Rightarrow> 'w web_ops \<Rightarrow> bytes \<Rightarrow> bytes \<Rightarrow> (bytes, 'w, bytes) action" where
  "getAccessToken J W client_id client_secret =
     bind_act
       (curl_call W
          \<lparr>hc_url = ''https://aip.baidubce.com/oauth/2.0/token'',
           hc_headers = [''Content-Type: application/x-www-form-urlencoded'', ''Accept: application/json''],
           hc_body = Some (c_str (''grant_type=client_credentials&client_id='' @ client_id @
             ''&client_secret='' @ client_secret))\<rparr>)
       (\<lambda>r. case r of
          Some (Some text) \<Rightarrow>
            lift_out (attempt
              (bind_out (js_parse J text) (\<lambda>j.
                 if js_contains J ''access_token'' j
                 then bind_out (js_at J ''access_token'' j) (\<lambda>t.
                        if js_is_string J t then js_get_string J t else Ok [])
                 else Ok []))
              [])
        | _ \<Rightarrow> return_act [])"

definition AISpeechProcessor ::
    "'j json_ops \<Rightarrow> 'w web_ops \<Rightarrow> bytes \<Rightarrow> bytes \<Rightarrow> bytes \<Rightarrow> (bytes, 'w, speech_processor) action" where
  "AISpeechProcessor J W clientId clientSecret cuid =
     bind_act (getAccessToken J W clientId clientSecret) (\<lambda>token.
     return_act \<lparr>sp_client_id = clientId, sp_client_secret = clientSecret, sp_cuid = cuid,
                 sp_token = token\<rparr>)"

definition default_cuid :: bytes where
  "default_cuid = ''RZjSQGzNaA8EFWf6rvuHEKDh9i4XJIV9''"

definition post_json ::
    "'j json_ops \<Rightarrow> 'w web_ops \<Rightarrow> bytes \<Rightarrow> 'j \<Rightarrow> (bytes, 'w, bytes option option) action" where
  \<comment> \<open>a handle, the text of the body (which may throw), the transfer: \<open>None\<close> without a handle,
      \<open>Some None\<close> when it failed\<close>
  "post_json J W url body w =
     (case wb_curl_init W w of
        (False, w1) \<Rightarrow> (Ok None, w1)
      | (True, w1) \<Rightarrow>
          bind_act (lift_out (js_dump J body)) (\<lambda>data.
          catch_act
            (bind_act
              (wb_perform W \<lparr>hc_url = c_str url,
                 hc_headers = [''Content-Type: application/json'', ''Accept: application/json''],
                 hc_body = Some (c_str data)\<rparr>)
              (\<lambda>text. return_act (Some (Some text))))
            (\<lambda>_. return_act (Some None))) w1)"

definition recognized_text :: "'j json_ops \<Rightarrow> bytes \<Rightarrow> (bytes, bytes) outcome" where
  "recognized_text J text =
     bind_out (js_parse J text) (\<lambda>root.
     if \<not> js_contains J ''result'' root then Ok []
     else bind_out (js_at J ''result'' root) (\<lambda>r.
       if js_is_array J r \<and> \<not> js_empty J r
       then bind_out (js_nth J 0 r) (\<lambda>x. if js_is_string J x then js_get_string J x else Ok [])
       else Ok []))"

definition recognize ::
    "'j json_ops \<Rightarrow> 'w web_ops \<Rightarrow> speech_processor \<Rightarrow> bytes \<Rightarrow> bytes \<Rightarrow> int \<Rightarrow> int \<Rightarrow>
      (bytes, 'w, bytes) action" where
  "recognize J W sp speechData format rate channel =
     bind_act
       (post_json J W ''https://vop.baidu.com/server_api''
          (js_object J [(''format'', js_string J format), (''rate'', js_int J rate),
             (''channel'', js_int J channel), (''cuid'', js_string J (sp_cuid sp)),
             (''token'', js_string J (sp_token sp)),
             (''len'', js_int J (signed_take_bit 31 (int (length speechData)))),
             (''speech'', js_string J speechData)]))
       (\<lambda>r. case r of
          Some (Some text) \<Rightarrow> lift_out (attempt (recognized_text J text) [])
        | _ \<Rightarrow> return_act [])"

subsection \<open>Synthesis\<close>

definition first_task :: "'j json_ops \<Rightarrow> 'j \<Rightarrow> (bytes, 'j option) outcome" where
  \<comment> \<open>\<open>j["tasks_info"][0]\<close> when it is there\<close>
  "first_task J j =
     (if \<not> js_contains J ''tasks_info'' j then Ok None
      else bind_out (js_at J ''tasks_info'' j) (\<lambda>ts.
        if js_is_array J ts \<and> \<not> js_empty J ts
        then bind_out (js_nth J 0 ts) (\<lambda>t. Ok (Some t))
        else Ok None))"

definition task_id_of :: "'j json_ops \<Rightarrow> bytes \<Rightarrow> (bytes, bytes) outcome" where
  "task_id_of J response =
     bind_out (js_parse J response) (\<lambda>j.
     bind_out
       (if js_contains J ''task_id'' j
        then bind_out (js_at J ''task_id'' j) (\<lambda>t. Ok (if js_is_string J t then Some t else None))
        else Ok None)
       (\<lambda>root_id.
          case root_id of
            Some t \<Rightarrow> js_get_string J t
          | None \<Rightarrow>
              bind_out (first_task J j) (\<lambda>task.
                case task of
                  None \<Rightarrow> Ok []
                | Some t \<Rightarrow>
                    if js_contains J ''task_id'' t
                    then bind_out (js_at J ''task_id'' t) (js_get_string J)
                    else Ok [])))"

definition speech_url_of :: "'j json_ops \<Rightarrow> bytes \<Rightarrow> (bytes, bytes option) outcome" where
  \<comment> \<open>the body of the \<open>try\<close> of the loop: \<open>None\<close> to go on\<close>
  "speech_url_of J response =
     bind_out (js_parse J response) (\<lambda>queryResult.
     bind_out (first_task J queryResult) (\<lambda>found.
     case found of
       None \<Rightarrow> Ok None
     | Some task \<Rightarrow>
         if \<not> js_contains J ''task_status'' task then Ok None
         else bind_out (js_at J ''task_status'' task) (\<lambda>st.
           if \<not> js_is_string J st then Ok None
           else bind_out (js_get_string J st) (\<lambda>status.
             if status = ''Success'' \<and> js_contains J ''task_result'' task
             then bind_out (js_at J ''task_result'' task) (\<lambda>res.
                    if js_contains J ''speech_url'' res
                    then bind_out (js_at J ''speech_url'' res) (\<lambda>u.
                         bind_out (js_get_string J u) (\<lambda>url. Ok (Some url)))
                    else Ok None)
             else Ok None))))"

definition max_loops :: nat where "max_loops = 60"

fun poll :: "'j json_ops \<Rightarrow> 'w web_ops \<Rightarrow> bytes \<Rightarrow> 'j \<Rightarrow> nat \<Rightarrow> (bytes, 'w, bytes) action" where
  \<comment> \<open>the loop, with the number of turns left\<close>
  "poll J W token query 0 = return_act []"
| "poll J W token query (Suc n) =
     bind_act (modify_act (wb_sleep W 1)) (\<lambda>_.
     bind_act
       (post_json J W (''https://aip.baidubce.com/rpc/2.0/tts/v1/query?access_token='' @ token) query)
       (\<lambda>r. case r of
          Some (Some response) \<Rightarrow>
            bind_act (lift_out (attempt (bind_out (speech_url_of J response) (\<lambda>u. Ok (Some u))) None))
              (\<lambda>x. case x of
                 None \<Rightarrow> return_act []
               | Some (Some url) \<Rightarrow> return_act url
               | Some None \<Rightarrow> poll J W token query n)
        | _ \<Rightarrow> return_act []))"

definition synthesize ::
    "'j json_ops \<Rightarrow> 'w web_ops \<Rightarrow> speech_processor \<Rightarrow> bytes \<Rightarrow> bytes \<Rightarrow> bytes \<Rightarrow> int \<Rightarrow> int \<Rightarrow> int \<Rightarrow>
      (bytes, 'w, bytes) action" where
  "synthesize J W sp txt format lang speed pitch volume =
     bind_act
       (post_json J W (''https://aip.baidubce.com/rpc/2.0/tts/v1/create?access_token='' @ sp_token sp)
          (js_object J [(''text'', js_string J txt), (''format'', js_string J format),
             (''lang'', js_string J lang), (''speed'', js_int J speed), (''pitch'', js_int J pitch),
             (''volume'', js_int J volume), (''enable_subtitle'', js_int J 0)]))
       (\<lambda>r. case r of
          Some (Some response) \<Rightarrow>
            bind_act (lift_out (attempt (task_id_of J response) [])) (\<lambda>task_id.
            if task_id = [] then return_act []
            else poll J W (sp_token sp)
                   (js_object J [(''task_ids'', js_array J [js_string J task_id])]) max_loops)
        | _ \<Rightarrow> return_act [])"

subsection \<open>How long a synthesis waits\<close>

definition counts :: "'w web_ops \<Rightarrow> ('w \<Rightarrow> nat) \<Rightarrow> ('w \<Rightarrow> nat) \<Rightarrow> bool" where
  \<comment> \<open>the seconds slept and the transfers made so far\<close>
  "counts W slept sent \<longleftrightarrow>
     (\<forall>k w. slept (wb_sleep W k w) = slept w + k \<and> sent (wb_sleep W k w) = sent w) \<and>
     (\<forall>w. slept (snd (wb_curl_init W w)) = slept w \<and> sent (snd (wb_curl_init W w)) = sent w) \<and>
     (\<forall>c w. slept (snd (wb_perform W c w)) = slept w \<and> sent (snd (wb_perform W c w)) = sent w + 1)"

lemma post_json_counts:
  assumes "counts W slept sent" and "post_json J W url body w = (r, w')"
  shows "slept w' = slept w" and "sent w' \<le> sent w + 1"
proof -
  obtain ok w1 where i: "wb_curl_init W w = (ok, w1)" by (rule prod.exhaust)
  have w1: "slept w1 = slept w \<and> sent w1 = sent w" using assms(1) i unfolding counts_def by (metis snd_conv)
  have perform: "slept (snd (wb_perform W c w1)) = slept w1 \<and> sent (snd (wb_perform W c w1)) = sent w1 + 1" for c
    using assms(1) unfolding counts_def by blast
  have "slept w' = slept w \<and> sent w' \<le> sent w + 1"
  proof (cases "ok \<and> (\<exists>data. js_dump J body = Ok data)")
    case True
    then obtain data where d: "js_dump J body = Ok data" by blast
    let ?c = "\<lparr>hc_url = c_str url,
      hc_headers = [''Content-Type: application/json'', ''Accept: application/json''],
      hc_body = Some (c_str data)\<rparr>"
    obtain x w2 where p: "wb_perform W ?c w1 = (x, w2)" by (rule prod.exhaust)
    with perform [of ?c] w1 True d assms(2) show ?thesis
      by (cases x) (auto simp: post_json_def i bind_act_def lift_out_def catch_act_def return_act_def)
  next
    case False
    then show ?thesis using w1 assms(2)
      by (cases ok; cases "js_dump J body") (auto simp: post_json_def i bind_act_def lift_out_def)
  qed
  then show "slept w' = slept w" and "sent w' \<le> sent w + 1" by simp_all
qed

lemma poll_counts:
  assumes "counts W slept sent" and "poll J W token query n w = (r, w')"
  shows "slept w \<le> slept w' \<and> slept w' \<le> slept w + n \<and> sent w' \<le> sent w + (slept w' - slept w) \<and>
    (\<forall>url. r = Ok url \<and> url \<noteq> [] \<longrightarrow> slept w < slept w')"
  using assms(2)
proof (induction n arbitrary: w)
  case (Suc n)
  let ?url = "''https://aip.baidubce.com/rpc/2.0/tts/v1/query?access_token='' @ token"
  let ?w1 = "wb_sleep W 1 w"
  obtain x w2 where p: "post_json J W ?url query ?w1 = (x, w2)" by (rule prod.exhaust)
  have w2: "slept w2 = slept w + 1" "sent w2 \<le> sent w + 1"
    using post_json_counts [OF assms(1) p] assms(1) by (simp_all add: counts_def)
  have "w' = w2 \<or> poll J W token query n w2 = (r, w')"
    using Suc.prems p
    by (auto simp: bind_act_def modify_act_def return_act_def lift_out_def
        split: outcome.splits option.splits)
  with Suc.IH [of w2] w2 show ?case by fastforce
qed (auto simp: return_act_def)

lemma synthesize_counts:
  assumes "counts W slept sent" and "synthesize J W sp txt format lang speed pitch volume w = (r, w')"
  shows "slept w \<le> slept w' \<and> slept w' \<le> slept w + max_loops \<and> sent w' \<le> sent w + 1 + (slept w' - slept w) \<and>
    (\<forall>url. r = Ok url \<and> url \<noteq> [] \<longrightarrow> slept w < slept w')"
proof -
  let ?url = "''https://aip.baidubce.com/rpc/2.0/tts/v1/create?access_token='' @ sp_token sp"
  let ?body = "js_object J [(''text'', js_string J txt), (''format'', js_string J format),
             (''lang'', js_string J lang), (''speed'', js_int J speed), (''pitch'', js_int J pitch),
             (''volume'', js_int J volume), (''enable_subtitle'', js_int J 0)]"
  obtain x w2 where p: "post_json J W ?url ?body w = (x, w2)" by (rule prod.exhaust)
  note w2 = post_json_counts [OF assms(1) p]
  have "w' = w2 \<and> (\<forall>url. r = Ok url \<longrightarrow> url = []) \<or>
      (\<exists>q. poll J W (sp_token sp) q max_loops w2 = (r, w'))"
    using assms(2) p
    by (auto simp: synthesize_def bind_act_def return_act_def lift_out_def
        split: outcome.splits option.splits if_splits)
  with w2 poll_counts [OF assms(1), of J "sp_token sp" _ max_loops w2 r w'] show ?thesis by fastforce
qed

subsection \<open>The property\<close>


definition waiting_json :: "simple_json json_ops" where
  \<comment> \<open>every answer is that of a task still running\<close>
  "waiting_json = simple_ops
     (\<lambda>_. Ok (SObject [(''task_id'', SString ''t''),
        (''tasks_info'', SArray [SObject [(''task_status'', SString ''Running'')]])]))
     (\<lambda>_. Ok ''{}'')"

definition logged_web :: "(nat \<times> bytes list) web_ops" where
  \<comment> \<open>the addresses of the transfers are kept\<close>
  "logged_web = (toy_web Map.empty (\<lambda>_. Ok ''{}'') (\<lambda>_. None))
     \<lparr>wb_perform := (\<lambda>c (n, log). (Ok ''{}'', (n, log @ [hc_url c])))\<rparr>"

lemmas waiting_defs = waiting_json_def logged_web_def toy_web_def simple_ops_def simple_at_def post_json_def
  bind_act_def return_act_def lift_out_def catch_act_def modify_act_def

lemma waiting_poll: "poll waiting_json logged_web token q n (t, log) = (Ok [], (t + n, log @ replicate n
  (c_str (''https://aip.baidubce.com/rpc/2.0/tts/v1/query?access_token='' @ token))))"
proof (induction n arbitrary: t log)
  case (Suc n)
  let ?u = "c_str (''https://aip.baidubce.com/rpc/2.0/tts/v1/query?access_token='' @ token)"
  have s: "speech_url_of waiting_json ''{}'' = Ok None"
    by (simp add: speech_url_of_def first_task_def waiting_defs bind_out_def)
  have p: "post_json waiting_json logged_web (''https://aip.baidubce.com/rpc/2.0/tts/v1/query?access_token='' @ token) q
      (t + 1, log) = (Ok (Some (Some ''{}'')), (t + 1, log @ [?u]))"
    by (simp add: waiting_defs)
  have "wb_sleep logged_web 1 (t, log) = (t + 1, log)" by (simp add: waiting_defs)
  with s p Suc.IH [of "t + 1" "log @ [?u]"] show ?case
    by (simp add: bind_act_def modify_act_def lift_out_def attempt_def bind_out_def)
qed (simp add: return_act_def)


end
