(* ===== verification/Image_Recognizer.thy ===== *)
theory Image_Recognizer
  imports Web_Service Http_Response
begin

section \<open>FileUtil\<close>

text \<open>
  \<open>HttpServer/include/utils/FileUtil.h\<close>: an input stream and what is in the file, \<open>None\<close> when it is
  not open.  The size is a \<open>uint64_t\<close>; of a stream that is not open it is the largest one.
\<close>

record file_util =
  fu_filePath :: bytes
  fu_file :: "bytes option"

definition FileUtil :: "'w web_ops \<Rightarrow> bytes \<Rightarrow> (bytes, 'w, file_util) action" where
  "FileUtil W filePath w =
     (let (f, w1) = wb_file W filePath w in (Ok \<lparr>fu_filePath = filePath, fu_file = f\<rparr>, w1))"

definition isValid_file :: "file_util \<Rightarrow> bool" where
  "isValid_file fu \<longleftrightarrow> fu_file fu \<noteq> None"

definition not_found_page :: bytes where
  "not_found_page = ''../AIApps/ChatServer/resource/NotFound.html''"

definition resetDefaultFile :: "'w web_ops \<Rightarrow> file_util \<Rightarrow> (bytes, 'w, file_util) action" where
  "resetDefaultFile W fu w =
     (let (f, w1) = wb_file W not_found_page w in (Ok (fu\<lparr>fu_file := f\<rparr>), w1))"

definition file_size :: "file_util \<Rightarrow> nat" where
  "file_size fu = (case fu_file fu of None \<Rightarrow> 2 ^ 64 - 1 | Some text \<Rightarrow> length text)"

definition readFile :: "file_util \<Rightarrow> bytes \<Rightarrow> bytes" where
  \<comment> \<open>into a buffer of the size of the file\<close>
  "readFile fu buffer = (case fu_file fu of None \<Rightarrow> buffer | Some text \<Rightarrow> text)"

definition new_buffer :: "nat \<Rightarrow> (bytes, bytes) outcome" where
  \<comment> \<open>\<open>std::vector<char> buffer(n)\<close>\<close>
  "new_buffer n =
     (if 2 ^ 63 - 1 < n then Throw ''cannot create std::vector larger than max_size()''
      else Ok (replicate n NUL))"

definition read_page :: "'w web_ops \<Rightarrow> bytes \<Rightarrow> (bytes, 'w, bytes) action" where
  \<comment> \<open>the page a handler sends: the file, the 404 page when there is none\<close>
  "read_page W reqFile =
     bind_act (FileUtil W reqFile) (\<lambda>fu0.
     bind_act (if \<not> isValid_file fu0 then resetDefaultFile W fu0 else return_act fu0) (\<lambda>fu.
     bind_act (lift_out (new_buffer (file_size fu))) (\<lambda>buffer.
     return_act (readFile fu buffer))))"

lemma read_page_found:
  assumes "wb_file W path w = (Some text, w1)" and "length text < 2 ^ 63"
  shows "read_page W path w = (Ok text, w1)"
  using assms by (simp add: read_page_def FileUtil_def isValid_file_def file_size_def new_buffer_def
      readFile_def bind_act_def return_act_def lift_out_def)

lemma read_page_missing:
  assumes "wb_file W path w = (None, w1)" and "wb_file W not_found_page w1 = (None, w2)"
  shows "read_page W path w = (Throw ''cannot create std::vector larger than max_size()'', w2)"
  using assms by (simp add: read_page_def FileUtil_def isValid_file_def resetDefaultFile_def
      file_size_def new_buffer_def bind_act_def return_act_def lift_out_def)

section \<open>ImageRecognizer\<close>

text \<open>
  \<open>AIApps/ChatServer/include/AIUtil/ImageRecognizer.h\<close> and \<open>src/AIUtil/ImageRecognizer.cpp\<close>.  OpenCV
  and the ONNX runtime are not part of the repository: \<open>image_ops\<close> has an unknown type \<open>'m\<close> of
  sessions, \<open>'i\<close> of decoded images and \<open>'f\<close> of scores; \<open>im_infer\<close> is the resizing, the tensor and the
  run.  Reading scores behind the end of the output is \<open>OutOfBounds\<close>.
\<close>

record ('m, 'i, 'f, 'w) image_ops =
  im_session :: "bytes \<Rightarrow> (bytes, 'w, 'm) action"
  im_imread :: "bytes \<Rightarrow> (bytes, 'w, 'i option) action"       \<comment> \<open>\<open>None\<close>: an empty matrix\<close>
  im_imdecode :: "bytes \<Rightarrow> (bytes, 'w, 'i option) action"
  im_infer :: "'m \<Rightarrow> 'i \<Rightarrow> (bytes, 'w, 'f list) action"
  im_less :: "'f \<Rightarrow> 'f \<Rightarrow> bool"

record 'm recognizer =
  ir_session :: 'm
  ir_labels :: "bytes list"

definition LoadLabels :: "'w web_ops \<Rightarrow> bytes \<Rightarrow> (bytes, 'w, bytes list) action" where
  "LoadLabels W label_path w =
     (case wb_file W label_path w of
        (None, w1) \<Rightarrow> (Throw (''Failed to open label file: '' @ label_path), w1)
      | (Some text, w1) \<Rightarrow>
          (let labels = filter (\<lambda>line. line \<noteq> []) (split_on (CHR 0x0A) text)
           in if labels = [] then (Throw (''No labels loaded from file: '' @ label_path), w1)
              else (Ok labels, w1)))"

definition ImageRecognizer ::
    "('m, 'i, 'f, 'w) image_ops \<Rightarrow> 'w web_ops \<Rightarrow> bytes \<Rightarrow> bytes \<Rightarrow> (bytes, 'w, 'm recognizer) action" where
  "ImageRecognizer I W model_path label_path =
     bind_act (im_session I model_path) (\<lambda>m.
     bind_act (LoadLabels W label_path) (\<lambda>labels.
     return_act \<lparr>ir_session = m, ir_labels = labels\<rparr>))"

fun max_from :: "('f \<Rightarrow> 'f \<Rightarrow> bool) \<Rightarrow> nat \<Rightarrow> 'f \<Rightarrow> nat \<Rightarrow> 'f list \<Rightarrow> nat" where
  "max_from lt best x i [] = best"
| "max_from lt best x i (y # ys) =
     (if lt x y then max_from lt i y (Suc i) ys else max_from lt best x (Suc i) ys)"

definition max_element :: "('f \<Rightarrow> 'f \<Rightarrow> bool) \<Rightarrow> 'f list \<Rightarrow> nat" where
  \<comment> \<open>\<open>std::max_element\<close>: the first of the largest\<close>
  "max_element lt xs = (case xs of [] \<Rightarrow> 0 | x # ys \<Rightarrow> max_from lt 0 x 1 ys)"

definition label_of :: "('f \<Rightarrow> 'f \<Rightarrow> bool) \<Rightarrow> bytes list \<Rightarrow> 'f list \<Rightarrow> (bytes, bytes) outcome" where
  "label_of lt labels output_data =
     (let num_classes = (if labels = [] then 1000 else length labels)
      in if length output_data < num_classes then Crash OutOfBounds
         else let pred_class = max_element lt (take num_classes output_data)
              in if pred_class < length labels then Ok (labels ! pred_class) else Ok ''Unknown'')"

definition PredictFromMat ::
    "('m, 'i, 'f, 'w) image_ops \<Rightarrow> 'm recognizer \<Rightarrow> 'i option \<Rightarrow> (bytes, 'w, bytes) action" where
  "PredictFromMat I ir img_raw =
     (case img_raw of
        None \<Rightarrow> throw_act ''Input image is empty''
      | Some img \<Rightarrow>
          bind_act (im_infer I (ir_session ir) img) (\<lambda>output_data.
          lift_out (label_of (im_less I) (ir_labels ir) output_data)))"

definition PredictFromBuffer ::
    "('m, 'i, 'f, 'w) image_ops \<Rightarrow> 'm recognizer \<Rightarrow> bytes \<Rightarrow> (bytes, 'w, bytes) action" where
  "PredictFromBuffer I ir image_data =
     bind_act (im_imdecode I image_data) (\<lambda>img.
     if img = None then throw_act ''Failed to decode image from buffer''
     else PredictFromMat I ir img)"

definition PredictFromFile ::
    "('m, 'i, 'f, 'w) image_ops \<Rightarrow> 'm recognizer \<Rightarrow> bytes \<Rightarrow> (bytes, 'w, bytes) action" where
  "PredictFromFile I ir image_path =
     bind_act (im_imread I image_path) (\<lambda>img.
     if img = None then throw_act (''Failed to load image: '' @ image_path)
     else PredictFromMat I ir img)"

subsection \<open>The largest score\<close>

definition total_order :: "('f \<Rightarrow> 'f \<Rightarrow> bool) \<Rightarrow> bool" where
  \<comment> \<open>what \<open><\<close> is on floats other than NaN: a strict weak order\<close>
  "total_order lt \<longleftrightarrow>
     (\<forall>x. \<not> lt x x) \<and> (\<forall>x y z. \<not> lt x y \<longrightarrow> \<not> lt y z \<longrightarrow> \<not> lt x z) \<and>
     (\<forall>x y z. lt x y \<longrightarrow> lt y z \<longrightarrow> lt x z)"

definition top :: "('f \<Rightarrow> 'f \<Rightarrow> bool) \<Rightarrow> 'f list \<Rightarrow> nat \<Rightarrow> bool" where
  "top lt xs m \<longleftrightarrow> m < length xs \<and> (\<forall>z\<in>set xs. \<not> lt (xs ! m) z)"

lemma top_snoc:
  assumes "total_order lt" and "top lt xs m"
  shows "top lt (xs @ [y]) (if lt (xs ! m) y then length xs else m)"
proof (cases "lt (xs ! m) y")
  case True
  then have "\<not> lt y (xs ! m)" "\<not> lt y y" using assms(1) unfolding total_order_def by blast+
  have "\<not> lt y z" if "z \<in> set xs" for z
  proof -
    have "\<not> lt (xs ! m) z" using assms(2) that by (simp add: top_def)
    with \<open>\<not> lt y (xs ! m)\<close> show ?thesis
      using assms(1) [unfolded total_order_def, THEN conjunct2, THEN conjunct1, rule_format] by blast
  qed
  with True \<open>\<not> lt y y\<close> show ?thesis by (simp add: top_def)
next
  case False
  with assms(2) show ?thesis by (auto simp: top_def nth_append)
qed

lemma top_max_from:
  assumes ord: "total_order lt"
  shows "top lt xs best \<Longrightarrow> top lt (xs @ ys) (max_from lt best (xs ! best) (length xs) ys)"
proof (induction ys arbitrary: best xs)
  case (Cons y ys)
  let ?b = "if lt (xs ! best) y then length xs else best"
  have "best < length xs" using Cons.prems by (simp add: top_def)
  then have "(xs @ [y]) ! ?b = (if lt (xs ! best) y then y else xs ! best)"
    by (simp add: nth_append)
  with Cons.IH [OF top_snoc [OF ord Cons.prems], of y] show ?case by (cases "lt (xs ! best) y") simp_all
qed simp

lemma top_max_element:
  assumes "total_order lt" and "xs \<noteq> []"
  shows "top lt xs (max_element lt xs)"
proof -
  obtain x ys where xs: "xs = x # ys" using assms(2) by (cases xs) auto
  have "top lt [x] 0" using assms(1) by (simp add: top_def total_order_def)
  from top_max_from [OF assms(1) this, of ys] show ?thesis by (simp add: xs max_element_def)
qed

lemma max_element_spec:
  assumes "total_order lt" and "xs \<noteq> []"
  shows "max_element lt xs < length xs" "k < length xs \<Longrightarrow> \<not> lt (xs ! max_element lt xs) (xs ! k)"
  using top_max_element [OF assms] by (auto simp: top_def)

lemma loaded_lines: "LoadLabels W path w = (Ok labels, w') \<Longrightarrow> labels \<noteq> [] \<and> [] \<notin> set labels"
  by (auto simp: LoadLabels_def Let_def split: prod.splits option.splits if_splits)

lemma loaded_labels:
  assumes "ImageRecognizer I W model_path label_path w = (Ok ir, w')"
  shows "ir_labels ir \<noteq> [] \<and> [] \<notin> set (ir_labels ir)"
proof -
  obtain w1 labels w2 where "LoadLabels W label_path w1 = (Ok labels, w2)" "ir_labels ir = labels"
    using assms by (auto simp: ImageRecognizer_def bind_Ok_iff return_act_def)
  with loaded_lines show ?thesis by metis
qed

lemma predicted:
  assumes "ir_labels ir \<noteq> []" and "total_order (im_less I)"
    and "im_infer I (ir_session ir) img w = (Ok scores, w1)"
    and "length (ir_labels ir) \<le> length scores"
  shows "\<exists>i<length (ir_labels ir). PredictFromMat I ir (Some img) w = (Ok (ir_labels ir ! i), w1) \<and>
    (\<forall>k<length (ir_labels ir). \<not> im_less I (scores ! i) (scores ! k))"
proof -
  let ?n = "length (ir_labels ir)"
  have ne: "take ?n scores \<noteq> []" using assms(1,4) by (cases scores) auto
  let ?i = "max_element (im_less I) (take ?n scores)"
  have "?i < ?n \<and> (\<forall>k<?n. \<not> im_less I (scores ! ?i) (scores ! k))"
    using max_element_spec [OF assms(2) ne] assms(4) by fastforce
  moreover from this have "PredictFromMat I ir (Some img) w = (Ok (ir_labels ir ! ?i), w1)"
    using assms(1,3,4)
    by (simp add: PredictFromMat_def bind_act_def lift_out_def label_of_def Let_def)
  ultimately show ?thesis by blast
qed

text \<open>C36: a recogniser that was constructed has labels, and for an image it can decode it names one of
  them, one whose score no other score exceeds; "Unknown" is never its answer unless the file of labels
  has it.\<close>

theorem predicted_label_is_best:
  assumes "ImageRecognizer I W model_path label_path v = (Ok ir, v')" and "total_order (im_less I)"
    and "im_imdecode I data w = (Ok (Some img), w1)"
    and "im_infer I (ir_session ir) img w1 = (Ok scores, w2)"
    and "length (ir_labels ir) \<le> length scores"
  shows "\<exists>i<length (ir_labels ir). PredictFromBuffer I ir data w = (Ok (ir_labels ir ! i), w2) \<and>
    (\<forall>k<length (ir_labels ir). \<not> im_less I (scores ! i) (scores ! k))"
  using predicted [OF conjunct1 [OF loaded_labels [OF assms(1)]] assms(2,4,5)] assms(3)
  by (simp add: PredictFromBuffer_def bind_act_def)

definition toy_images :: "(unit, bytes, nat, nat \<times> bytes list) image_ops" where
  \<comment> \<open>the bytes of the image are its scores\<close>
  "toy_images = \<lparr>im_session = (\<lambda>path. return_act ()), im_imread = (\<lambda>path. return_act None),
     im_imdecode = (\<lambda>data. return_act (if data = [] then None else Some data)),
     im_infer = (\<lambda>m img. return_act (map of_char img)), im_less = (<)\<rparr>"

theorem predicted_label_is_best_witness:
  "\<exists>ir v'. ImageRecognizer toy_images (toy_web Map.empty (\<lambda>_. Ok []) (\<lambda>_. Some (''cat'' @ [CHR 0x0A] @ ''dog''))) [] [] (0, []) =
     (Ok ir, v') \<and> (\<exists>label\<in>{''cat'', ''dog''}. PredictFromBuffer toy_images ir ''AZ'' (0, []) = (Ok label, (0, [])))"
proof -
  let ?ir = "\<lparr>ir_session = (), ir_labels = [''cat'', ''dog'']\<rparr>"
  have ir: "ImageRecognizer toy_images (toy_web Map.empty (\<lambda>_. Ok []) (\<lambda>_. Some (''cat'' @ [CHR 0x0A] @ ''dog''))) [] [] (0, []) =
      (Ok ?ir, (0, []))"
    by (simp add: ImageRecognizer_def toy_images_def LoadLabels_def toy_web_def bind_act_def return_act_def)
  have "total_order (im_less toy_images)" by (auto simp: total_order_def toy_images_def)
  moreover have "im_imdecode toy_images ''AZ'' (0, []) = (Ok (Some ''AZ''), (0, []))"
    "im_infer toy_images (ir_session ?ir) ''AZ'' (0, []) = (Ok [65, 90], (0, []))"
    "length (ir_labels ?ir) \<le> length [65, 90 :: nat]"
    by (simp_all add: toy_images_def return_act_def)
  ultimately have "\<exists>i<length (ir_labels ?ir). PredictFromBuffer toy_images ?ir ''AZ'' (0, []) =
      (Ok (ir_labels ?ir ! i), (0, [])) \<and>
      (\<forall>k<length (ir_labels ?ir). \<not> im_less toy_images ([65, 90] ! i) ([65, 90] ! k))"
    by (rule predicted_label_is_best [OF ir])
  then obtain i where "i < 2" "PredictFromBuffer toy_images ?ir ''AZ'' (0, []) = (Ok ([''cat'', ''dog''] ! i), (0, []))"
    by (auto simp: eval_nat_numeral)
  with ir show ?thesis by (auto simp: less_2_cases_iff)
qed

end
