(* ===== verification/Chat_Server.thy ===== *)
theory Chat_Server
  imports AI_Helper Image_Recognizer AI_Speech Mysql_Util Password_Hash Handler Session
begin

section \<open>ChatServer\<close>

text \<open>
  \<open>AIApps/ChatServer/include/ChatServer.h\<close> and \<open>src/ChatServer.cpp\<close>: what the handlers share.  The
  unordered maps are functions (\<open>operator[]\<close> of a missing key makes the value that the function has
  there).  An \<open>AIHelper\<close> is reached through \<open>chatInformation\<close> only, so it is a value in it.  A handler
  runs from its first to its last line; the mutexes say no more in such a run.  \<open>chat_env\<close> is what lies
  outside: the JSON library, the network, the database, OpenSSL, OpenCV and ONNX, over one world \<open>'w\<close>.
\<close>

record ('m, 'w) chat_server =
  ct_sessions :: "mem_store session_world"       \<comment> \<open>the \<open>SessionManager\<close> of \<open>httpServer_\<close>\<close>
  ct_onlineUsers :: "int \<rightharpoonup> bool"
  ct_chatInformation :: "int \<Rightarrow> (bytes \<rightharpoonup> ai_helper)"
  ct_imageRecognizers :: "int \<rightharpoonup> 'm recognizer"
  ct_sessionsIds :: "int \<Rightarrow> bytes list"
  ct_mq :: "'w mq_world"
  ct_origin :: bytes                             \<comment> \<open>\<open>requestOrigin_\<close> of the CORS middleware\<close>

record ('j, 'm, 'i, 'f, 'w) chat_env =
  ce_json :: "'j json_ops"
  ce_web :: "'w web_ops"
  ce_mysql :: "'w mysql_ops"
  ce_crypto :: "'w crypto_ops"
  ce_images :: "('m, 'i, 'f, 'w) image_ops"

definition int32 :: "int \<Rightarrow> int" where
  \<comment> \<open>conversion to \<open>int\<close>\<close>
  "int32 n = signed_take_bit 31 n"

subsection \<open>Steps of a handler\<close>

text \<open>A handler runs on the response and the server; an exception is its \<open>what()\<close>.\<close>

type_synonym ('m, 'w) turn = "http_response \<times> ('m, 'w) chat_server"
type_synonym ('m, 'w, 'a) turn_action = "(bytes, ('m, 'w) turn, 'a) action"

definition set_response :: "(http_response \<Rightarrow> http_response) \<Rightarrow> ('m, 'w, unit) turn_action" where
  "set_response f = modify_act (\<lambda>(r, s). (f r, s))"

definition modify_server ::
    "(('m, 'w) chat_server \<Rightarrow> ('m, 'w) chat_server) \<Rightarrow> ('m, 'w, unit) turn_action" where
  "modify_server f = modify_act (\<lambda>(r, s). (r, f s))"

definition with_server ::
    "(('m, 'w) chat_server \<Rightarrow> ('m, 'w, 'a) turn_action) \<Rightarrow> ('m, 'w, 'a) turn_action" where
  "with_server f t = f (snd t) t"

definition outside :: "(bytes, 'w, 'a) action \<Rightarrow> ('m, 'w, 'a) turn_action" where
  \<comment> \<open>a call that leaves the program\<close>
  "outside m t =
     (let (r, w) = m (mq_ext (ct_mq (snd t)))
      in (r, (fst t, (snd t)\<lparr>ct_mq := (ct_mq (snd t))\<lparr>mq_ext := w\<rparr>\<rparr>)))"

definition get_session :: "http_request \<Rightarrow> ('m, 'w, addr) turn_action" where
  \<comment> \<open>\<open>server_->getSessionManager()->getSession(req, resp)\<close>\<close>
  "get_session req t =
     (let (a, resp, sw) = getSession memory_storage req (fst t) (ct_sessions (snd t))
      in (Ok a, (resp, (snd t)\<lparr>ct_sessions := sw\<rparr>)))"

definition session_value :: "addr \<Rightarrow> bytes \<Rightarrow> ('m, 'w, bytes) turn_action" where
  "session_value a key t = (Ok (getValue a key (ct_sessions (snd t))), t)"

definition on_sessions ::
    "(mem_store session_world \<Rightarrow> mem_store session_world) \<Rightarrow> ('m, 'w, unit) turn_action" where
  "on_sessions f = modify_server (\<lambda>s. s\<lparr>ct_sessions := f (ct_sessions s)\<rparr>)"

definition set_session_value :: "addr \<Rightarrow> bytes \<Rightarrow> bytes \<Rightarrow> ('m, 'w, unit) turn_action" where
  "set_session_value a key v = on_sessions (setValue memory_storage a key v)"

definition to_int :: "bytes \<Rightarrow> (bytes, int) outcome" where
  \<comment> \<open>\<open>std::stoi\<close>, whose exceptions are called after it\<close>
  "to_int s = (case stoi s of None \<Rightarrow> Throw ''stoi'' | Some n \<Rightarrow> Ok n)"

definition session_user :: "addr \<Rightarrow> ('m, 'w, int) turn_action" where
  "session_user a = bind_act (session_value a ''userId'') (\<lambda>v. lift_out (to_int v))"

subsection \<open>Responses\<close>

definition reply ::
    "http_request \<Rightarrow> http_status \<Rightarrow> bytes \<Rightarrow> bool \<Rightarrow> bytes \<Rightarrow> bytes \<Rightarrow> ('m, 'w, unit) turn_action" where
  \<comment> \<open>the five calls every handler ends with\<close>
  "reply req code msg close contentType body =
     set_response (\<lambda>r. setBody body (setContentLength (length body) (setContentType contentType
       (setCloseConnection close (setStatusLine (req_version req) code msg r)))))"

definition packageResp ::
    "bytes \<Rightarrow> http_status \<Rightarrow> bytes \<Rightarrow> bool \<Rightarrow> bytes \<Rightarrow> int \<Rightarrow> bytes \<Rightarrow> http_response option \<Rightarrow>
      http_response option" where
  \<comment> \<open>\<open>None\<close>: a null pointer; \<open>contentLen\<close> is converted to \<open>uint64_t\<close>\<close>
  "packageResp version statusCode statusMsg close contentType contentLen body resp =
     map_option (\<lambda>r. setBody body (setContentLength (nat (contentLen mod 2 ^ 64))
       (setContentType contentType (setCloseConnection close (setStatusMessage statusMsg
         (setStatusCode statusCode (setVersion version r))))))) resp"

definition json_reply ::
    "'j json_ops \<Rightarrow> http_request \<Rightarrow> http_status \<Rightarrow> bytes \<Rightarrow> bool \<Rightarrow> (bytes \<times> 'j) list \<Rightarrow>
      ('m, 'w, unit) turn_action" where
  \<comment> \<open>the object is made, dumped and sent\<close>
  "json_reply J req code msg close members =
     bind_act (lift_out (js_dump4 J (js_object J members)))
       (reply req code msg close ''application/json'')"

definition failure_members :: "'j json_ops \<Rightarrow> bytes \<Rightarrow> (bytes \<times> 'j) list" where
  "failure_members J message =
     [(''status'', js_string J ''error''), (''message'', js_string J message)]"

definition error_reply :: "'j json_ops \<Rightarrow> http_request \<Rightarrow> bytes \<Rightarrow> ('m, 'w, unit) turn_action" where
  \<comment> \<open>\<open>catch (const std::exception& e)\<close> of the handlers\<close>
  "error_reply J req e = json_reply J req k400BadRequest ''Bad Request'' True (failure_members J e)"

definition unauthorized :: "'j json_ops \<Rightarrow> http_request \<Rightarrow> ('m, 'w, unit) turn_action" where
  "unauthorized J req =
     bind_act (lift_out (js_dump4 J (js_object J (failure_members J ''Unauthorized'')))) (\<lambda>errorBody.
     set_response (\<lambda>r. the (packageResp (req_version req) k401Unauthorized ''Unauthorized'' True
       ''application/json'' (int32 (int (length errorBody))) errorBody (Some r))))"

definition logged_in ::
    "'j json_ops \<Rightarrow> http_request \<Rightarrow> (addr \<Rightarrow> ('m, 'w, unit) turn_action) \<Rightarrow> ('m, 'w, unit) turn_action" where
  \<comment> \<open>the frame of ten handlers: the \<open>try\<close>, the session, the test of \<open>isLoggedIn\<close>, the \<open>catch\<close>\<close>
  "logged_in J req f =
     catch_act
       (bind_act (get_session req) (\<lambda>session.
        bind_act (session_value session ''isLoggedIn'') (\<lambda>v.
        if v \<noteq> ''true'' then unauthorized J req else f session)))
       (error_reply J req)"

definition as_handler ::
    "(http_request \<Rightarrow> ('m, 'w, unit) turn_action) \<Rightarrow> ('m, 'w) chat_server handler" where
  \<comment> \<open>as the virtual function the router calls\<close>
  "as_handler h req resp s =
     (case h req (resp, s) of
        (Ok u, (resp', s')) \<Rightarrow> (Ok u, resp', s')
      | (Throw e, (resp', s')) \<Rightarrow> (Throw (ThrowStd e), resp', s')
      | (Crash x, (resp', s')) \<Rightarrow> (Crash x, resp', s'))"

subsection \<open>Conversations\<close>

definition ensure_helper :: "int \<Rightarrow> bytes \<Rightarrow> ('m, 'w) chat_server \<Rightarrow> ('m, 'w) chat_server" where
  \<comment> \<open>the \<open>emplace\<close> when there is no such conversation\<close>
  "ensure_helper userId sid s =
     (if ct_chatInformation s userId sid = None
      then s\<lparr>ct_chatInformation := (ct_chatInformation s)
               (userId := (ct_chatInformation s userId)(sid \<mapsto> new_helper))\<rparr>
      else s)"

definition on_helper ::
    "int \<Rightarrow> bytes \<Rightarrow> (bytes, 'w helper_state, 'a) action \<Rightarrow> ('m, 'w, 'a) turn_action" where
  \<comment> \<open>a call through \<open>AIHelperPtr\<close>, which is \<open>chatInformation[userId][sid]\<close>\<close>
  "on_helper userId sid m t =
     (case ct_chatInformation (snd t) userId sid of
        None \<Rightarrow> (Crash NullDeref, t)
      | Some h \<Rightarrow>
          (let (r, (h', q)) = m (h, ct_mq (snd t))
           in (r, (fst t, (snd t)
                 \<lparr>ct_chatInformation := (ct_chatInformation (snd t))
                    (userId := (ct_chatInformation (snd t) userId)(sid \<mapsto> h')),
                  ct_mq := q\<rparr>))))"

subsection \<open>Restoring the conversations\<close>

text \<open>
  A row that cannot be read is skipped.  The column \<open>id\<close> is 64 bits wide, the key of the maps 32.
  The loop ends when the driver has no more rows.
\<close>

type_synonym chat_row = "int \<times> bytes \<times> bytes \<times> int"    \<comment> \<open>id, session, text, time\<close>

definition read_row :: "'w row_ops \<Rightarrow> handle \<Rightarrow> (bytes, 'w, chat_row option) action" where
  "read_row R res =
     catch_act
       (bind_act (row_getInt64 R res ''id'') (\<lambda>user_id.
        bind_act (row_getString R res ''session_id'') (\<lambda>session_id.
        bind_act (row_getString R res ''username'') (\<lambda>username.
        bind_act (row_getString R res ''content'') (\<lambda>content.
        bind_act (row_getInt64 R res ''ts'') (\<lambda>ts.
        bind_act (row_getInt R res ''is_user'') (\<lambda>is_user.
        return_act (Some (user_id, session_id, content, ts)))))))))
       (\<lambda>_. return_act None)"

definition restore_row :: "chat_row \<Rightarrow> ('m, 'w) chat_server \<Rightarrow> ('m, 'w) chat_server" where
  "restore_row row s =
     (let (user_id, session_id, content, ts) = row; u = int32 user_id;
          s1 = (if ct_chatInformation s u session_id = None
                then (ensure_helper u session_id s)
                  \<lparr>ct_sessionsIds := (ct_sessionsIds s)(u := ct_sessionsIds s u @ [session_id])\<rparr>
                else s)
      in s1\<lparr>ct_chatInformation := (ct_chatInformation s1)
             (u := (ct_chatInformation s1 u)(session_id \<mapsto>
               restoreMessage content ts (the (ct_chatInformation s1 u session_id))))\<rparr>)"

partial_function (option) read_rows ::
    "'w row_ops \<Rightarrow> handle \<Rightarrow> ('m, 'w) turn \<Rightarrow> ((bytes, unit) outcome \<times> ('m, 'w) turn) option" where
  "read_rows R res t =
     (case outside (row_next R res) t of
        (Throw e, t1) \<Rightarrow> Some (Throw e, t1)
      | (Crash x, t1) \<Rightarrow> Some (Crash x, t1)
      | (Ok b, t1) \<Rightarrow>
          if \<not> b then Some (Ok (), t1)
          else (case outside (read_row R res) t1 of
                  (Throw e, t2) \<Rightarrow> Some (Throw e, t2)
                | (Crash x, t2) \<Rightarrow> Some (Crash x, t2)
                | (Ok r, t2) \<Rightarrow>
                    read_rows R res (case r of None \<Rightarrow> t2 | Some row \<Rightarrow> (fst t2, restore_row row (snd t2)))))"

definition history_query :: bytes where
  "history_query =
     ''SELECT id, username,session_id, is_user, content, ts FROM chat_message ORDER BY ts ASC, id ASC''"

definition readDataFromMySQL ::
    "'w mysql_ops \<Rightarrow> ('m, 'w) turn \<Rightarrow> ((bytes, unit) outcome \<times> ('m, 'w) turn) option" where
  "readDataFromMySQL M t =
     (case outside (my_query M history_query []) t of
        (Throw e, t1) \<Rightarrow> Some (Ok (), t1)
      | (Crash x, t1) \<Rightarrow> Some (Crash x, t1)
      | (Ok res, t1) \<Rightarrow> read_rows (my_rows M) res t1)"

definition initChatMessage ::
    "'w mysql_ops \<Rightarrow> ('m, 'w) turn \<Rightarrow> ((bytes, unit) outcome \<times> ('m, 'w) turn) option" where
  "initChatMessage M t = readDataFromMySQL M t"

definition executeMysql :: "'w mysql_ops \<Rightarrow> bytes \<Rightarrow> (bytes, 'w, unit) action" where
  \<comment> \<open>\<open>main.cpp\<close>: the handler of the worker threads\<close>
  "executeMysql M sql = bind_act (my_update M sql []) (\<lambda>_. return_act ())"

end
