(* ===== verification/Chat_Handlers.thy ===== *)
theory Chat_Handlers
  imports Chat_Server Base64
begin

section \<open>The handlers\<close>

text \<open>
  \<open>AIApps/ChatServer/include/handlers/\<close> and \<open>src/handlers/\<close>: one definition per \<open>handle\<close>, with the
  class's name.  \<open>req_content\<close> is \<open>getBody()\<close>.
\<close>

definition not_json_request :: "http_request \<Rightarrow> bool" where
  \<comment> \<open>the test of the content type and the body\<close>
  "not_json_request req \<longleftrightarrow>
     (let contentType = getHeader ''Content-Type'' req
      in contentType = [] \<or> contentType \<noteq> ''application/json'' \<or> req_content req = [])"

definition bad_request :: "http_request \<Rightarrow> ('m, 'w, unit) turn_action" where
  "bad_request req = reply req k400BadRequest ''Bad Request'' True ''application/json'' []"

definition next_row :: "'w mysql_ops \<Rightarrow> handle \<Rightarrow> (bytes, 'w, bool) action" where
  "next_row M res = row_next (my_rows M) res"

subsection \<open>ChatLoginHandler\<close>

definition queryUserId ::
    "('j, 'm, 'i, 'f, 'w) chat_env \<Rightarrow> bytes \<Rightarrow> bytes \<Rightarrow> (bytes, 'w, int) action" where
  "queryUserId E username password =
     (let M = ce_mysql E in
      bind_act (my_query M ''SELECT id, password FROM users WHERE username = ?'' [PString username]) (\<lambda>res.
      bind_act (next_row M res) (\<lambda>found.
      if found
      then bind_act (row_getString (my_rows M) res ''password'') (\<lambda>storedPassword.
           bind_act (row_getInt (my_rows M) res ''id'') (\<lambda>userId.
           bind_act (verifyPassword (ce_crypto E) password storedPassword True) (\<lambda>(ok, upgraded).
           if ok
           then bind_act
                  (case upgraded of
                     None \<Rightarrow> return_act ()
                   | Some u \<Rightarrow>
                       if u \<noteq> []
                       then bind_act (my_update M ''UPDATE users SET password = ? WHERE id = ?''
                              [PString u, PInt userId]) (\<lambda>_. return_act ())
                       else return_act ())
                  (\<lambda>_. return_act userId)
           else return_act (- 1))))
      else return_act (- 1))))"

definition log_in ::
    "('j, 'm, 'i, 'f, 'w) chat_env \<Rightarrow> http_request \<Rightarrow> int \<Rightarrow> bytes \<Rightarrow> ('m, 'w, unit) turn_action" where
  \<comment> \<open>the branch \<open>userId != -1\<close>\<close>
  "log_in E req userId username =
     (let J = ce_json E in
      bind_act (get_session req) (\<lambda>session.
      bind_act (set_session_value session ''userId'' (int_to_dec userId)) (\<lambda>_.
      bind_act (set_session_value session ''username'' username) (\<lambda>_.
      bind_act (set_session_value session ''isLoggedIn'' ''true'') (\<lambda>_.
      with_server (\<lambda>s.
        if ct_onlineUsers s userId = None \<or> ct_onlineUsers s userId = Some False
        then bind_act (modify_server (\<lambda>s. s\<lparr>ct_onlineUsers := (ct_onlineUsers s)(userId \<mapsto> True)\<rparr>)) (\<lambda>_.
             json_reply J req k200Ok ''OK'' False
               [(''success'', js_bool J True), (''userId'', js_int J userId)])
        else json_reply J req k403Forbidden ''Forbidden'' True
               [(''success'', js_bool J False),
                (''error'', js_string J ''Account already logged in elsewhere'')]))))))"

definition ChatLoginHandler ::
    "('j, 'm, 'i, 'f, 'w) chat_env \<Rightarrow> http_request \<Rightarrow> ('m, 'w, unit) turn_action" where
  "ChatLoginHandler E req =
     (let J = ce_json E in
      if not_json_request req then bad_request req
      else catch_act
        (bind_act (lift_out (js_parse J (req_content req))) (\<lambda>parsed.
         bind_act (lift_out (string_field J ''username'' parsed)) (\<lambda>username.
         bind_act (lift_out (string_field J ''password'' parsed)) (\<lambda>password.
         bind_act (outside (queryUserId E username password)) (\<lambda>userId.
         if userId \<noteq> - 1 then log_in E req userId username
         else json_reply J req k401Unauthorized ''Unauthorized'' False
                (failure_members J ''Invalid username or password''))))))
        (error_reply J req))"

subsection \<open>ChatLogoutHandler\<close>

definition session_id_of :: "addr \<Rightarrow> ('m, 'w, bytes) turn_action" where
  "session_id_of a = with_server (\<lambda>s. return_act (ses_id (sw_heap (ct_sessions s) a)))"

definition ChatLogoutHandler ::
    "('j, 'm, 'i, 'f, 'w) chat_env \<Rightarrow> http_request \<Rightarrow> ('m, 'w, unit) turn_action" where
  "ChatLogoutHandler E req =
     (let J = ce_json E in
      if not_json_request req then bad_request req
      else catch_act
        (bind_act (get_session req) (\<lambda>session.
         bind_act (session_user session) (\<lambda>userId.
         bind_act (on_sessions (clear_session session)) (\<lambda>_.
         bind_act (session_id_of session) (\<lambda>sid.
         bind_act (on_sessions (destroySession memory_storage sid)) (\<lambda>_.
         bind_act (lift_out (js_parse J (req_content req))) (\<lambda>parsed.
         bind_act (modify_server (\<lambda>s. s\<lparr>ct_onlineUsers := (ct_onlineUsers s)(userId := None)\<rparr>)) (\<lambda>_.
         json_reply J req k200Ok ''OK'' True
           [(''message'', js_string J ''logout successful'')]))))))))
        (error_reply J req))"

subsection \<open>ChatRegisterHandler\<close>

definition isUserExist :: "'w mysql_ops \<Rightarrow> bytes \<Rightarrow> (bytes, 'w, bool) action" where
  "isUserExist M username =
     bind_act (my_query M ''SELECT id FROM users WHERE username = ?'' [PString username]) (next_row M)"

definition insertUser ::
    "('j, 'm, 'i, 'f, 'w) chat_env \<Rightarrow> bytes \<Rightarrow> bytes \<Rightarrow> (bytes, 'w, int) action" where
  "insertUser E username password =
     (let M = ce_mysql E in
      bind_act (isUserExist M username) (\<lambda>exists.
      if \<not> exists
      then bind_act (hashPassword (ce_crypto E) password) (\<lambda>passwordHash.
           bind_act (my_update M ''INSERT INTO users (username, password) VALUES (?, ?)''
             [PString username, PString passwordHash]) (\<lambda>_.
           bind_act (my_query M ''SELECT id FROM users WHERE username = ?'' [PString username]) (\<lambda>res.
           bind_act (next_row M res) (\<lambda>found.
           if found then row_getInt (my_rows M) res ''id'' else return_act (- 1)))))
      else return_act (- 1)))"

definition ChatRegisterHandler ::
    "('j, 'm, 'i, 'f, 'w) chat_env \<Rightarrow> http_request \<Rightarrow> ('m, 'w, unit) turn_action" where
  \<comment> \<open>no \<open>try\<close>: its exceptions leave it\<close>
  "ChatRegisterHandler E req =
     (let J = ce_json E in
      bind_act (lift_out (js_parse J (req_content req))) (\<lambda>parsed.
      bind_act (lift_out (string_field J ''username'' parsed)) (\<lambda>username.
      bind_act (lift_out (string_field J ''password'' parsed)) (\<lambda>password.
      bind_act (outside (insertUser E username password)) (\<lambda>userId.
      if userId \<noteq> - 1
      then json_reply J req k200Ok ''OK'' False
             [(''status'', js_string J ''success''), (''message'', js_string J ''Register successful''),
              (''userId'', js_int J userId)]
      else json_reply J req k409Conflict ''Conflict'' False
             (failure_members J ''username already exists''))))))"

subsection \<open>ChatSendHandler and ChatCreateAndSendHandler\<close>

definition model_type :: "'j json_ops \<Rightarrow> 'j \<Rightarrow> (bytes, bytes) outcome" where
  "model_type J j =
     (if js_contains J ''modelType'' j
      then bind_out (js_at J ''modelType'' j) (\<lambda>mt.
             if js_is_string J mt then js_get_string J mt
             else if js_is_integer J mt then Ok (int_to_dec (int32 (js_get_int J mt)))
             else if js_is_unsigned J mt then Ok (nat_to_dec (js_get_unsigned J mt mod 2 ^ 32))
             else Ok ''1'')
      else Ok ''1'')"

definition parse_body :: "'j json_ops \<Rightarrow> bytes \<Rightarrow> 'a \<Rightarrow> ('j \<Rightarrow> (bytes, 'a) outcome) \<Rightarrow> (bytes, 'a) outcome" where
  \<comment> \<open>\<open>if (!body.empty()) { auto j = json::parse(body); ... }\<close>\<close>
  "parse_body J body defaults f = (if body = [] then Ok defaults else bind_out (js_parse J body) f)"

definition send_fields :: "'j json_ops \<Rightarrow> 'j \<Rightarrow> (bytes, bytes \<times> bytes \<times> bytes) outcome" where
  "send_fields J j =
     bind_out (optional_field J ''question'' j []) (\<lambda>userQuestion.
     bind_out (optional_field J ''sessionId'' j []) (\<lambda>sessionId.
     bind_out (model_type J j) (\<lambda>modelType. Ok (userQuestion, sessionId, modelType))))"

definition send_message ::
    "('j, 'm, 'i, 'f, 'w) chat_env \<Rightarrow> http_request \<Rightarrow> addr \<Rightarrow> int \<Rightarrow> ('m, 'w, unit) turn_action" where
  \<comment> \<open>from \<open>userId\<close> on\<close>
  "send_message E req session userId =
     (let J = ce_json E in
        bind_act (session_value session ''username'') (\<lambda>username.
        bind_act (lift_out (parse_body J (req_content req) ([], [], ''1'') (send_fields J)))
          (\<lambda>(userQuestion, sessionId, modelType).
        bind_act (modify_server (ensure_helper userId sessionId)) (\<lambda>_.
        bind_act (on_helper userId sessionId
                    (chat J (ce_web E) userId username sessionId userQuestion modelType)) (\<lambda>aiInformation.
        json_reply J req k200Ok ''OK'' False
          [(''success'', js_bool J True), (''Information'', js_string J aiInformation)])))))"

definition ChatSendHandler ::
    "('j, 'm, 'i, 'f, 'w) chat_env \<Rightarrow> http_request \<Rightarrow> ('m, 'w, unit) turn_action" where
  "ChatSendHandler E req =
     logged_in (ce_json E) req (\<lambda>session. bind_act (session_user session) (send_message E req session))"

definition create_fields :: "'j json_ops \<Rightarrow> 'j \<Rightarrow> (bytes, bytes \<times> bytes) outcome" where
  "create_fields J j =
     bind_out (optional_field J ''question'' j []) (\<lambda>userQuestion.
     bind_out (model_type J j) (\<lambda>modelType. Ok (userQuestion, modelType)))"

definition list_session :: "int \<Rightarrow> bytes \<Rightarrow> ('m, 'w) chat_server \<Rightarrow> ('m, 'w) chat_server" where
  \<comment> \<open>a conversation that is new is also listed\<close>
  "list_session userId sid s =
     (if ct_chatInformation s userId sid = None
      then (ensure_helper userId sid s)
             \<lparr>ct_sessionsIds := (ct_sessionsIds s)(userId := ct_sessionsIds s userId @ [sid])\<rparr>
      else s)"

definition create_and_send ::
    "('j, 'm, 'i, 'f, 'w) chat_env \<Rightarrow> http_request \<Rightarrow> addr \<Rightarrow> int \<Rightarrow> ('m, 'w, unit) turn_action" where
  "create_and_send E req session userId =
     (let J = ce_json E in
        bind_act (session_value session ''username'') (\<lambda>username.
        bind_act (lift_out (parse_body J (req_content req) ([], ''1'') (create_fields J)))
          (\<lambda>(userQuestion, modelType).
        bind_act (outside (generate (ce_web E))) (\<lambda>sessionId.
        bind_act (modify_server (list_session userId sessionId)) (\<lambda>_.
        bind_act (on_helper userId sessionId
                    (chat J (ce_web E) userId username sessionId userQuestion modelType)) (\<lambda>aiInformation.
        json_reply J req k200Ok ''OK'' False
          [(''success'', js_bool J True), (''Information'', js_string J aiInformation),
           (''sessionId'', js_string J sessionId)]))))))"

definition ChatCreateAndSendHandler ::
    "('j, 'm, 'i, 'f, 'w) chat_env \<Rightarrow> http_request \<Rightarrow> ('m, 'w, unit) turn_action" where
  "ChatCreateAndSendHandler E req =
     logged_in (ce_json E) req (\<lambda>session. bind_act (session_user session) (create_and_send E req session))"

subsection \<open>ChatHistoryHandler and ChatSessionsHandler\<close>

definition history_array :: "'j json_ops \<Rightarrow> message list \<Rightarrow> 'j" where
  "history_array J messages =
     js_array J (map (\<lambda>(i, m). js_object J [(''is_user'', js_bool J (i mod 2 = 0)),
                                           (''content'', js_string J (fst m))])
                     (enumerate 0 messages))"

definition helper_messages :: "int \<Rightarrow> bytes \<Rightarrow> ('m, 'w) chat_server \<Rightarrow> message list" where
  "helper_messages userId sid s =
     (case ct_chatInformation s userId sid of None \<Rightarrow> [] | Some h \<Rightarrow> GetMessages h)"

definition show_history ::
    "('j, 'm, 'i, 'f, 'w) chat_env \<Rightarrow> http_request \<Rightarrow> addr \<Rightarrow> int \<Rightarrow> ('m, 'w, unit) turn_action" where
  "show_history E req session userId =
     (let J = ce_json E in
        bind_act (session_value session ''username'') (\<lambda>username.
        bind_act (lift_out (parse_body J (req_content req) [] (\<lambda>j. optional_field J ''sessionId'' j [])))
          (\<lambda>sessionId.
        bind_act (modify_server (ensure_helper userId sessionId)) (\<lambda>_.
        with_server (\<lambda>s.
        json_reply J req k200Ok ''OK'' False
          [(''success'', js_bool J True),
           (''history'', history_array J (helper_messages userId sessionId s))])))))"

definition ChatHistoryHandler ::
    "('j, 'm, 'i, 'f, 'w) chat_env \<Rightarrow> http_request \<Rightarrow> ('m, 'w, unit) turn_action" where
  "ChatHistoryHandler E req =
     logged_in (ce_json E) req (\<lambda>session. bind_act (session_user session) (show_history E req session))"

definition session_name :: "bytes \<Rightarrow> bytes" where
  "session_name sid = map char_of [0xE1, 0xBB, 0xB0, 0x20 :: nat] @ sid"

definition ChatSessionsHandler ::
    "('j, 'm, 'i, 'f, 'w) chat_env \<Rightarrow> http_request \<Rightarrow> ('m, 'w, unit) turn_action" where
  "ChatSessionsHandler E req =
     (let J = ce_json E in
      logged_in J req (\<lambda>session.
        bind_act (session_user session) (\<lambda>userId.
        bind_act (session_value session ''username'') (\<lambda>username.
        with_server (\<lambda>s.
        json_reply J req k200Ok ''OK'' False
          [(''success'', js_bool J True),
           (''sessions'', js_array J (map (\<lambda>sid. js_object J
              [(''sessionId'', js_string J sid), (''name'', js_string J (session_name sid))])
              (ct_sessionsIds s userId)))])))))"

subsection \<open>Pages\<close>

definition page_script :: "int \<Rightarrow> bytes" where
  "page_script userId =
     ''<script>const userId = '' @ [CHR 0x27] @ int_to_dec userId @ [CHR 0x27] @ '';</script>''"

definition insert_script :: "int \<Rightarrow> bytes \<Rightarrow> bytes" where
  "insert_script userId htmlContent =
     (case str_find ''</head>'' htmlContent of
        None \<Rightarrow> htmlContent
      | Some headEnd \<Rightarrow> take headEnd htmlContent @ page_script userId @ drop headEnd htmlContent)"

definition page_handler ::
    "bytes \<Rightarrow> ('j, 'm, 'i, 'f, 'w) chat_env \<Rightarrow> http_request \<Rightarrow> ('m, 'w, unit) turn_action" where
  \<comment> \<open>the text three handlers share, for the file they send\<close>
  "page_handler reqFile E req =
     logged_in (ce_json E) req (\<lambda>session.
       bind_act (session_user session) (\<lambda>userId.
       bind_act (session_value session ''username'') (\<lambda>username.
       bind_act (outside (read_page (ce_web E) reqFile)) (\<lambda>htmlContent.
       reply req k200Ok ''OK'' False ''text/html'' (insert_script userId htmlContent)))))"

definition ChatHandler ::
    "('j, 'm, 'i, 'f, 'w) chat_env \<Rightarrow> http_request \<Rightarrow> ('m, 'w, unit) turn_action" where
  "ChatHandler = page_handler ''../AIApps/ChatServer/resource/AI.html''"

definition AIMenuHandler ::
    "('j, 'm, 'i, 'f, 'w) chat_env \<Rightarrow> http_request \<Rightarrow> ('m, 'w, unit) turn_action" where
  "AIMenuHandler = page_handler ''../AIApps/ChatServer/resource/menu.html''"

definition AIUploadHandler ::
    "('j, 'm, 'i, 'f, 'w) chat_env \<Rightarrow> http_request \<Rightarrow> ('m, 'w, unit) turn_action" where
  "AIUploadHandler = page_handler ''../AIApps/ChatServer/resource/upload.html''"

definition ChatEntryHandler ::
    "('j, 'm, 'i, 'f, 'w) chat_env \<Rightarrow> http_request \<Rightarrow> ('m, 'w, unit) turn_action" where
  "ChatEntryHandler E req =
     bind_act (outside (read_page (ce_web E) ''../AIApps/ChatServer/resource/entry.html'')) (\<lambda>bufStr.
     reply req k200Ok ''OK'' False ''text/html'' bufStr)"

subsection \<open>AIUploadSendHandler\<close>

definition model_file :: bytes where
  "model_file = ''/root/models/mobilenetv2/mobilenetv2-7.onnx''"

definition label_file :: bytes where
  "label_file = ''/root/imagenet_classes.txt''"

definition user_recognizer ::
    "('j, 'm, 'i, 'f, 'w) chat_env \<Rightarrow> int \<Rightarrow> ('m, 'w, 'm recognizer) turn_action" where
  \<comment> \<open>the user's recogniser, constructed at the first request\<close>
  "user_recognizer E userId =
     with_server (\<lambda>s.
       case ct_imageRecognizers s userId of
         Some ir \<Rightarrow> return_act ir
       | None \<Rightarrow>
           bind_act (outside (ImageRecognizer (ce_images E) (ce_web E) model_file label_file)) (\<lambda>ir.
           bind_act (modify_server (\<lambda>s.
               s\<lparr>ct_imageRecognizers := (ct_imageRecognizers s)(userId \<mapsto> ir)\<rparr>)) (\<lambda>_.
           return_act ir)))"

definition upload_fields :: "'j json_ops \<Rightarrow> 'j \<Rightarrow> (bytes, bytes \<times> bytes) outcome" where
  "upload_fields J j =
     bind_out (optional_field J ''filename'' j []) (\<lambda>filename.
     bind_out (optional_field J ''image'' j []) (\<lambda>imageBase64. Ok (filename, imageBase64)))"

definition recognize_upload ::
    "('j, 'm, 'i, 'f, 'w) chat_env \<Rightarrow> http_request \<Rightarrow> int \<Rightarrow> ('m, 'w, unit) turn_action" where
  "recognize_upload E req userId =
     (let J = ce_json E in
        bind_act (user_recognizer E userId) (\<lambda>ir.
        bind_act (lift_out (parse_body J (req_content req) ([], []) (upload_fields J)))
          (\<lambda>(filename, imageBase64).
        if imageBase64 = [] then throw_act ''No image data provided''
        else bind_act (lift_out (base64_decode imageBase64 False)) (\<lambda>imgData.
             bind_act (outside (PredictFromBuffer (ce_images E) ir imgData)) (\<lambda>className.
             json_reply J req k200Ok ''OK'' False
               [(''success'', js_string J ''ok''), (''filename'', js_string J filename),
                (''class_name'', js_string J className), (''confidence'', js_double J ''0.95'')])))))"

definition AIUploadSendHandler ::
    "('j, 'm, 'i, 'f, 'w) chat_env \<Rightarrow> http_request \<Rightarrow> ('m, 'w, unit) turn_action" where
  "AIUploadSendHandler E req =
     logged_in (ce_json E) req (\<lambda>session. bind_act (session_user session) (recognize_upload E req))"

subsection \<open>ChatSpeechHandler\<close>

definition speak ::
    "('j, 'm, 'i, 'f, 'w) chat_env \<Rightarrow> http_request \<Rightarrow> bytes \<Rightarrow> ('m, 'w, unit) turn_action" where
  \<comment> \<open>from the two \<open>getenv\<close> on\<close>
  "speak E req txt =
     (let J = ce_json E; W = ce_web E
      in case wb_env W ''BAIDU_CLIENT_SECRET'' of
           None \<Rightarrow> throw_act ''BAIDU_CLIENT_SECRET not found!''
         | Some clientSecret \<Rightarrow>
             (case wb_env W ''BAIDU_CLIENT_ID'' of
                None \<Rightarrow> throw_act ''BAIDU_CLIENT_ID not found!''
              | Some clientId \<Rightarrow>
                  bind_act (outside (AISpeechProcessor J W clientId clientSecret default_cuid)) (\<lambda>sp.
                  bind_act (outside (synthesize J W sp txt ''mp3-16k'' ''zh'' 5 5 5)) (\<lambda>speechUrl.
                  json_reply J req k200Ok ''OK'' False
                    [(''success'', js_bool J True), (''url'', js_string J speechUrl)]))))"

definition ChatSpeechHandler ::
    "('j, 'm, 'i, 'f, 'w) chat_env \<Rightarrow> http_request \<Rightarrow> ('m, 'w, unit) turn_action" where
  "ChatSpeechHandler E req =
     (let J = ce_json E in
      logged_in J req (\<lambda>session.
        bind_act (session_user session) (\<lambda>userId.
        bind_act (session_value session ''username'') (\<lambda>username.
        bind_act (lift_out (parse_body J (req_content req) [] (\<lambda>j. optional_field J ''text'' j [])))
          (speak E req)))))"

end
