(* ===== verification/Chat_Routes.thy ===== *)
theory Chat_Routes
  imports Chat_Handlers Http_Server Session_Contract
begin

section \<open>The application on the server\<close>

text \<open>
  \<open>ChatServer::ChatServer\<close>, \<open>initialize\<close>, \<open>initializeSession\<close>, \<open>initializeMiddleware\<close> and
  \<open>initializeRouter\<close>: the HTTP server object with the handlers and the CORS middleware.  The
  constructor passes its \<open>TcpServer::Option\<close> on as the \<open>useSSL\<close> of \<open>HttpServer\<close>, where it is
  converted to \<open>bool\<close>: true for \<open>kReusePort\<close>.
\<close>

type_synonym ('j, 'm, 'i, 'f, 'w) page = "('j, 'm, 'i, 'f, 'w) chat_env \<Rightarrow> http_request \<Rightarrow> ('m, 'w, unit) turn_action"

definition chat_routes :: "(http_method \<times> bytes \<times> ('j, 'm, 'i, 'f, 'w) page) list" where
  "chat_routes =
     [(kGet, ''/'', ChatEntryHandler), (kGet, ''/entry'', ChatEntryHandler),
      (kPost, ''/login'', ChatLoginHandler), (kPost, ''/register'', ChatRegisterHandler),
      (kPost, ''/user/logout'', ChatLogoutHandler), (kGet, ''/chat'', ChatHandler),
      (kPost, ''/chat/send'', ChatSendHandler), (kGet, ''/menu'', AIMenuHandler),
      (kGet, ''/upload'', AIUploadHandler), (kPost, ''/upload/send'', AIUploadSendHandler),
      (kPost, ''/chat/history'', ChatHistoryHandler),
      (kPost, ''/chat/send-new-session'', ChatCreateAndSendHandler),
      (kGet, ''/chat/sessions'', ChatSessionsHandler), (kPost, ''/chat/tts'', ChatSpeechHandler)]"

type_synonym ('b, 't, 'm, 'w) app_server = "('b, 't, ('m, 'w) chat_server) server"

definition add_route ::
    "('j, 'm, 'i, 'f, 'w) chat_env \<Rightarrow> http_method \<times> bytes \<times> ('j, 'm, 'i, 'f, 'w) page \<Rightarrow>
      ('b, 't, 'm, 'w) app_server \<Rightarrow> ('b, 't, 'm, 'w) app_server" where
  \<comment> \<open>\<open>httpServer_.Get(path, handler)\<close> and \<open>Post\<close>\<close>
  "add_route E r srv =
     (let (m, path, h) = r
      in if m = kGet then Get_handler path (Some (as_handler (h E))) srv
         else Post_handler path (Some (as_handler (h E))) srv)"

definition initializeRouter ::
    "('j, 'm, 'i, 'f, 'w) chat_env \<Rightarrow> ('b, 't, 'm, 'w) app_server \<Rightarrow> ('b, 't, 'm, 'w) app_server" where
  "initializeRouter E srv = fold (add_route E) chat_routes srv"

definition initializeMiddleware :: "('b, 't, 'm, 'w) app_server \<Rightarrow> ('b, 't, 'm, 'w) app_server" where
  "initializeMiddleware srv =
     addMiddleware_server
       (Some (cors_middleware defaultConfig ct_origin (\<lambda>origin s. s\<lparr>ct_origin := origin\<rparr>))) srv"

definition initializeSession :: "('m, 'w) chat_server \<Rightarrow> ('m, 'w) chat_server" where
  \<comment> \<open>a new \<open>SessionManager\<close> over an empty \<open>MemorySessionStorage\<close>\<close>
  "initializeSession s = s\<lparr>ct_sessions := (ct_sessions s)\<lparr>sw_store := []\<rparr>\<rparr>"

definition ChatServer ::
    "'b buffer_ops \<Rightarrow> 't tls_ops \<Rightarrow> regex_engine \<Rightarrow> ('j, 'm, 'i, 'f, 'w) chat_env \<Rightarrow> bool \<Rightarrow>
      ('b, 't, 'm, 'w) app_server" where
  \<comment> \<open>the last argument: the option is \<open>kReusePort\<close>\<close>
  "ChatServer B T X E reusePort =
     initializeRouter E (initializeMiddleware (HttpServer B T X reusePort))"

subsection \<open>Every route leads to its handler\<close>

lemma handlers_add_route:
  "rt_handlers (sv_router (add_route E (m, path, h) srv)) =
     (rt_handlers (sv_router srv))((if m = kGet then kGet else kPost, path) \<mapsto> Some (as_handler (h E)))"
  by (simp add: add_route_def Get_handler_def Post_handler_def registerHandler_def)

lemma add_route_frame [simp]:
  "sv_regex (add_route E r srv) = sv_regex srv"
  "sv_middlewareChain (add_route E r srv) = sv_middlewareChain srv"
  "sv_httpCallback (add_route E r srv) = sv_httpCallback srv"
  by (auto simp: add_route_def Get_handler_def Post_handler_def split: prod.split)

lemma fold_add_route_frame [simp]:
  "sv_middlewareChain (fold (add_route E) rs srv) = sv_middlewareChain srv"
  "sv_httpCallback (fold (add_route E) rs srv) = sv_httpCallback srv"
  by (induction rs arbitrary: srv) simp_all

definition route_key_of :: "http_method \<times> bytes \<times> 'h \<Rightarrow> http_method \<times> bytes" where
  "route_key_of r = (fst r, fst (snd r))"

lemma handlers_fold_other:
  assumes "k \<notin> route_key_of ` set rs" and "\<forall>r\<in>set rs. fst r \<in> {kGet, kPost}"
  shows "rt_handlers (sv_router (fold (add_route E) rs srv)) k = rt_handlers (sv_router srv) k"
  using assms
proof (induction rs arbitrary: srv)
  case (Cons r rs)
  obtain m p h where r: "r = (m, p, h)" by (metis surj_pair)
  then have "k \<noteq> (m, p)" "m = kGet \<or> m = kPost" using Cons.prems by (auto simp: route_key_of_def)
  then have "rt_handlers (sv_router (add_route E r srv)) k = rt_handlers (sv_router srv) k"
    by (auto simp: r handlers_add_route)
  with Cons show ?case by simp
qed simp

lemma handlers_fold:
  assumes "distinct (map route_key_of rs)" and "\<forall>r\<in>set rs. fst r \<in> {kGet, kPost}"
    and "(m, path, h) \<in> set rs"
  shows "rt_handlers (sv_router (fold (add_route E) rs srv)) (m, path) = Some (Some (as_handler (h E)))"
  using assms
proof (induction rs arbitrary: srv)
  case (Cons r rs)
  show ?case
  proof (cases "r = (m, path, h)")
    case True
    with Cons.prems have "(m, path) \<notin> route_key_of ` set rs" "m = kGet \<or> m = kPost"
      by (auto simp: route_key_of_def)
    with Cons.prems True show ?thesis
      by (auto simp: handlers_fold_other handlers_add_route)
  next
    case False
    with Cons show ?thesis by simp
  qed
qed simp

lemma chat_routes_keys:
  "distinct (map route_key_of chat_routes)" "\<forall>r\<in>set chat_routes. fst r \<in> {kGet, kPost}"
  by (simp_all add: chat_routes_def route_key_of_def)

lemma chat_route:
  assumes "(m, path, h) \<in> set chat_routes"
  shows "rt_handlers (sv_router (ChatServer B T X E reusePort)) (m, path) = Some (Some (as_handler (h E)))"
  unfolding ChatServer_def initializeRouter_def
  by (rule handlers_fold [OF chat_routes_keys assms])

lemma chat_server_frame:
  "sv_middlewareChain (ChatServer B T X E reusePort) =
     [Some (cors_middleware defaultConfig ct_origin (\<lambda>origin s. s\<lparr>ct_origin := origin\<rparr>))]"
  "sv_httpCallback (ChatServer B T X E reusePort) = None"
  by (simp_all add: ChatServer_def initializeRouter_def initializeMiddleware_def
      addMiddleware_server_def addMiddleware_def HttpServer_def)

text \<open>What the client gets: the response of the handler with the CORS headers, a 500 when it throws.\<close>

definition cors_response :: "bytes \<Rightarrow> http_response \<Rightarrow> http_response" where
  "cors_response origin resp =
     (let allowOrigin = resolveAllowOrigin defaultConfig origin
      in if allowOrigin = [] then resp else with_origin_headers defaultConfig allowOrigin resp)"

lemma cors_response_same [simp]:
  "res_statusCode (cors_response origin resp) = res_statusCode resp"
  "res_body (cors_response origin resp) = res_body resp"
  "res_closeConnection (cors_response origin resp) = res_closeConnection resp"
  by (simp_all add: cors_response_def with_origin_headers_def addCorsHeaders_def addHeader_def Let_def)

lemma handle_route:
  assumes "(m, path, h) \<in> set chat_routes" and "req_method req = m" and "req_path req = path"
    and "m \<noteq> kOptions"
    and run: "h E req (resp, s\<lparr>ct_origin := getHeader ''Origin'' req\<rparr>) = (r, (resp', s'))"
    and origin: "ct_origin s' = getHeader ''Origin'' req"
  shows "handleRequest (ChatServer B T X E reusePort) req resp s =
    (case r of
       Ok u \<Rightarrow> (Ok (), cors_response (getHeader ''Origin'' req) resp', s')
     | Throw e \<Rightarrow> (Ok (), internal_error resp', s')
     | Crash x \<Rightarrow> (Crash x, resp', s'))"
proof -
  have "route X' (sv_router (ChatServer B T X E reusePort)) req resp s1 =
      then_true (as_handler (h E) req resp s1)" for X' s1
    using chat_route [OF assms(1), of B T X E reusePort] assms(2,3)
    by (simp add: route_def call_handler_def)
  then show ?thesis
    using run origin assms(2,4)
    by (cases r) (simp_all add: handleRequest_def run_request_def chat_server_frame cors_middleware_def
        cors_before_def cors_after_def as_handler_def then_true_def processAfter_def catch_request_def
        cors_response_def Let_def)
qed

end
