(* ===== verification/Silent_Calls.thy ===== *)
theory Silent_Calls
  imports Chat_Handlers
begin

section \<open>Calls that publish nothing\<close>

text \<open>
  \<open>log\<close> is what the world remembers of the program's publications (or any other view of it).  An
  action is silent when it leaves \<open>log\<close> alone, whatever it returns.  \<open>silent_env\<close> says so of all that
  the application calls outside except the publishing itself; the functions of the program that only
  make such calls are then silent.
\<close>

definition silent :: "('w \<Rightarrow> 'l) \<Rightarrow> ('e, 'w, 'a) action \<Rightarrow> bool" where
  "silent log m \<longleftrightarrow> (\<forall>w. log (snd (m w)) = log w)"

named_theorems silent_rules \<open>actions that leave the log alone\<close>

lemma silentD: "silent log m \<Longrightarrow> m w = (r, w') \<Longrightarrow> log w' = log w"
  unfolding silent_def by (metis snd_conv)

lemma silent_return [silent_rules]: "silent log (return_act a)"
  by (simp add: silent_def return_act_def)

lemma silent_throw [silent_rules]: "silent log (throw_act e)"
  by (simp add: silent_def throw_act_def)

lemma silent_lift [silent_rules]: "silent log (lift_out r)"
  by (simp add: silent_def lift_out_def)

lemma silent_bind [silent_rules]:
  "silent log m \<Longrightarrow> (\<And>a. silent log (f a)) \<Longrightarrow> silent log (bind_act m f)"
  by (simp add: silent_def bind_act_def split: prod.split outcome.split) (metis snd_conv)

lemma silent_catch [silent_rules]:
  "silent log m \<Longrightarrow> (\<And>e. silent log (h e)) \<Longrightarrow> silent log (catch_act m h)"
  by (simp add: silent_def catch_act_def split: prod.split outcome.split) (metis snd_conv)

lemma silent_if [silent_rules]: "silent log a \<Longrightarrow> silent log b \<Longrightarrow> silent log (if c then a else b)"
  by simp

lemma silent_option [silent_rules]:
  "silent log a \<Longrightarrow> (\<And>y. silent log (f y)) \<Longrightarrow> silent log (case x of None \<Rightarrow> a | Some y \<Rightarrow> f y)"
  by (cases x) simp_all

lemma silent_pair [silent_rules]:
  "(\<And>a b. silent log (f a b)) \<Longrightarrow> silent log (case p of (a, b) \<Rightarrow> f a b)"
  by (cases p) simp

lemma silent_let [silent_rules]: "(\<And>x. silent log (f x)) \<Longrightarrow> silent log (let x = v in f x)"
  by simp

subsection \<open>The environment\<close>

definition silent_web :: "('w \<Rightarrow> 'l) \<Rightarrow> 'w web_ops \<Rightarrow> bool" where
  \<comment> \<open>of everything but \<open>wb_publish\<close>\<close>
  "silent_web log W \<longleftrightarrow>
     (\<forall>w. log (snd (wb_now_ms W w)) = log w \<and> log (snd (wb_now_ns W w)) = log w \<and>
          log (wb_srand_time W w) = log w \<and> log (snd (wb_rand W w)) = log w \<and>
          log (snd (wb_localtime W w)) = log w \<and> (\<forall>n. log (wb_sleep W n w) = log w) \<and>
          (\<forall>p. log (snd (wb_file W p w)) = log w) \<and> log (snd (wb_curl_init W w)) = log w \<and>
          log (snd (wb_channel W w)) = log w \<and> (\<forall>c. log (snd (wb_perform W c w)) = log w))"

definition account_statements :: "bytes set" where
  \<comment> \<open>the statements of the handlers; those of the conversations are executed by the workers\<close>
  "account_statements =
     {''SELECT id, password FROM users WHERE username = ?'', ''UPDATE users SET password = ? WHERE id = ?'',
      ''SELECT id FROM users WHERE username = ?'', ''INSERT INTO users (username, password) VALUES (?, ?)''}"

definition silent_mysql :: "('w \<Rightarrow> 'l) \<Rightarrow> 'w mysql_ops \<Rightarrow> bool" where
  "silent_mysql log M \<longleftrightarrow>
     (\<forall>sql\<in>account_statements. \<forall>args. silent log (my_query M sql args) \<and> silent log (my_update M sql args)) \<and>
     (\<forall>h. silent log (row_next (my_rows M) h)) \<and>
     (\<forall>h c. silent log (row_getString (my_rows M) h c) \<and> silent log (row_getInt (my_rows M) h c) \<and>
            silent log (row_getInt64 (my_rows M) h c))"

definition silent_images :: "('w \<Rightarrow> 'l) \<Rightarrow> ('m, 'i, 'f, 'w) image_ops \<Rightarrow> bool" where
  "silent_images log I \<longleftrightarrow>
     (\<forall>p. silent log (im_session I p)) \<and> (\<forall>p. silent log (im_imread I p)) \<and>
     (\<forall>d. silent log (im_imdecode I d)) \<and> (\<forall>m i. silent log (im_infer I m i))"

definition silent_env :: "('w \<Rightarrow> 'l) \<Rightarrow> ('j, 'm, 'i, 'f, 'w) chat_env \<Rightarrow> bool" where
  "silent_env log E \<longleftrightarrow> silent_web log (ce_web E) \<and> silent_mysql log (ce_mysql E) \<and>
     (\<forall>n w. log (snd (cr_RAND_bytes (ce_crypto E) n w)) = log w) \<and> silent_images log (ce_images E)"

lemma silent_env_unit [simp]: "silent_env (\<lambda>_. ()) E"
  by (simp add: silent_env_def silent_web_def silent_mysql_def silent_images_def silent_def)

lemma silent_envD:
  assumes "silent_env log E"
  shows "silent_web log (ce_web E)" "silent_mysql log (ce_mysql E)" "silent_images log (ce_images E)"
    "log (snd (cr_RAND_bytes (ce_crypto E) n w)) = log w"
  using assms by (simp_all add: silent_env_def)

lemma silent_webD:
  assumes "silent_web log W"
  shows "log (snd (wb_now_ms W w)) = log w" "log (snd (wb_now_ns W w)) = log w"
    "log (wb_srand_time W w) = log w" "log (snd (wb_rand W w)) = log w"
    "log (snd (wb_localtime W w)) = log w" "log (wb_sleep W n w) = log w"
    "log (snd (wb_file W p w)) = log w" "log (snd (wb_curl_init W w)) = log w"
    "log (snd (wb_perform W c w)) = log w" "log (snd (wb_channel W w)) = log w"
  using assms by (simp_all add: silent_web_def)

lemma silent_perform: "silent_web log W \<Longrightarrow> silent log (wb_perform W c)"
  by (simp add: silent_def silent_webD)

lemma silent_reading:
  assumes "silent_web log W"
  shows "silent log (\<lambda>w. let (x, w1) = wb_now_ms W w in (Ok x, w1))"
    "silent log (\<lambda>w. let (x, w1) = wb_curl_init W w in (Ok x, w1))"
    "silent log (\<lambda>w. let (x, w1) = wb_file W p w in (Ok x, w1))"
  using silent_webD [OF assms] by (auto simp: silent_def split: prod.split)
    (metis snd_conv)+

lemma silent_mysqlD:
  assumes "silent_mysql log M"
  shows "sql \<in> account_statements \<Longrightarrow> silent log (my_query M sql args)"
    "sql \<in> account_statements \<Longrightarrow> silent log (my_update M sql args)"
    "silent log (row_next (my_rows M) h)" "silent log (row_getString (my_rows M) h c)"
    "silent log (row_getInt (my_rows M) h c)" "silent log (row_getInt64 (my_rows M) h c)"
  using assms by (simp_all add: silent_mysql_def)

lemma silent_imagesD:
  assumes "silent_images log I"
  shows "silent log (im_session I p)" "silent log (im_imread I p)" "silent log (im_imdecode I d)"
    "silent log (im_infer I m i)"
  using assms by (simp_all add: silent_images_def)

subsection \<open>The program's own calls\<close>

lemma silent_curl_call: "silent_web log W \<Longrightarrow> silent log (curl_call W c)"
  unfolding silent_def curl_call_def
  by (auto split: prod.split outcome.split bool.split) (metis silent_webD(8,9) snd_conv)+

lemma silent_generate: "silent_web log W \<Longrightarrow> silent log (generate W)"
  unfolding silent_def generate_def
  by (auto split: prod.split) (metis silent_webD(2,3,4) snd_conv)

lemma silent_post_json:
  assumes "silent_web log W"
  shows "silent log (post_json J W url body)"
proof -
  have "silent log (bind_act (lift_out (js_dump J body)) (\<lambda>data.
      catch_act (bind_act (wb_perform W (c data)) (\<lambda>text. return_act (Some (Some text))))
        (\<lambda>_. return_act (Some None))))" for c
    by (intro silent_rules silent_perform assms)
  with silent_webD(8) [OF assms] show ?thesis
    unfolding silent_def post_json_def by (auto split: prod.split bool.split) (metis snd_conv)+
qed

lemma silent_access_token: "silent_web log W \<Longrightarrow> silent log (getAccessToken J W i s)"
  unfolding getAccessToken_def by (intro silent_rules silent_curl_call)

lemma silent_processor: "silent_web log W \<Longrightarrow> silent log (AISpeechProcessor J W i s c)"
  unfolding AISpeechProcessor_def by (intro silent_rules silent_access_token)

lemma silent_poll:
  assumes "silent_web log W"
  shows "silent log (poll J W token query n)"
proof (induction n)
  case (Suc n)
  have "silent log (modify_act (wb_sleep W 1))"
    by (simp add: silent_def modify_act_def silent_webD [OF assms])
  then show ?case
    unfolding poll.simps by (intro silent_rules silent_post_json assms Suc.IH)
qed (simp add: silent_return)

lemma silent_synthesize: "silent_web log W \<Longrightarrow> silent log (synthesize J W sp txt f l s p v)"
  unfolding synthesize_def by (intro silent_rules silent_post_json silent_poll)

lemma silent_page:
  assumes "silent_web log W"
  shows "silent log (read_page W path)"
proof -
  have "silent log (FileUtil W path)" "silent log (resetDefaultFile W fu)" for fu
    using silent_webD(7) [OF assms] by (auto simp: silent_def FileUtil_def resetDefaultFile_def split: prod.split)
      (metis snd_conv)+
  then show ?thesis unfolding read_page_def by (intro silent_rules)
qed

lemma silent_recognizer:
  assumes "silent_web log W" and "silent_images log I"
  shows "silent log (ImageRecognizer I W m l)"
proof -
  have "silent log (LoadLabels W l)"
    using silent_webD(7) [OF assms(1), of l] by (auto simp: silent_def LoadLabels_def Let_def split: prod.split option.split)
      (metis snd_conv)+
  then show ?thesis
    unfolding ImageRecognizer_def by (intro silent_rules silent_imagesD [OF assms(2)])
qed

lemma silent_predict: "silent_images log I \<Longrightarrow> silent log (PredictFromBuffer I ir d)"
  unfolding PredictFromBuffer_def PredictFromMat_def by (intro silent_rules silent_imagesD)

lemma silent_hash:
  assumes "\<And>n w. log (snd (cr_RAND_bytes C n w)) = log w"
  shows "silent log (hashPassword C p)" "silent log (verifyPassword C p stored b)"
proof -
  show 1: "silent log (hashPassword C p)"
    using assms by (auto simp: silent_def hashPassword_def split: prod.split option.split) (metis snd_conv)+
  show "silent log (verifyPassword C p stored b)"
    unfolding verifyPassword_def by (intro silent_rules 1)
qed

lemma silent_next: "silent_mysql log M \<Longrightarrow> silent log (next_row M res)"
  by (simp add: next_row_def silent_mysqlD)

lemma silent_account:
  assumes "silent_env log E"
  shows "silent log (queryUserId E name password)" "silent log (insertUser E name password)"
  unfolding queryUserId_def insertUser_def isUserExist_def Let_def
  by (intro silent_rules silent_next silent_mysqlD silent_hash silent_envD assms;
      simp add: account_statements_def)+

end
