(* ===== verification/Chat_Contract.thy ===== *)
theory Chat_Contract
  imports Chat_Routes Silent_Calls
begin

section \<open>What the handlers keep of the shared state\<close>

text \<open>
  \<open>keeps P m\<close>: the action \<open>m\<close> keeps the property \<open>P\<close> of the server, also when it throws.  Four
  locales collect what a property has to allow: the calls that change neither sessions nor
  conversations nor the view \<open>log\<close> of the world (\<open>core_contract\<close>), the conversations of one user, which
  change as \<open>speak\<close> says (\<open>user_contract\<close>), and the session that belongs to the request
  (\<open>session_contract\<close>, \<open>login_contract\<close>); inside them the handlers keep it.  A property that does not
  look at the world is interpreted with the view that sees nothing.
\<close>

definition keeps :: "(('m, 'w) chat_server \<Rightarrow> bool) \<Rightarrow> ('m, 'w, 'a) turn_action \<Rightarrow> bool" where
  "keeps P m \<longleftrightarrow> (\<forall>t. P (snd t) \<longrightarrow> P (snd (snd (m t))))"

named_theorems keep_rules \<open>actions that keep a property of the server\<close>

lemma keepsI: "(\<And>t r t'. m t = (r, t') \<Longrightarrow> P (snd t) \<Longrightarrow> P (snd t')) \<Longrightarrow> keeps P m"
  unfolding keeps_def by (metis snd_conv surj_pair)

lemma keepsD: "keeps P m \<Longrightarrow> m t = (r, t') \<Longrightarrow> P (snd t) \<Longrightarrow> P (snd t')"
  unfolding keeps_def by (metis snd_conv)

lemma keep_return [keep_rules]: "keeps P (return_act a)"
  by (simp add: keeps_def return_act_def)

lemma keep_throw [keep_rules]: "keeps P (throw_act e)"
  by (simp add: keeps_def throw_act_def)

lemma keep_lift [keep_rules]: "keeps P (lift_out r)"
  by (simp add: keeps_def lift_out_def)

lemma keep_value [keep_rules]: "keeps P (session_value a k)"
  by (simp add: keeps_def session_value_def)

lemma keep_response [keep_rules]: "keeps P (set_response f)"
  by (auto simp: keeps_def set_response_def modify_act_def split: prod.split)

lemma keep_bind [keep_rules]:
  assumes "keeps P m" and "\<And>a. keeps P (f a)"
  shows "keeps P (bind_act m f)"
proof (rule keepsI)
  fix t r t'
  assume run: "bind_act m f t = (r, t')" and P: "P (snd t)"
  obtain r1 t1 where m: "m t = (r1, t1)" by (rule prod.exhaust)
  have P1: "P (snd t1)" by (rule keepsD [OF assms(1) m P])
  show "P (snd t')"
  proof (cases r1)
    case (Ok a)
    with run m have "f a t1 = (r, t')" by (simp add: bind_act_def)
    then show ?thesis using P1 by (rule keepsD [OF assms(2)])
  qed (use run m P1 in \<open>auto simp: bind_act_def\<close>)
qed

lemma keep_catch [keep_rules]:
  assumes "keeps P m" and "\<And>e. keeps P (h e)"
  shows "keeps P (catch_act m h)"
proof (rule keepsI)
  fix t r t'
  assume run: "catch_act m h t = (r, t')" and P: "P (snd t)"
  obtain r1 t1 where m: "m t = (r1, t1)" by (rule prod.exhaust)
  have P1: "P (snd t1)" by (rule keepsD [OF assms(1) m P])
  show "P (snd t')"
  proof (cases r1)
    case (Throw e)
    with run m have "h e t1 = (r, t')" by (simp add: catch_act_def)
    then show ?thesis using P1 by (rule keepsD [OF assms(2)])
  qed (use run m P1 in \<open>auto simp: catch_act_def\<close>)
qed

lemma keep_server [keep_rules]: "(\<And>s. keeps P (f s)) \<Longrightarrow> keeps P (with_server f)"
  by (auto simp: keeps_def with_server_def)

lemma keep_if [keep_rules]: "keeps P a \<Longrightarrow> keeps P b \<Longrightarrow> keeps P (if c then a else b)"
  by simp

lemma keep_option [keep_rules]:
  "keeps P a \<Longrightarrow> (\<And>x. keeps P (f x)) \<Longrightarrow> keeps P (case x of None \<Rightarrow> a | Some y \<Rightarrow> f y)"
  by (cases x) simp_all

lemma keep_pair [keep_rules]: "(\<And>a b. keeps P (f a b)) \<Longrightarrow> keeps P (case p of (a, b) \<Rightarrow> f a b)"
  by (cases p) simp

lemma keep_let [keep_rules]: "(\<And>x. keeps P (f x)) \<Longrightarrow> keeps P (let x = v in f x)"
  by simp

lemma keep_modify: "(\<And>s. P s \<Longrightarrow> P (f s)) \<Longrightarrow> keeps P (modify_server f)"
  by (auto simp: keeps_def modify_server_def modify_act_def split: prod.split)

lemma keep_user [keep_rules]: "keeps P (session_user a)"
  unfolding session_user_def by (intro keep_rules)

lemma to_int_range: "to_int v = Ok u \<Longrightarrow> int32 u = u"
  by (auto simp: to_int_def stoi_def int32_def Let_def signed_take_bit_int_eq_self_iff
      split: option.splits if_splits prod.splits)

lemma keep_session_user:
  \<comment> \<open>a user is a number of 32 bits\<close>
  assumes "\<And>u. keeps P (f (int32 u))"
  shows "keeps P (bind_act (session_user a) f)"
proof (rule keepsI)
  fix t r t'
  assume run: "bind_act (session_user a) f t = (r, t')" and P: "P (snd t)"
  have u: "session_user a t = (to_int (getValue a ''userId'' (ct_sessions (snd t))), t)"
    by (simp add: session_user_def session_value_def bind_act_def lift_out_def)
  show "P (snd t')"
  proof (cases "to_int (getValue a ''userId'' (ct_sessions (snd t)))")
    case (Ok v)
    with run u have "f (int32 v) t = (r, t')" by (simp add: bind_act_def to_int_range [OF Ok])
    then show ?thesis using P by (rule keepsD [OF assms])
  qed (use run u P in \<open>auto simp: bind_act_def\<close>)
qed

lemma keep_reply [keep_rules]: "keeps P (reply req code msg close contentType body)"
  unfolding reply_def by (intro keep_rules)

lemma keep_json_reply [keep_rules]: "keeps P (json_reply J req code msg close members)"
  unfolding json_reply_def by (intro keep_rules)

lemma keep_error_reply [keep_rules]: "keeps P (error_reply J req e)"
  unfolding error_reply_def by (intro keep_rules)

lemma keep_unauthorized [keep_rules]: "keeps P (unauthorized J req)"
  unfolding unauthorized_def by (intro keep_rules)

lemma keep_bad_request [keep_rules]: "keeps P (bad_request req)"
  unfolding bad_request_def by (intro keep_rules)

lemma keep_session_id [keep_rules]: "keeps P (session_id_of a)"
  unfolding session_id_of_def by (intro keep_rules)

subsection \<open>Calls outside\<close>

definition same_core :: "('m, 'w) chat_server \<Rightarrow> ('m, 'w) chat_server \<Rightarrow> bool" where
  "same_core s s' \<longleftrightarrow> ct_sessions s' = ct_sessions s \<and> ct_chatInformation s' = ct_chatInformation s \<and>
     ct_sessionsIds s' = ct_sessionsIds s \<and> ct_origin s' = ct_origin s"

definition world_of :: "('m, 'w) chat_server \<Rightarrow> 'w" where
  "world_of s = mq_ext (ct_mq s)"

locale core_contract =
  fixes P :: "('m, 'w) chat_server \<Rightarrow> bool"
    and log :: "'w \<Rightarrow> 'l"
    and E :: "('j, 'm, 'i, 'f, 'w) chat_env"
  assumes core: "P s \<Longrightarrow> same_core s s' \<Longrightarrow> log (world_of s') = log (world_of s) \<Longrightarrow> P s'"
    and env: "silent_env log E"
begin

lemma keep_outside:
  assumes "silent log m"
  shows "keeps P (outside m)"
proof (rule keepsI)
  fix t r t'
  assume run: "outside m t = (r, t')" and P: "P (snd t)"
  obtain w where m: "m (world_of (snd t)) = (r, w)" and
    t': "snd t' = (snd t)\<lparr>ct_mq := (ct_mq (snd t))\<lparr>mq_ext := w\<rparr>\<rparr>"
    using run by (auto simp: outside_def world_of_def split: prod.splits)
  show "P (snd t')"
    unfolding t' by (rule core [OF P])
      (simp_all add: same_core_def world_of_def silentD [OF assms m [unfolded world_of_def]])
qed

lemma keep_online: "keeps P (modify_server (\<lambda>s. s\<lparr>ct_onlineUsers := f s\<rparr>))"
  by (rule keep_modify) (auto simp: same_core_def world_of_def intro: core)

lemma keep_images: "keeps P (modify_server (\<lambda>s. s\<lparr>ct_imageRecognizers := f s\<rparr>))"
  by (rule keep_modify) (auto simp: same_core_def world_of_def intro: core)

lemmas silent_calls = silent_account [OF env] silent_page [OF silent_envD(1) [OF env]]
  silent_generate [OF silent_envD(1) [OF env]] silent_processor [OF silent_envD(1) [OF env]]
  silent_synthesize [OF silent_envD(1) [OF env]] silent_predict [OF silent_envD(3) [OF env]]
  silent_recognizer [OF silent_envD(1) [OF env] silent_envD(3) [OF env]]

lemmas core_rules = keep_rules keep_outside keep_online keep_images silent_calls

lemma keep_recognize: "keeps P (recognize_upload E req userId)"
  unfolding recognize_upload_def user_recognizer_def Let_def by (intro core_rules)

lemma keep_speak: "keeps P (speak E req txt)"
  unfolding speak_def Let_def by (intro core_rules)

lemma keep_register: "keeps P (ChatRegisterHandler E req)"
  unfolding ChatRegisterHandler_def Let_def by (intro core_rules)

lemma keep_entry: "keeps P (ChatEntryHandler E req)"
  unfolding ChatEntryHandler_def by (intro core_rules)

end

subsection \<open>The conversations of one user\<close>

locale user_contract = core_contract P log E
  for P :: "('m, 'w) chat_server \<Rightarrow> bool" and log :: "'w \<Rightarrow> 'l"
    and E :: "('j, 'm, 'i, 'f, 'w) chat_env" +
  fixes u :: int
    and speak :: "bytes \<Rightarrow> 'w helper_state \<Rightarrow> 'w helper_state \<Rightarrow> bool"
  assumes ensure: "P s \<Longrightarrow> P (ensure_helper u sid s)"
    and listed: "P s \<Longrightarrow> P (list_session u sid s)"
    and talk: "speak sid st (snd (chat (ce_json E) (ce_web E) u name sid question model st))"
    and update: "P s \<Longrightarrow> ct_chatInformation s u sid = Some h \<Longrightarrow> speak sid (h, ct_mq s) (h', q) \<Longrightarrow>
      P (s\<lparr>ct_chatInformation := (ct_chatInformation s)(u := (ct_chatInformation s u)(sid \<mapsto> h')),
           ct_mq := q\<rparr>)"
begin

lemma keep_chat: "keeps P (on_helper u sid (chat (ce_json E) (ce_web E) u name sid question model))"
  (is "keeps P (on_helper u sid ?m)")
proof (rule keepsI)
  fix t r t'
  assume run: "on_helper u sid ?m t = (r, t')" and P: "P (snd t)"
  show "P (snd t')"
  proof (cases "ct_chatInformation (snd t) u sid")
    case None
    with run P show ?thesis by (simp add: on_helper_def)
  next
    case (Some h)
    obtain r1 h1 q1 where m: "?m (h, ct_mq (snd t)) = (r1, (h1, q1))" by (metis surj_pair)
    with run Some have "snd t' = (snd t)\<lparr>ct_chatInformation := (ct_chatInformation (snd t))
        (u := (ct_chatInformation (snd t) u)(sid \<mapsto> h1)), ct_mq := q1\<rparr>"
      by (auto simp: on_helper_def)
    with update [OF P Some, of h1 q1] talk [of sid "(h, ct_mq (snd t))" name question model] m
    show ?thesis by simp
  qed
qed

lemma keep_new_helper: "keeps P (modify_server (ensure_helper u sid))"
  by (rule keep_modify) (rule ensure)

lemma keep_listed: "keeps P (modify_server (list_session u sid))"
  by (rule keep_modify) (rule listed)

lemmas user_rules = core_rules keep_chat keep_new_helper keep_listed

lemma keep_send: "keeps P (send_message E req a u)"
  unfolding send_message_def Let_def by (intro user_rules)

lemma keep_create: "keeps P (create_and_send E req a u)"
  unfolding create_and_send_def Let_def by (intro user_rules)

lemma keep_history: "keeps P (show_history E req a u)"
  unfolding show_history_def by (intro user_rules)

end

subsection \<open>The session of the request\<close>

locale session_contract =
  fixes I :: "('m, 'w) chat_server \<Rightarrow> bool"
    and J :: "addr \<Rightarrow> ('m, 'w) chat_server \<Rightarrow> bool"
    and log :: "'w \<Rightarrow> 'l"
    and E :: "('j, 'm, 'i, 'f, 'w) chat_env"
  assumes core_I: "I s \<Longrightarrow> same_core s s' \<Longrightarrow> log (world_of s') = log (world_of s) \<Longrightarrow> I s'"
    and core_J: "J a s \<Longrightarrow> same_core s s' \<Longrightarrow> log (world_of s') = log (world_of s) \<Longrightarrow> J a s'"
    and environment: "silent_env log E"
    and got: "I s \<Longrightarrow> getSession memory_storage req resp (ct_sessions s) = (a, resp', sw) \<Longrightarrow>
      J a (s\<lparr>ct_sessions := sw\<rparr>)"
    and weaken: "J a s \<Longrightarrow> I s"
begin

lemma keep_get_session:
  assumes "\<And>a. keeps (J a) (f a)"
  shows "keeps I (bind_act (get_session req) f)"
proof (rule keepsI)
  fix t r t'
  assume run: "bind_act (get_session req) f t = (r, t')" and P: "I (snd t)"
  obtain a resp sw where g: "getSession memory_storage req (fst t) (ct_sessions (snd t)) = (a, resp, sw)"
    by (metis surj_pair)
  then have "f a (resp, (snd t)\<lparr>ct_sessions := sw\<rparr>) = (r, t')"
    using run by (simp add: get_session_def bind_act_def)
  then have "J a (snd t')" by (rule keepsD [OF assms]) (simp add: got [OF P g])
  then show "I (snd t')" by (rule weaken)
qed

lemma keep_logged_in:
  assumes "\<And>a. keeps (J a) (f a)"
  shows "keeps I (logged_in X req f)"
  unfolding logged_in_def
  by (rule keep_catch [OF keep_get_session keep_error_reply]) (intro keep_rules assms)

end

sublocale session_contract \<subseteq> I: core_contract I log E
  by unfold_locales (rule core_I environment; assumption?)+

sublocale session_contract \<subseteq> J: core_contract "J a" log E for a
  by unfold_locales (rule core_J environment; assumption?)+

context session_contract begin

lemma keep_pages: "keeps I (page_handler path E req)"
  unfolding page_handler_def by (intro keep_logged_in J.core_rules)

lemma keep_sessions: "keeps I (ChatSessionsHandler E req)"
  unfolding ChatSessionsHandler_def Let_def by (intro keep_logged_in J.core_rules)

lemma keep_upload: "keeps I (AIUploadSendHandler E req)"
  unfolding AIUploadSendHandler_def by (intro keep_logged_in J.core_rules J.keep_recognize)

lemma keep_speech: "keeps I (ChatSpeechHandler E req)"
  unfolding ChatSpeechHandler_def Let_def by (intro keep_logged_in J.core_rules J.keep_speak)

end

locale login_contract = session_contract I J log E
  for I :: "('m, 'w) chat_server \<Rightarrow> bool" and J :: "addr \<Rightarrow> ('m, 'w) chat_server \<Rightarrow> bool"
    and log :: "'w \<Rightarrow> 'l" and E :: "('j, 'm, 'i, 'f, 'w) chat_env" +
  assumes set_J: "J a s \<Longrightarrow> J a (s\<lparr>ct_sessions := setValue memory_storage a k v (ct_sessions s)\<rparr>)"
    and clear_J: "J a s \<Longrightarrow> J a (s\<lparr>ct_sessions := clear_session a (ct_sessions s)\<rparr>)"
    and destroy_J: "J a s \<Longrightarrow> J a (s\<lparr>ct_sessions := destroySession memory_storage i (ct_sessions s)\<rparr>)"
begin

lemma keep_session_ops:
  "keeps (J a) (set_session_value a k v)"
  "keeps (J a) (on_sessions (clear_session a))"
  "keeps (J a) (on_sessions (destroySession memory_storage i))"
  unfolding set_session_value_def on_sessions_def
  by (rule keep_modify, erule set_J clear_J destroy_J)+

lemma keep_log_in: "keeps I (log_in E req userId username)"
  unfolding log_in_def Let_def by (intro keep_get_session keep_session_ops J.core_rules)

lemma keep_login: "keeps I (ChatLoginHandler E req)"
  unfolding ChatLoginHandler_def Let_def by (intro keep_log_in I.core_rules)

lemma keep_logout: "keeps I (ChatLogoutHandler E req)"
  unfolding ChatLogoutHandler_def Let_def
  by (intro keep_if keep_bad_request keep_catch keep_error_reply keep_get_session keep_session_ops J.core_rules)

end

subsection \<open>All handlers\<close>

locale application_contract = login_contract I J log E
  for I :: "('m, 'w) chat_server \<Rightarrow> bool" and J :: "addr \<Rightarrow> ('m, 'w) chat_server \<Rightarrow> bool"
    and log :: "'w \<Rightarrow> 'l" and E :: "('j, 'm, 'i, 'f, 'w) chat_env" +
  fixes speak :: "int \<Rightarrow> bytes \<Rightarrow> 'w helper_state \<Rightarrow> 'w helper_state \<Rightarrow> bool"
  assumes every_user: "user_contract (J a) log E (int32 u) (speak (int32 u))"
begin

lemma keep_conversations:
  "keeps I (ChatSendHandler E req)" "keeps I (ChatHistoryHandler E req)"
  "keeps I (ChatCreateAndSendHandler E req)"
  unfolding ChatSendHandler_def ChatHistoryHandler_def ChatCreateAndSendHandler_def
  by (intro keep_logged_in keep_session_user user_contract.keep_send [OF every_user]
      user_contract.keep_history [OF every_user] user_contract.keep_create [OF every_user])+

lemma keep_handlers:
  assumes "(m, path, h) \<in> set chat_routes"
  shows "keeps I (h E req)"
  using assms keep_conversations keep_login keep_logout keep_pages keep_sessions keep_upload keep_speech
    I.keep_register I.keep_entry
  by (auto simp: chat_routes_def ChatHandler_def AIMenuHandler_def AIUploadHandler_def)

end

end
