(* ===== verification/Chat_Properties.thy ===== *)
theory Chat_Properties
  imports Chat_Contract AI_Helper_Properties
begin

section \<open>The state of the application stays well formed\<close>

text \<open>
  The contracts of \<open>Chat_Contract\<close> on three properties of the server: it is well formed, it keeps the
  origin of the request, it keeps the conversations of everybody but one user.
\<close>

definition chat_ok :: "('m, 'w) chat_server \<Rightarrow> bool" where
  "chat_ok s \<longleftrightarrow> sessions_ok (ct_sessions s) \<and>
     (\<forall>u. distinct (ct_sessionsIds s u) \<and>
       (\<forall>sid\<in>set (ct_sessionsIds s u). ct_chatInformation s u sid \<noteq> None))"

definition live_ok :: "addr \<Rightarrow> ('m, 'w) chat_server \<Rightarrow> bool" where
  "live_ok a s \<longleftrightarrow> chat_ok s \<and> a < sw_next (ct_sessions s)"

definition same_origin :: "bytes \<Rightarrow> ('m, 'w) chat_server \<Rightarrow> bool" where
  "same_origin origin s \<longleftrightarrow> ct_origin s = origin"

definition others_kept :: "int \<Rightarrow> ('m, 'w) chat_server \<Rightarrow> ('m, 'w) chat_server \<Rightarrow> bool" where
  "others_kept u s0 s \<longleftrightarrow>
     (\<forall>v. v \<noteq> u \<longrightarrow> ct_chatInformation s v = ct_chatInformation s0 v \<and>
                     ct_sessionsIds s v = ct_sessionsIds s0 v)"

lemma sessions_ok_ops:
  assumes "sessions_ok w"
  shows "getSession memory_storage req resp w = (a, resp', w') \<Longrightarrow> sessions_ok w' \<and> a < sw_next w'"
    "a < sw_next w \<Longrightarrow> sessions_ok (setValue memory_storage a k v w)"
    "sessions_ok (destroySession memory_storage i w)"
    "sessions_ok (clear_session a w)"
  using memory.getSession_inv(1,2) [OF assms [unfolded sessions_ok_inv]]
    memory.inv_setValue [OF assms [unfolded sessions_ok_inv]]
    memory.inv_destroy [OF assms [unfolded sessions_ok_inv]]
    memory.inv_update [OF assms [unfolded sessions_ok_inv], of "\<lambda>x. x\<lparr>ses_data := Map.empty\<rparr>"]
  by (auto simp: sessions_ok_inv clear_session_def)

lemma sessions_next:
  "sw_next (setValue memory_storage a k v w) = sw_next w"
  "sw_next (destroySession memory_storage i w) = sw_next w"
  "sw_next (clear_session a w) = sw_next w"
  by (simp_all add: setValue_def updateSession_def update_session_def mem_save_def destroySession_def
      mem_remove_def clear_session_def Let_def)

lemma chat_ok_sessions: "chat_ok s \<Longrightarrow> sessions_ok w \<Longrightarrow> chat_ok (s\<lparr>ct_sessions := w\<rparr>)"
  by (simp add: chat_ok_def)

lemma chat_ok_get: "chat_ok s \<Longrightarrow> sessions_ok (ct_sessions s)"
  by (simp add: chat_ok_def)

interpretation ok: login_contract chat_ok live_ok "\<lambda>_. ()" E for E
proof unfold_locales
  show "chat_ok s \<Longrightarrow> same_core s s' \<Longrightarrow> chat_ok s'" for s s' :: "('m, 'w) chat_server"
    by (simp add: chat_ok_def same_core_def)
  show "live_ok a s \<Longrightarrow> same_core s s' \<Longrightarrow> live_ok a s'" for a and s s' :: "('m, 'w) chat_server"
    by (simp add: live_ok_def chat_ok_def same_core_def)
  show "silent_env (\<lambda>_. ()) E" by simp
  show "live_ok a s \<Longrightarrow> chat_ok s" for a and s :: "('m, 'w) chat_server"
    by (simp add: live_ok_def)
  show "live_ok a (s\<lparr>ct_sessions := sw\<rparr>)"
    if "chat_ok s" "getSession memory_storage req resp (ct_sessions s) = (a, resp', sw)"
    for s :: "('m, 'w) chat_server" and req resp a resp' sw
    using that sessions_ok_ops(1) [OF chat_ok_get that(2)] by (simp add: live_ok_def chat_ok_sessions)
  show "live_ok a (s\<lparr>ct_sessions := setValue memory_storage a k v (ct_sessions s)\<rparr>)"
    if "live_ok a s" for s :: "('m, 'w) chat_server" and a k v
    using that sessions_ok_ops(2) [OF chat_ok_get, of s a k v]
    by (simp add: live_ok_def chat_ok_sessions sessions_next)
  show "live_ok a (s\<lparr>ct_sessions := clear_session a (ct_sessions s)\<rparr>)"
    if "live_ok a s" for s :: "('m, 'w) chat_server" and a
    using that sessions_ok_ops(4) [OF chat_ok_get, of s a]
    by (simp add: live_ok_def chat_ok_sessions sessions_next)
  show "live_ok a (s\<lparr>ct_sessions := destroySession memory_storage i (ct_sessions s)\<rparr>)"
    if "live_ok a s" for s :: "('m, 'w) chat_server" and a i
    using that sessions_ok_ops(3) [OF chat_ok_get, of s i]
    by (simp add: live_ok_def chat_ok_sessions sessions_next)
qed

lemma chat_ok_ensure: "chat_ok s \<Longrightarrow> chat_ok (ensure_helper u sid s)"
  by (auto simp: chat_ok_def ensure_helper_def)

lemma chat_ok_list: "chat_ok s \<Longrightarrow> chat_ok (list_session u sid s)"
  unfolding chat_ok_def list_session_def ensure_helper_def by fastforce

lemma chat_ok_update:
  "chat_ok s \<Longrightarrow> chat_ok (s\<lparr>ct_chatInformation := (ct_chatInformation s)
     (u := (ct_chatInformation s u)(sid \<mapsto> h)), ct_mq := q\<rparr>)"
  by (auto simp: chat_ok_def)

lemma sessions_of_steps [simp]:
  "ct_sessions (ensure_helper u sid s) = ct_sessions s" "ct_sessions (list_session u sid s) = ct_sessions s"
  "ct_origin (ensure_helper u sid s) = ct_origin s" "ct_origin (list_session u sid s) = ct_origin s"
  by (simp_all add: ensure_helper_def list_session_def)

interpretation ok_user: user_contract "live_ok a" "\<lambda>_. ()" E u "\<lambda>_ _ _. True" for a E u
  by unfold_locales (simp_all add: live_ok_def chat_ok_ensure chat_ok_list chat_ok_update)

interpretation origin: login_contract "same_origin origin" "\<lambda>a. same_origin origin" "\<lambda>_. ()" E
  for origin E
  by unfold_locales (simp_all add: same_origin_def same_core_def)

interpretation origin_user: user_contract "same_origin origin" "\<lambda>_. ()" E u "\<lambda>_ _ _. True"
  for origin E u
  by unfold_locales (simp_all add: same_origin_def)

interpretation others: user_contract "others_kept u s0" "\<lambda>_. ()" E u "\<lambda>_ _ _. True" for u s0 E
  by unfold_locales
    (auto simp: others_kept_def same_core_def ensure_helper_def list_session_def)

interpretation ok_app: application_contract chat_ok live_ok "\<lambda>_. ()" E "\<lambda>_ _ _ _. True" for E
  by unfold_locales

interpretation origin_app: application_contract "same_origin origin" "\<lambda>a. same_origin origin" "\<lambda>_. ()" E
    "\<lambda>_ _ _ _. True" for origin E
  by unfold_locales

subsection \<open>Every request\<close>

definition chat_keys :: "(http_method \<times> bytes) list" where
  "chat_keys =
     [(kGet, ''/''), (kGet, ''/entry''), (kPost, ''/login''), (kPost, ''/register''),
      (kPost, ''/user/logout''), (kGet, ''/chat''), (kPost, ''/chat/send''), (kGet, ''/menu''),
      (kGet, ''/upload''), (kPost, ''/upload/send''), (kPost, ''/chat/history''),
      (kPost, ''/chat/send-new-session''), (kGet, ''/chat/sessions''), (kPost, ''/chat/tts'')]"

lemma chat_keys: "route_key_of ` set chat_routes = set chat_keys"
  by (simp add: chat_routes_def chat_keys_def route_key_of_def)

lemma fold_routes_other:
  "rt_callbacks (sv_router (fold (add_route E) rs srv)) = rt_callbacks (sv_router srv)"
  "rt_regexHandlers (sv_router (fold (add_route E) rs srv)) = rt_regexHandlers (sv_router srv)"
  "rt_regexCallbacks (sv_router (fold (add_route E) rs srv)) = rt_regexCallbacks (sv_router srv)"
  by (induction rs arbitrary: srv)
    (auto simp: add_route_def Get_handler_def Post_handler_def registerHandler_def split: prod.split)

lemma router_of_app:
  "rt_callbacks (sv_router (ChatServer B T X E b)) = Map.empty"
  "rt_regexHandlers (sv_router (ChatServer B T X E b)) = Map.empty"
  "rt_regexCallbacks (sv_router (ChatServer B T X E b)) = Map.empty"
  by (simp_all add: ChatServer_def initializeRouter_def fold_routes_other initializeMiddleware_def
      addMiddleware_server_def HttpServer_def new_router_def)

lemma find_in_nothing: "find_by_prefix X m p Map.empty ps = None"
  by (induction ps) simp_all

lemma handlers_other:
  assumes "k \<notin> set chat_keys"
  shows "rt_handlers (sv_router (initializeRouter E srv)) k = rt_handlers (sv_router srv) k"
  unfolding initializeRouter_def
  by (rule handlers_fold_other) (use assms chat_routes_keys(2) in \<open>simp_all add: chat_keys\<close>)

lemma chat_key_route:
  assumes "(m, p) \<in> set chat_keys"
  shows "\<exists>h. (m, p, h) \<in> set (chat_routes :: (http_method \<times> bytes \<times> ('j, 'm, 'i, 'f, 'w) page) list)"
proof -
  have "(m, p) \<in> route_key_of ` set (chat_routes :: (http_method \<times> bytes \<times> ('j, 'm, 'i, 'f, 'w) page) list)"
    using assms by (simp only: chat_keys)
  then obtain r where "r \<in> set (chat_routes :: (http_method \<times> bytes \<times> ('j, 'm, 'i, 'f, 'w) page) list)"
    "(m, p) = route_key_of r" by blast
  moreover from this(2) have "(m, p, snd (snd r)) = r" by (simp add: route_key_of_def prod_eq_iff)
  ultimately show ?thesis by metis
qed

lemma unrouted:
  assumes "(req_method req, req_path req) \<notin> set chat_keys"
  shows "route X (sv_router (ChatServer B T Y E b)) req resp s = (Ok False, resp, s)"
proof -
  have "rt_handlers (sv_router (ChatServer B T Y E b)) (req_method req, req_path req) = None"
    unfolding ChatServer_def handlers_other [OF assms]
    by (simp add: initializeMiddleware_def addMiddleware_server_def HttpServer_def new_router_def)
  then show ?thesis
    by (simp add: route_def router_of_app find_in_nothing)
qed

lemma preflight_request:
  assumes "req_method req = kOptions"
  shows "snd (snd (handleRequest (ChatServer B T X E b) req resp s)) =
    s\<lparr>ct_origin := getHeader ''Origin'' req\<rparr>"
  using assms
  by (simp add: handleRequest_def run_request_def chat_server_frame cors_middleware_def cors_before_def
      catch_request_def Let_def)

lemma unrouted_request:
  assumes "(req_method req, req_path req) \<notin> set chat_keys" and "req_method req \<noteq> kOptions"
  shows "snd (snd (handleRequest (ChatServer B T X E b) req resp s)) =
    s\<lparr>ct_origin := getHeader ''Origin'' req\<rparr>"
  using assms
  by (simp add: handleRequest_def run_request_def chat_server_frame cors_middleware_def cors_before_def
      cors_after_def catch_request_def processAfter_def unrouted Let_def)

text \<open>A request that is routed runs its handler.\<close>

lemma routed_request:
  assumes "(m, path, h) \<in> set chat_routes" and "req_method req = m" and "req_path req = path"
    and run: "h E req (resp, s\<lparr>ct_origin := getHeader ''Origin'' req\<rparr>) = (r, (resp', s'))"
  shows "handleRequest (ChatServer B T X E b) req resp s =
    (case r of
       Ok u \<Rightarrow> (Ok (), cors_response (getHeader ''Origin'' req) resp', s')
     | Throw e \<Rightarrow> (Ok (), internal_error resp', s')
     | Crash x \<Rightarrow> (Crash x, resp', s'))"
proof (rule handle_route [OF assms(1-3) _ run])
  show "m \<noteq> kOptions" using chat_routes_keys(2) assms(1) by auto
  show "ct_origin s' = getHeader ''Origin'' req"
    using keepsD [OF origin_app.keep_handlers [OF assms(1)] run, of "getHeader ''Origin'' req"]
    by (simp add: same_origin_def)
qed

lemma request_cases:
  \<comment> \<open>a property that the origin does not matter to is checked on the handler of the request alone\<close>
  fixes E :: "('j, 'm, 'i, 'f, 'w) chat_env"
  assumes "P (s\<lparr>ct_origin := getHeader ''Origin'' req\<rparr>)"
    and "\<And>h. (req_method req, req_path req, h) \<in> set (chat_routes :: (http_method \<times> bytes \<times> ('j, 'm, 'i, 'f, 'w) page) list) \<Longrightarrow>
      P (snd (snd (h E req (resp, s\<lparr>ct_origin := getHeader ''Origin'' req\<rparr>))))"
  shows "P (snd (snd (handleRequest (ChatServer B T X E b) req resp s)))"
proof -
  consider "req_method req = kOptions"
    | "req_method req \<noteq> kOptions" "(req_method req, req_path req) \<notin> set chat_keys"
    | h where "(req_method req, req_path req, h) \<in> set (chat_routes :: (http_method \<times> bytes \<times> ('j, 'm, 'i, 'f, 'w) page) list)"
    using chat_key_route by blast
  then show ?thesis
  proof cases
    case (3 h)
    obtain r resp' s' where run: "h E req (resp, s\<lparr>ct_origin := getHeader ''Origin'' req\<rparr>) = (r, (resp', s'))"
      by (metis surj_pair)
    with assms(2) [OF 3] routed_request [OF 3 refl refl run, of B T X b] show ?thesis by (cases r) simp_all
  qed (simp_all add: preflight_request unrouted_request assms(1))
qed

lemma request_keeps:
  assumes "P s" and "\<And>c s. P s \<Longrightarrow> P (s\<lparr>ct_origin := c\<rparr>)"
    and "\<And>m path h. (m, path, h) \<in> set chat_routes \<Longrightarrow> keeps P (h E req)"
  shows "P (snd (snd (handleRequest (ChatServer B T X E b) req resp s)))"
  by (rule request_cases) (use assms in \<open>auto simp: keeps_def\<close>)

lemma request_keeps_ok:
  assumes "chat_ok s"
  shows "chat_ok (snd (snd (handleRequest (ChatServer B T X E b) req resp s)))"
  by (rule request_keeps [where P = chat_ok, OF assms _ ok_app.keep_handlers]) (simp add: chat_ok_def)

definition serve_all ::
    "('b, 't, 'm, 'w) app_server \<Rightarrow> http_request list \<Rightarrow> ('m, 'w) chat_server \<Rightarrow> ('m, 'w) chat_server" where
  \<comment> \<open>the requests one after the other\<close>
  "serve_all srv reqs s =
     fold (\<lambda>req s. snd (snd (handleRequest srv req (new_response (wants_close req)) s))) reqs s"

lemma serve_all_keeps:
  assumes "\<And>req resp s. P s \<Longrightarrow> P (snd (snd (handleRequest srv req resp s)))" and "P s"
  shows "P (serve_all srv reqs s)"
  using assms(2) unfolding serve_all_def by (induction reqs arbitrary: s) (simp_all add: assms(1))

definition new_chat :: "(nat \<Rightarrow> int) \<Rightarrow> (nat \<Rightarrow> nat) \<Rightarrow> 'w \<Rightarrow> ('m, 'w) chat_server" where
  \<comment> \<open>the members after \<open>initialize\<close>\<close>
  "new_chat time rand w = initializeSession
     \<lparr>ct_sessions = empty_sessions time rand, ct_onlineUsers = Map.empty,
      ct_chatInformation = (\<lambda>_. Map.empty), ct_imageRecognizers = Map.empty,
      ct_sessionsIds = (\<lambda>_. []), ct_mq = \<lparr>mq_pool = None, mq_counter = 0, mq_ext = w\<rparr>, ct_origin = []\<rparr>"

lemma chat_ok_new: "chat_ok (new_chat time rand w)"
  by (simp add: chat_ok_def new_chat_def initializeSession_def sessions_ok_def empty_sessions_def)

subsection \<open>Who may do what\<close>

definition public_paths :: "bytes list" where
  "public_paths = [''/'', ''/entry'', ''/login'', ''/register'', ''/user/logout'']"

lemma logged_in_run:
  assumes "getSession memory_storage req resp (ct_sessions s) = (a, resp1, sw)"
  shows "logged_in J req f (resp, s) =
    catch_act (if getValue a ''isLoggedIn'' sw \<noteq> ''true'' then unauthorized J req else f a)
      (error_reply J req) (resp1, s\<lparr>ct_sessions := sw\<rparr>)"
  using assms
  by (simp add: logged_in_def catch_act_def bind_act_def get_session_def session_value_def)

lemma unauthorized_run:
  assumes "js_dump4 J (js_object J (failure_members J ''Unauthorized'')) = Ok body"
  shows "\<exists>resp'. unauthorized J req (resp, s) = (Ok (), (resp', s)) \<and>
    res_statusCode resp' = k401Unauthorized \<and> res_body resp' = body \<and> res_closeConnection resp'"
  using assms
  by (simp add: unauthorized_def bind_act_def lift_out_def set_response_def modify_act_def packageResp_def
      setBody_def setContentLength_def addHeader_def setContentType_def setCloseConnection_def
      setStatusMessage_def setStatusCode_def setVersion_def)

definition guarded :: "('j, 'm, 'i, 'f, 'w) page \<Rightarrow> bool" where
  "guarded h \<longleftrightarrow> (\<forall>E req. \<exists>f. h E req = logged_in (ce_json E) req f)"

lemma guarded_pages: "guarded (page_handler path)"
  unfolding guarded_def page_handler_def by blast

lemma guarded_handler:
  "guarded ChatHandler" "guarded AIMenuHandler" "guarded AIUploadHandler" "guarded ChatSendHandler"
  "guarded ChatHistoryHandler" "guarded ChatCreateAndSendHandler" "guarded AIUploadSendHandler"
  "guarded ChatSpeechHandler" "guarded ChatSessionsHandler"
proof -
  show "guarded ChatHandler" "guarded AIMenuHandler" "guarded AIUploadHandler"
    unfolding ChatHandler_def AIMenuHandler_def AIUploadHandler_def by (rule guarded_pages)+
  show "guarded ChatSendHandler" "guarded ChatHistoryHandler" "guarded ChatCreateAndSendHandler"
    "guarded AIUploadSendHandler" "guarded ChatSpeechHandler" "guarded ChatSessionsHandler"
    unfolding guarded_def ChatSendHandler_def ChatHistoryHandler_def ChatCreateAndSendHandler_def
      AIUploadSendHandler_def ChatSpeechHandler_def ChatSessionsHandler_def Let_def by blast+
qed

lemma guarded_routes:
  assumes "(m, path, h) \<in> set chat_routes" and "path \<notin> set public_paths"
  shows "guarded h"
proof -
  have "\<forall>r\<in>set chat_routes. fst (snd r) \<in> set public_paths \<or> guarded (snd (snd r))"
    by (simp add: chat_routes_def public_paths_def guarded_handler)
  from bspec [OF this assms(1)] assms(2) show ?thesis by simp
qed

lemma guard_refuses:
  fixes h :: "('j, 'm, 'i, 'f, 'w) page" and E :: "('j, 'm, 'i, 'f, 'w) chat_env"
  assumes route: "(m, path, h) \<in> set chat_routes" and guarded: "path \<notin> set public_paths"
    and "req_method req = m" "req_path req = path"
    and session: "getSession memory_storage req resp (ct_sessions s) = (a, resp1, sw)"
    and anonymous: "getValue a ''isLoggedIn'' sw \<noteq> ''true''"
    and body: "js_dump4 (ce_json E) (js_object (ce_json E) (failure_members (ce_json E) ''Unauthorized'')) = Ok body"
  shows "\<exists>resp'. handleRequest (ChatServer B T X E b) req resp s =
      (Ok (), resp', s\<lparr>ct_sessions := sw, ct_origin := getHeader ''Origin'' req\<rparr>) \<and>
    res_statusCode resp' = k401Unauthorized \<and> res_body resp' = body \<and> res_closeConnection resp'"
proof -
  let ?s = "s\<lparr>ct_origin := getHeader ''Origin'' req\<rparr>"
  obtain f where h: "h E req = logged_in (ce_json E) req f" using guarded_routes [OF route guarded] by (auto simp: guarded_def)
  have "getSession memory_storage req resp (ct_sessions ?s) = (a, resp1, sw)" using session by simp
  from logged_in_run [OF this, of "ce_json E" f] anonymous
  have run: "h E req (resp, ?s) = catch_act (unauthorized (ce_json E) req) (error_reply (ce_json E) req)
      (resp1, ?s\<lparr>ct_sessions := sw\<rparr>)" by (simp add: h)
  obtain resp' where u: "unauthorized (ce_json E) req (resp1, ?s\<lparr>ct_sessions := sw\<rparr>) =
      (Ok (), (resp', ?s\<lparr>ct_sessions := sw\<rparr>))"
    "res_statusCode resp' = k401Unauthorized" "res_body resp' = body" "res_closeConnection resp'"
    using unauthorized_run [OF body] by blast
  have "h E req (resp, ?s) = (Ok (), (resp', ?s\<lparr>ct_sessions := sw\<rparr>))"
    unfolding run by (rule catch_Ok) (rule u(1))
  from routed_request [OF route assms(3,4) this, of B T X b] u(2-4) show ?thesis by simp
qed

end
