(* ===== verification/Chat_Behaviour.thy ===== *)
theory Chat_Behaviour
  imports Chat_Properties
begin

section \<open>Sessions that log in and out\<close>

lemma heap_setValue:
  "sw_heap (setValue memory_storage a k v w) =
     (sw_heap w)(a := (sw_heap w a)\<lparr>ses_data := (ses_data (sw_heap w a))(k \<mapsto> v)\<rparr>)"
  by (simp add: setValue_def updateSession_def update_session_def mem_save_def Let_def)

lemma getValue_setValue [simp]:
  "getValue a k (setValue memory_storage a k' v w) = (if k = k' then v else getValue a k w)"
  by (simp add: getValue_def heap_setValue)

lemma on_sessions_run [act_simps]:
  "on_sessions f (resp, s) = (Ok (), (resp, s\<lparr>ct_sessions := f (ct_sessions s)\<rparr>))"
  by (simp add: on_sessions_def modify_server_def modify_act_def)

lemma get_session_run [act_simps]:
  "getSession memory_storage req resp (ct_sessions s) = (a, resp1, sw) \<Longrightarrow>
    get_session req (resp, s) = (Ok a, (resp1, s\<lparr>ct_sessions := sw\<rparr>))"
  by (simp add: get_session_def)

lemma session_user_run [act_simps]:
  "session_user a (resp, s) = (to_int (getValue a ''userId'' (ct_sessions s)), (resp, s))"
  by (simp add: session_user_def session_value_def bind_act_def lift_out_def)

lemma json_reply_run:
  assumes "js_dump4 J (js_object J members) = Ok body"
  shows "\<exists>resp'. json_reply J req code msg close members (resp, s) = (Ok (), (resp', s)) \<and>
    res_statusCode resp' = code \<and> res_body resp' = body"
  using assms
  by (simp add: json_reply_def reply_def bind_act_def lift_out_def set_response_def modify_act_def
      setBody_def setContentLength_def addHeader_def setContentType_def setCloseConnection_def
      setStatusLine_def)

definition refused_members :: "'j json_ops \<Rightarrow> (bytes \<times> 'j) list" where
  "refused_members J = [(''success'', js_bool J False),
     (''error'', js_string J ''Account already logged in elsewhere'')]"

lemma log_in_refused:
  assumes "ct_onlineUsers s u = Some True"
    and g: "getSession memory_storage req resp (ct_sessions s) = (a, resp1, sw)"
    and d: "js_dump4 (ce_json E) (js_object (ce_json E) (refused_members (ce_json E))) = Ok body"
  shows "\<exists>resp' sw'. log_in E req u name (resp, s) = (Ok (), (resp', s\<lparr>ct_sessions := sw'\<rparr>)) \<and>
    res_statusCode resp' = k403Forbidden \<and> res_body resp' = body \<and>
    getValue a ''isLoggedIn'' sw' = ''true'' \<and> getValue a ''userId'' sw' = int_to_dec u"
proof -
  let ?sw' = "setValue memory_storage a ''isLoggedIn'' ''true''
    (setValue memory_storage a ''username'' name (setValue memory_storage a ''userId'' (int_to_dec u) sw))"
  have run: "log_in E req u name (resp, s) =
      json_reply (ce_json E) req k403Forbidden ''Forbidden'' True (refused_members (ce_json E))
        (resp1, s\<lparr>ct_sessions := ?sw'\<rparr>)"
    using assms(1)
    by (simp add: log_in_def bind_act_def get_session_run [OF g] set_session_value_def on_sessions_run
        with_server_def refused_members_def Let_def)
  show ?thesis
    unfolding run using json_reply_run [OF d] by fastforce
qed

lemma refused_login:
  assumes "\<not> not_json_request req" and "js_parse (ce_json E) (req_content req) = Ok parsed"
    and "string_field (ce_json E) ''username'' parsed = Ok name"
    and "string_field (ce_json E) ''password'' parsed = Ok password"
    and q: "queryUserId E name password (mq_ext (ct_mq s)) = (Ok u, w)" and "u \<noteq> - 1"
    and online: "ct_onlineUsers s u = Some True"
    and g: "getSession memory_storage req resp (ct_sessions s) = (a, resp1, sw)"
    and d: "js_dump4 (ce_json E) (js_object (ce_json E) (refused_members (ce_json E))) = Ok body"
  shows "\<exists>resp' s'. ChatLoginHandler E req (resp, s) = (Ok (), (resp', s')) \<and>
    res_statusCode resp' = k403Forbidden \<and>
    getValue a ''isLoggedIn'' (ct_sessions s') = ''true'' \<and>
    getValue a ''userId'' (ct_sessions s') = int_to_dec u \<and> ct_onlineUsers s' = ct_onlineUsers s"
proof -
  let ?s = "s\<lparr>ct_mq := (ct_mq s)\<lparr>mq_ext := w\<rparr>\<rparr>"
  have "ct_onlineUsers ?s u = Some True" "getSession memory_storage req resp (ct_sessions ?s) = (a, resp1, sw)"
    using online g by simp_all
  from log_in_refused [OF this d, of name] obtain resp' sw' where
    l: "log_in E req u name (resp, ?s) = (Ok (), (resp', ?s\<lparr>ct_sessions := sw'\<rparr>))"
    and v: "res_statusCode resp' = k403Forbidden" "getValue a ''isLoggedIn'' sw' = ''true''"
    "getValue a ''userId'' sw' = int_to_dec u" by blast
  have "ChatLoginHandler E req (resp, s) = (Ok (), (resp', ?s\<lparr>ct_sessions := sw'\<rparr>))"
    using assms(1-4,6) l
    by (simp add: ChatLoginHandler_def bind_act_def catch_act_def lift_out_def outside_def q Let_def)
  with v show ?thesis by simp
qed

lemma stranded_logout:
  assumes "\<not> not_json_request req" and "js_parse (ce_json E) (req_content req) = Throw e"
    and g: "getSession memory_storage req resp (ct_sessions s) = (a, resp1, sw)"
    and u: "to_int (getValue a ''userId'' sw) = Ok u"
    and d: "js_dump4 (ce_json E) (js_object (ce_json E) (failure_members (ce_json E) e)) = Ok body"
  shows "\<exists>resp' s'. ChatLogoutHandler E req (resp, s) = (Ok (), (resp', s')) \<and>
    res_statusCode resp' = k400BadRequest \<and> ct_onlineUsers s' = ct_onlineUsers s \<and>
    ses_data (sw_heap (ct_sessions s') a) = Map.empty \<and>
    map_of (sw_store (ct_sessions s')) (ses_id (sw_heap sw a)) = None"
proof -
  let ?sid = "ses_id (sw_heap sw a)"
  let ?sw = "destroySession memory_storage ?sid (clear_session a sw)"
  have "ses_id (sw_heap (clear_session a sw) a) = ?sid"
    by (simp add: clear_session_def update_session_def)
  then have "ChatLogoutHandler E req (resp, s) =
      error_reply (ce_json E) req e (resp1, s\<lparr>ct_sessions := ?sw\<rparr>)"
    using assms(1,2) u
    by (simp add: ChatLogoutHandler_def bind_act_def catch_act_def lift_out_def get_session_run [OF g]
        session_user_run on_sessions_run session_id_of_def with_server_def return_act_def Let_def)
  moreover have "ses_data (sw_heap ?sw a) = Map.empty"
    by (simp add: destroySession_def mem_remove_def clear_session_def update_session_def)
  moreover have "map_of (sw_store ?sw) ?sid = None"
    by (simp add: destroySession_def mem_remove_def map_of_delete delete_conv)
  ultimately show ?thesis
    unfolding error_reply_def using json_reply_run [OF d] by fastforce
qed

section \<open>Conversations belong to one user\<close>

interpretation others_all: login_contract "others_kept u s0" "\<lambda>a. others_kept u s0" "\<lambda>_. ()" E
  for u s0 E
  by unfold_locales (simp_all add: others_kept_def same_core_def)

lemma logged_in_user:
  assumes g: "getSession memory_storage req resp (ct_sessions s) = (a, resp1, sw)"
    and u: "to_int (getValue a ''userId'' sw) = Ok u"
    and keep: "keeps P (f a u)" and P: "P (s\<lparr>ct_sessions := sw\<rparr>)"
  shows "P (snd (snd (logged_in J req (\<lambda>session. bind_act (session_user session) (f session)) (resp, s))))"
proof -
  let ?t = "(resp1, s\<lparr>ct_sessions := sw\<rparr>)"
  have f: "bind_act (session_user a) (f a) ?t = f a u ?t"
    using u by (simp add: bind_act_def session_user_run)
  have "keeps P (catch_act (if c then unauthorized J req else f a u) (error_reply J req))" for c
    by (intro keep_rules keep)
  moreover have "logged_in J req (\<lambda>session. bind_act (session_user session) (f session)) (resp, s) =
      catch_act (if getValue a ''isLoggedIn'' sw \<noteq> ''true'' then unauthorized J req else f a u)
        (error_reply J req) ?t"
    unfolding logged_in_run [OF g] by (simp add: catch_act_def f)
  ultimately show ?thesis using P by (simp add: keeps_def)
qed

lemma routed_private:
  fixes h :: "('j, 'm, 'i, 'f, 'w) page" and E :: "('j, 'm, 'i, 'f, 'w) chat_env"
  assumes route: "(m, path, h) \<in> set chat_routes"
    and g: "getSession memory_storage req resp (ct_sessions s) = (a, resp1, sw)"
    and u: "to_int (getValue a ''userId'' sw) = Ok u" and P: "others_kept u s0 s"
  shows "others_kept u s0 (snd (snd (h E req (resp, s))))"
proof -
  let ?P = "others_kept u s0"
  have Ps: "?P (s\<lparr>ct_sessions := sw\<rparr>)" using P by (simp add: others_kept_def)
  have k: "?P (snd (snd (x E req (resp, s))))" if "keeps ?P (x E req)" for x :: "('j, 'm, 'i, 'f, 'w) page"
    using that P by (simp add: keeps_def)
  have user: "?P (snd (snd (logged_in J req (\<lambda>x. bind_act (session_user x) (f x)) (resp, s))))"
    if "keeps ?P (f a u)" for J :: "'j json_ops" and f
    by (rule logged_in_user [where P = ?P and f = f and s = s, OF g u that Ps])
  have "\<forall>r\<in>set chat_routes. ?P (snd (snd (snd (snd r) E req (resp, s))))"
    unfolding chat_routes_def ChatHandler_def AIMenuHandler_def AIUploadHandler_def
      ChatSendHandler_def ChatHistoryHandler_def ChatCreateAndSendHandler_def
    by (simp add: k others_all.keep_login others_all.keep_logout others_all.keep_pages
        others_all.keep_sessions others_all.keep_upload others_all.keep_speech
        others.keep_register others.keep_entry user others.keep_send others.keep_history
        others.keep_create)
  from bspec [OF this route] show ?thesis by simp
qed

lemma request_private:
  assumes g: "getSession memory_storage req resp (ct_sessions s) = (a, resp1, sw)"
    and u: "to_int (getValue a ''userId'' sw) = Ok u"
  shows "others_kept u s (snd (snd (handleRequest (ChatServer B T X E b) req resp s)))"
proof (rule request_cases)
  show o: "others_kept u s (s\<lparr>ct_origin := getHeader ''Origin'' req\<rparr>)" by (simp add: others_kept_def)
  show "others_kept u s (snd (snd (h E req (resp, s\<lparr>ct_origin := getHeader ''Origin'' req\<rparr>))))"
    if "(req_method req, req_path req, h) \<in> set chat_routes" for h
    by (rule routed_private [OF that _ u o]) (simp add: g)
qed

section \<open>Restoring the conversations at the start\<close>

inductive rows_of :: "'w row_ops \<Rightarrow> handle \<Rightarrow> 'w \<Rightarrow> chat_row option list \<Rightarrow> 'w \<Rightarrow> bool" for R res where
  rows_end: "row_next R res w = (Ok False, w') \<Longrightarrow> rows_of R res w [] w'"
| rows_more: "row_next R res w = (Ok True, w1) \<Longrightarrow> read_row R res w1 = (Ok r, w2) \<Longrightarrow>
    rows_of R res w2 rs w' \<Longrightarrow> rows_of R res w (r # rs) w'"

fun readable_rows :: "chat_row option list \<Rightarrow> chat_row list" where
  "readable_rows [] = []"
| "readable_rows (None # rs) = readable_rows rs"
| "readable_rows (Some row # rs) = row # readable_rows rs"

definition with_world :: "'w \<Rightarrow> ('m, 'w) chat_server \<Rightarrow> ('m, 'w) chat_server" where
  "with_world w s = s\<lparr>ct_mq := (ct_mq s)\<lparr>mq_ext := w\<rparr>\<rparr>"

lemma with_world_simps [simp]:
  "with_world w (with_world v s) = with_world w s" "mq_ext (ct_mq (with_world w s)) = w"
  "ct_chatInformation (with_world w s) = ct_chatInformation s"
  "ct_sessionsIds (with_world w s) = ct_sessionsIds s"
  by (simp_all add: with_world_def)

lemma restore_row_world: "restore_row row (with_world w s) = with_world w (restore_row row s)"
  by (cases row) (simp add: restore_row_def with_world_def ensure_helper_def Let_def)

lemma restore_rows_world: "fold restore_row rows (with_world w s) = with_world w (fold restore_row rows s)"
  by (induction rows arbitrary: s) (simp_all add: restore_row_world)

lemma outside_world: "m (mq_ext (ct_mq s)) = (r, w) \<Longrightarrow> outside m (resp, s) = (r, (resp, with_world w s))"
  by (simp add: outside_def with_world_def)

lemma read_rows_fold:
  assumes "rows_of R res w rs w'" and "mq_ext (ct_mq s) = w"
  shows "read_rows R res (resp, s) =
    Some (Ok (), (resp, with_world w' (fold restore_row (readable_rows rs) s)))"
  using assms
proof (induction arbitrary: s rule: rows_of.induct)
  case (rows_end w w')
  then have "outside (row_next R res) (resp, s) = (Ok False, (resp, with_world w' s))"
    by (intro outside_world) simp
  then show ?case by (subst read_rows.simps) simp
next
  case (rows_more w w1 r w2 rs w')
  have 1: "outside (row_next R res) (resp, s) = (Ok True, (resp, with_world w1 s))"
    using rows_more by (intro outside_world) simp
  have 2: "outside (read_row R res) (resp, with_world w1 s) = (Ok r, (resp, with_world w2 s))"
    using rows_more outside_world [of "read_row R res" "with_world w1 s" "Ok r" w2 resp] by simp
  show ?case
  proof (cases r)
    case None
    then show ?thesis using 1 2 rows_more.IH [of "with_world w2 s"]
      by (subst read_rows.simps) (simp add: restore_rows_world)
  next
    case (Some row)
    then show ?thesis using 1 2 rows_more.IH [of "with_world w2 (restore_row row s)"]
      by (subst read_rows.simps) (simp add: restore_rows_world restore_row_world)
  qed
qed

text \<open>What the rows say: the messages of a conversation, the conversations of a user in the order of
  their first messages.\<close>

definition conversation_rows :: "int \<Rightarrow> bytes \<Rightarrow> chat_row list \<Rightarrow> message list" where
  "conversation_rows u sid rows =
     map (\<lambda>(i, sd, c, t). (c, t)) (filter (\<lambda>(i, sd, c, t). int32 i = u \<and> sd = sid) rows)"

definition first_seen :: "int \<Rightarrow> chat_row list \<Rightarrow> bytes list" where
  "first_seen u rows =
     rev (remdups (rev (map (\<lambda>(i, sd, c, t). sd) (filter (\<lambda>(i, sd, c, t). int32 i = u) rows))))"

lemma restore_row_effect:
  "ct_chatInformation (restore_row (i, sd, c, t) s) u sid =
     (if int32 i = u \<and> sd = sid
      then Some (restoreMessage c t
             (case ct_chatInformation s u sid of None \<Rightarrow> new_helper | Some h \<Rightarrow> h))
      else ct_chatInformation s u sid)"
  "ct_sessionsIds (restore_row (i, sd, c, t) s) u =
     (if int32 i = u \<and> ct_chatInformation s u sd = None then ct_sessionsIds s u @ [sd]
      else ct_sessionsIds s u)"
  by (auto simp: restore_row_def ensure_helper_def Let_def split: option.split)

lemma restored:
  assumes "ct_chatInformation s = (\<lambda>_. Map.empty)" and "ct_sessionsIds s = (\<lambda>_. [])"
  shows "ct_chatInformation (fold restore_row rows s) u sid =
      (if conversation_rows u sid rows = [] then None
       else Some (new_helper\<lparr>ah_messages := conversation_rows u sid rows\<rparr>)) \<and>
    ct_sessionsIds (fold restore_row rows s) u = first_seen u rows"
proof (induction rows arbitrary: u sid rule: rev_induct)
  case Nil
  then show ?case using assms by (simp add: conversation_rows_def first_seen_def)
next
  case (snoc row rows)
  obtain i sd c t where row: "row = (i, sd, c, t)" by (metis surj_pair)
  let ?s = "fold restore_row rows s"
  have empty: "conversation_rows u sid rows = [] \<longleftrightarrow> sid \<notin> set (first_seen u rows)" for u sid
    by (force simp: conversation_rows_def first_seen_def filter_empty_conv)
  have ids: "first_seen u (rows @ [row]) =
      (if int32 i = u \<and> sd \<notin> set (first_seen u rows) then first_seen u rows @ [sd]
       else first_seen u rows)" for u
    by (auto simp: first_seen_def row)
  have msgs: "conversation_rows u sid (rows @ [row]) = conversation_rows u sid rows @
      (if int32 i = u \<and> sd = sid then [(c, t)] else [])" for u sid
    by (simp add: conversation_rows_def row)
  have "ct_chatInformation (fold restore_row (rows @ [row]) s) u sid =
      (if conversation_rows u sid (rows @ [row]) = [] then None
       else Some (new_helper\<lparr>ah_messages := conversation_rows u sid (rows @ [row])\<rparr>))"
    using snoc.IH [of u sid]
    by (auto simp: row restore_row_effect restoreMessage_def new_helper_def msgs [unfolded row])
  moreover have "ct_sessionsIds (fold restore_row (rows @ [row]) s) u = first_seen u (rows @ [row])"
    using snoc.IH [of u sd] empty [of u sd] by (auto simp: row restore_row_effect ids [unfolded row])
  ultimately show ?case by blast
qed

lemma restored_from_rows:
  assumes "my_query M history_query [] (mq_ext (ct_mq s)) = (Ok res, w1)"
    and "rows_of (my_rows M) res w1 rs w2"
    and "ct_chatInformation s = (\<lambda>_. Map.empty)" and "ct_sessionsIds s = (\<lambda>_. [])"
  shows "\<exists>s'. initChatMessage M (resp, s) = Some (Ok (), (resp, s')) \<and>
    (\<forall>u sid. helper_messages u sid s' = conversation_rows u sid (readable_rows rs)) \<and>
    (\<forall>u. ct_sessionsIds s' u = first_seen u (readable_rows rs)) \<and> ct_sessions s' = ct_sessions s \<and>
    world_of s' = w2"
proof -
  let ?s = "fold restore_row (readable_rows rs) s"
  have q: "outside (my_query M history_query []) (resp, s) = (Ok res, (resp, with_world w1 s))"
    using assms(1) by (rule outside_world)
  have "read_rows (my_rows M) res (resp, with_world w1 s) = Some (Ok (), (resp, with_world w2 ?s))"
    using read_rows_fold [OF assms(2), of "with_world w1 s" resp] by (simp add: restore_rows_world)
  then have "initChatMessage M (resp, s) = Some (Ok (), (resp, with_world w2 ?s))"
    by (simp add: initChatMessage_def readDataFromMySQL_def q)
  moreover have "ct_sessions (fold restore_row rows s) = ct_sessions s" for rows
    by (induction rows rule: rev_induct) (auto simp: restore_row_def ensure_helper_def Let_def split: prod.split)
  moreover have "helper_messages u sid (with_world w2 ?s) = conversation_rows u sid (readable_rows rs)" for u sid
    using restored [OF assms(3,4), of "readable_rows rs" u sid]
    by (simp add: helper_messages_def GetMessages_def new_helper_def)
  ultimately show ?thesis
    using restored [OF assms(3,4), of "readable_rows rs"] by (auto simp: with_world_def world_of_def)
qed

end
