(* ===== verification/App_Properties.thy ===== *)
theory App_Properties
  imports Chat_Behaviour Ssl_Properties
begin

section \<open>A small application to apply the properties to\<close>

text \<open>
  Every text is an object with the fields given (but \<open>{\<close>, which is not JSON), one user \<open>ann\<close> with the
  password \<open>secret\<close> and the number 7 is in the database, and a client holds the session \<open>s1\<close>.
\<close>

type_synonym toy_world = "nat \<times> bytes list"

definition form_json :: "(bytes \<times> simple_json) list \<Rightarrow> simple_json json_ops" where
  "form_json form = simple_ops
     (\<lambda>t. if t = ''{'' then Throw ''parse_error'' else Ok (SObject form)) (\<lambda>j. Ok ''{}'')"

definition toy_rows :: "bytes \<Rightarrow> toy_world row_ops" where
  "toy_rows stored = \<lparr>row_next = (\<lambda>h. return_act True), row_getString = (\<lambda>h c. return_act stored),
     row_getInt = (\<lambda>h c. return_act 7), row_getInt64 = (\<lambda>h c. return_act 7)\<rparr>"

definition toy_mysql :: "bytes \<Rightarrow> toy_world mysql_ops" where
  "toy_mysql stored = \<lparr>my_init = (\<lambda>h u p d n. return_act ()), my_query = (\<lambda>sql args. return_act 0), my_update = (\<lambda>sql args. return_act 1),
     my_rows = toy_rows stored\<rparr>"

definition plain_crypto :: "toy_world crypto_ops" where
  "plain_crypto = \<lparr>cr_SHA256 = (\<lambda>x. x), 
     cr_PBKDF2 = (\<lambda>p s i n. Some (take n (p @ s @ replicate n (CHR ''0'')))),
     cr_RAND_bytes = (\<lambda>n w. (Some (replicate n (CHR ''x'')), w))\<rparr>"

definition toy_app :: "(bytes \<times> simple_json) list \<Rightarrow> (simple_json, unit, bytes, nat, toy_world) chat_env" where
  "toy_app form = \<lparr>ce_json = form_json form,
     ce_web = toy_web toy_env (\<lambda>_. Ok ''hi'') (\<lambda>_. None),
     ce_mysql = toy_mysql (stored_sha256 ''a'' (sha256Hex plain_crypto (''a'' @ ''secret''))),
     ce_crypto = plain_crypto, ce_images = toy_images\<rparr>"

definition user_sessions :: "(bytes \<rightharpoonup> bytes) \<Rightarrow> mem_store session_world" where
  "user_sessions d = one_session\<lparr>sw_heap := (\<lambda>_. \<lparr>ses_id = ''s1'', ses_data = d, ses_expiryTime = 9,
     ses_maxAge = 3600, ses_hasManager = True\<rparr>)\<rparr>"

definition toy_server :: "(bytes \<rightharpoonup> bytes) \<Rightarrow> (unit, toy_world) chat_server" where
  "toy_server d = (new_chat (\<lambda>_. 5) (\<lambda>n. n) (0, []))\<lparr>ct_sessions := user_sessions d,
     ct_onlineUsers := [7 \<mapsto> True]\<rparr>"

definition toy_request :: "http_method \<Rightarrow> bytes \<Rightarrow> bytes \<Rightarrow> http_request" where
  "toy_request m path body = new_request\<lparr>req_method := m, req_path := path, req_content := body,
     req_headers := [to_lower ''Cookie'' \<mapsto> ''sessionId=s1'', to_lower ''Content-Type'' \<mapsto> ''application/json'']\<rparr>"

lemma header_names: "to_lower ''Cookie'' = ''cookie''" "to_lower ''Content-Type'' = ''content-type''"
  "to_lower ''Origin'' = ''origin''"
  by code_simp+

lemma toy_request_simps [simp]:
  "req_method (toy_request m path body) = m" "req_path (toy_request m path body) = path"
  "req_content (toy_request m path body) = body"
  "not_json_request (toy_request m path body) \<longleftrightarrow> body = []"
  by (simp_all add: toy_request_def not_json_request_def getHeader_def header_names)

lemma toy_cookie: "getSessionIdFromCookie (toy_request m path body) = ''s1''"
  by (rule cookie_id [where pre = "[]" and rest = "[]"]) (simp_all add: toy_request_def header_names)

lemma user_session:
  assumes "getSessionIdFromCookie req = ''s1''"
  shows "\<exists>sw. getSession memory_storage req resp (user_sessions d) = (0, resp, sw) \<and>
    (\<forall>k. getValue 0 k sw = (case d k of None \<Rightarrow> [] | Some v \<Rightarrow> v)) \<and> ses_id (sw_heap sw 0) = ''s1''"
proof -
  have "getSession memory_storage req resp (user_sessions d) =
      (0, resp, st_save memory_storage 0 (refresh 0 (setManager 0
        ((user_sessions d)\<lparr>sw_ticks := sw_ticks (user_sessions d) + 2\<rparr>))))"
    by (rule memory.getSession_found [OF _ assms])
      (simp_all add: user_sessions_def one_session_def empty_sessions_def)
  then show ?thesis
    by (auto simp: mem_save_def refresh_def clock_now_def update_session_def setManager_def
        user_sessions_def getValue_def Let_def split: option.split)
qed

lemmas toy_session = user_session [OF toy_cookie]

lemma toy_server_simps [simp]:
  "ct_sessions (toy_server d) = user_sessions d" "ct_onlineUsers (toy_server d) = [7 \<mapsto> True]"
  "mq_ext (ct_mq (toy_server d)) = (0, [])"
  by (simp_all add: toy_server_def new_chat_def initializeSession_def)

lemma to_int_7: "to_int ''7'' = Ok 7"
proof -
  have "nat_to_dec 7 = ''7''" by code_simp
  then show ?thesis using stoi_nat_to_dec [of 7] by (simp add: to_int_def)
qed

lemma toy_app_simps [simp]:
  "js_dump4 (ce_json (toy_app form)) j = Ok ''{}''"
  "js_parse (ce_json (toy_app form)) t = (if t = ''{'' then Throw ''parse_error'' else Ok (SObject form))"
  by (simp_all add: toy_app_def form_json_def simple_ops_def)

lemma toy_query: "queryUserId (toy_app form) ''ann'' ''secret'' (0, []) = (Ok 7, (0, []))"
proof -
  let ?stored = "stored_sha256 ''a'' (sha256Hex plain_crypto (''a'' @ ''secret''))"
  have "verifyLegacySha256 plain_crypto ''secret'' ?stored"
    by (subst verifyLegacy_stored) simp_all
  moreover have "\<not> verifyPbkdf2 plain_crypto ''secret'' ?stored"
    by (simp add: verifyPbkdf2_def starts_with_conflict)
  moreover obtain h where "hashPassword plain_crypto ''secret'' (0, []) = (Ok h, (0, []))" "h \<noteq> []"
    by (simp add: hashPassword_def plain_crypto_def)
  ultimately have "verifyPassword plain_crypto ''secret'' ?stored True (0, []) = (Ok (True, Some h), (0, []))"
    by (simp add: verifyPassword_def bind_act_def return_act_def)
  then show ?thesis using \<open>h \<noteq> []\<close>
    by (simp add: queryUserId_def next_row_def toy_app_def toy_mysql_def toy_rows_def bind_act_def
        return_act_def)
qed

section \<open>Properties of the application\<close>

subsection \<open>The shared state\<close>

text \<open>Whatever requests a new server is sent, its shared state stays well formed: every session id
  leads to a session that carries it, no conversation is listed twice for a user, and every listed
  conversation exists.\<close>

theorem application_state_well_formed:
  "chat_ok (serve_all (ChatServer B T X E reusePort) reqs (new_chat time rand w))"
  by (rule serve_all_keeps [OF request_keeps_ok chat_ok_new])

subsection \<open>Access\<close>

text \<open>C10: on every route but the page at \<open>/\<close>, \<open>/entry\<close>, \<open>/login\<close>, \<open>/register\<close> and \<open>/user/logout\<close>, a
  request whose session is not logged in gets a 401, and nothing but the session store (and the
  remembered origin) changes: no conversation, no statement, no call outside.\<close>

theorem protected_routes:
  fixes h :: "('j, 'm, 'i, 'f, 'w) page" and E :: "('j, 'm, 'i, 'f, 'w) chat_env"
  assumes "(m, path, h) \<in> set chat_routes" and "path \<notin> set public_paths"
    and "req_method req = m" "req_path req = path"
    and "getSession memory_storage req resp (ct_sessions s) = (a, resp1, sw)"
    and "getValue a ''isLoggedIn'' sw \<noteq> ''true''"
    and "js_dump4 (ce_json E) (js_object (ce_json E) (failure_members (ce_json E) ''Unauthorized'')) = Ok body"
  shows "\<exists>resp'. handleRequest (ChatServer B T X E reusePort) req resp s =
      (Ok (), resp', s\<lparr>ct_sessions := sw, ct_origin := getHeader ''Origin'' req\<rparr>) \<and>
    res_statusCode resp' = k401Unauthorized \<and> res_body resp' = body"
  using guard_refuses [OF assms] by blast

theorem protected_routes_witness:
  "\<exists>resp' s'. handleRequest (ChatServer string_buffer null_tls no_regex (toy_app []) False)
      (toy_request kPost ''/chat/send'' ''{}'') (new_response False) (toy_server Map.empty) = (Ok (), resp', s') \<and>
    res_statusCode resp' = k401Unauthorized \<and> ct_chatInformation s' = (\<lambda>_. Map.empty)"
proof -
  let ?req = "toy_request kPost ''/chat/send'' ''{}''"
  obtain sw where g: "getSession memory_storage ?req (new_response False) (ct_sessions (toy_server Map.empty)) =
      (0, new_response False, sw)" and v: "getValue 0 ''isLoggedIn'' sw = []"
    using toy_session [of kPost "''/chat/send''" "''{}''" "new_response False" Map.empty] by auto
  have "(kPost, ''/chat/send'', ChatSendHandler) \<in> set chat_routes" by (simp add: chat_routes_def)
  from protected_routes [OF this _ _ _ g, of "toy_app []" "''{}''" string_buffer null_tls no_regex False] v
  show ?thesis
    by (auto simp: public_paths_def toy_server_def new_chat_def initializeSession_def)
qed

text \<open>C11: a request to any route changes conversations, and the list of them, only of the user its
  session belongs to.\<close>

theorem conversations_private:
  assumes "getSession memory_storage req resp (ct_sessions s) = (a, resp1, sw)"
    and "to_int (getValue a ''userId'' sw) = Ok u" and "v \<noteq> u"
    and "handleRequest (ChatServer B T X E reusePort) req resp s = (r, resp', s')"
  shows "ct_chatInformation s' v = ct_chatInformation s v \<and> ct_sessionsIds s' v = ct_sessionsIds s v"
  using request_private [OF assms(1,2), of B T X E reusePort] assms(3,4)
  by (simp add: others_kept_def)

theorem conversations_private_witness:
  "\<exists>r resp' s'. handleRequest (ChatServer string_buffer null_tls no_regex (toy_app []) False)
      (toy_request kPost ''/chat/send'' ''x'') (new_response False)
      (toy_server [''userId'' \<mapsto> ''7'', ''isLoggedIn'' \<mapsto> ''true'']) = (r, resp', s') \<and>
    ct_chatInformation s' 8 = Map.empty"
proof -
  let ?req = "toy_request kPost ''/chat/send'' ''x''"
    and ?s = "toy_server [''userId'' \<mapsto> ''7'', ''isLoggedIn'' \<mapsto> ''true'']"
  obtain sw where g: "getSession memory_storage ?req (new_response False) (ct_sessions ?s) =
      (0, new_response False, sw)" and v: "getValue 0 ''userId'' sw = ''7''"
    using toy_session [of kPost "''/chat/send''" "''x''" "new_response False"
        "[''userId'' \<mapsto> ''7'', ''isLoggedIn'' \<mapsto> ''true'']"] by auto
  have u: "to_int (getValue 0 ''userId'' sw) = Ok 7" by (simp add: v to_int_7)
  obtain r resp' s' where run: "handleRequest (ChatServer string_buffer null_tls no_regex (toy_app []) False)
      ?req (new_response False) ?s = (r, resp', s')" by (metis prod_cases3)
  from conversations_private [OF g u _ run, of 8] have "ct_chatInformation s' 8 = Map.empty"
    by (simp add: toy_server_def new_chat_def initializeSession_def)
  with run show ?thesis by blast
qed

subsection \<open>Logging in and out\<close>

text \<open>C37: a login with the right password of a user who is online elsewhere is answered 403, but the
  session of the request was marked as logged in as that user before the check: its next requests
  pass the test of the protected routes.\<close>

theorem refused_login_logs_in:
  assumes "\<not> not_json_request req" and "js_parse (ce_json E) (req_content req) = Ok parsed"
    and "string_field (ce_json E) ''username'' parsed = Ok name"
    and "string_field (ce_json E) ''password'' parsed = Ok password"
    and "queryUserId E name password (mq_ext (ct_mq s)) = (Ok u, w)" and "u \<noteq> - 1"
    and "ct_onlineUsers s u = Some True"
    and "getSession memory_storage req resp (ct_sessions s) = (a, resp1, sw)"
    and "js_dump4 (ce_json E) (js_object (ce_json E) (refused_members (ce_json E))) = Ok body"
  shows "\<exists>resp' s'. ChatLoginHandler E req (resp, s) = (Ok (), (resp', s')) \<and>
    res_statusCode resp' = k403Forbidden \<and>
    getValue a ''isLoggedIn'' (ct_sessions s') = ''true'' \<and>
    getValue a ''userId'' (ct_sessions s') = int_to_dec u \<and> ct_onlineUsers s' = ct_onlineUsers s"
  using assms by (rule refused_login)

theorem refused_login_logs_in_witness:
  "\<exists>resp' s'. ChatLoginHandler (toy_app [(''username'', SString ''ann''), (''password'', SString ''secret'')])
      (toy_request kPost ''/login'' ''x'') (new_response False, toy_server Map.empty) = (Ok (), (resp', s')) \<and>
    res_statusCode resp' = k403Forbidden \<and> getValue 0 ''isLoggedIn'' (ct_sessions s') = ''true''"
proof -
  let ?f = "[(''username'', SString ''ann''), (''password'', SString ''secret'')]"
  let ?req = "toy_request kPost ''/login'' ''x''"
  have laws: "json_laws (ce_json (toy_app ?f))"
    by (simp add: toy_app_def form_json_def simple_json_laws)
  have obj: "SObject ?f = js_object (ce_json (toy_app ?f)) ?f"
    and str: "SString x = js_string (ce_json (toy_app ?f)) x" for x
    by (simp_all add: toy_app_def form_json_def simple_ops_def)
  have forms: "string_field (ce_json (toy_app ?f)) ''username'' (SObject ?f) = Ok ''ann''"
    "string_field (ce_json (toy_app ?f)) ''password'' (SObject ?f) = Ok ''secret''"
    unfolding obj by (rule json_string_field(1) [OF laws]; simp add: str [symmetric])+
  obtain sw where g: "getSession memory_storage ?req (new_response False) (ct_sessions (toy_server Map.empty)) =
      (0, new_response False, sw)"
    using toy_session [of kPost "''/login''" "''x''" "new_response False" Map.empty] by auto
  have "queryUserId (toy_app ?f) ''ann'' ''secret'' (mq_ext (ct_mq (toy_server Map.empty))) = (Ok 7, (0, []))"
    by (simp add: toy_query)
  from refused_login_logs_in [OF _ _ forms this _ _ g, of "''{}''"] show ?thesis by auto
qed

text \<open>A logout whose body is not JSON is answered 400, but only after the session was emptied and
  destroyed and before the user is taken off the online users: the user has no session left and
  stays online, and can only get a 403 for a login from then on.\<close>

theorem logout_strands_user:
  assumes "\<not> not_json_request req" and "js_parse (ce_json E) (req_content req) = Throw e"
    and "getSession memory_storage req resp (ct_sessions s) = (a, resp1, sw)"
    and "to_int (getValue a ''userId'' sw) = Ok u"
    and "js_dump4 (ce_json E) (js_object (ce_json E) (failure_members (ce_json E) e)) = Ok body"
  shows "\<exists>resp' s'. ChatLogoutHandler E req (resp, s) = (Ok (), (resp', s')) \<and>
    res_statusCode resp' = k400BadRequest \<and> ct_onlineUsers s' = ct_onlineUsers s \<and>
    ses_data (sw_heap (ct_sessions s') a) = Map.empty \<and>
    map_of (sw_store (ct_sessions s')) (ses_id (sw_heap sw a)) = None"
  using assms by (rule stranded_logout)

theorem logout_strands_user_witness:
  "\<exists>resp' s'. ChatLogoutHandler (toy_app []) (toy_request kPost ''/user/logout'' ''{'')
      (new_response False, toy_server [''userId'' \<mapsto> ''7'']) = (Ok (), (resp', s')) \<and>
    ct_onlineUsers s' 7 = Some True \<and> map_of (sw_store (ct_sessions s')) ''s1'' = None"
proof -
  let ?req = "toy_request kPost ''/user/logout'' ''{''" and ?s = "toy_server [''userId'' \<mapsto> ''7'']"
  obtain sw where g: "getSession memory_storage ?req (new_response False) (ct_sessions ?s) =
      (0, new_response False, sw)" and v: "getValue 0 ''userId'' sw = ''7''" and i: "ses_id (sw_heap sw 0) = ''s1''"
    using toy_session [of kPost "''/user/logout''" "''{''" "new_response False" "[''userId'' \<mapsto> ''7'']"] by auto
  have u: "to_int (getValue 0 ''userId'' sw) = Ok 7" by (simp add: v to_int_7)
  from logout_strands_user [OF _ _ g u, of "toy_app []" "''parse_error''" "''{}''"] i show ?thesis by auto
qed

subsection \<open>Restarting\<close>

text \<open>At the start every conversation is restored from the rows that can be read, with its messages
  in the order of the rows, and each user's conversations are listed in the order of their first
  rows.\<close>

theorem restart_restores:
  assumes "my_query M history_query [] (mq_ext (ct_mq s)) = (Ok res, w1)"
    and "rows_of (my_rows M) res w1 rs w2"
    and "ct_chatInformation s = (\<lambda>_. Map.empty)" and "ct_sessionsIds s = (\<lambda>_. [])"
  shows "\<exists>s'. initChatMessage M (resp, s) = Some (Ok (), (resp, s')) \<and>
    (\<forall>u sid. helper_messages u sid s' = conversation_rows u sid (readable_rows rs)) \<and>
    (\<forall>u. ct_sessionsIds s' u = first_seen u (readable_rows rs)) \<and> ct_sessions s' = ct_sessions s"
  using restored_from_rows [OF assms] by blast

definition two_rows :: "nat mysql_ops" where
  \<comment> \<open>two messages of user 7 in the conversation \<open>1\<close>\<close>
  "two_rows = \<lparr>my_init = (\<lambda>h u p d n. return_act ()), my_query = (\<lambda>sql args. return_act 0), my_update = (\<lambda>sql args. return_act 0),
     my_rows = \<lparr>row_next = (\<lambda>h n. (Ok (n < 2), n + 1)),
       row_getString = (\<lambda>h c n. (Ok (if c = ''session_id'' then ''1'' else if n = 1 then ''hello'' else ''hi''), n)),
       row_getInt = (\<lambda>h c. return_act 1), row_getInt64 = (\<lambda>h c. return_act 7)\<rparr>\<rparr>"

theorem restart_restores_witness:
  "\<exists>s'. initChatMessage two_rows (new_response False, (new_chat (\<lambda>_. 5) (\<lambda>n. n) 0 :: (unit, nat) chat_server)) =
      Some (Ok (), (new_response False, s')) \<and>
    helper_messages 7 ''1'' s' = [(''hello'', 7), (''hi'', 7)] \<and> ct_sessionsIds s' 7 = [''1'']"
proof -
  let ?s = "new_chat (\<lambda>_. 5) (\<lambda>n. n) 0 :: (unit, nat) chat_server"
  let ?rows = "[Some (7, ''1'', ''hello'', 7), Some (7, ''1'', ''hi'', 7)]"
  have s: "ct_chatInformation ?s = (\<lambda>_. Map.empty)" "ct_sessionsIds ?s = (\<lambda>_. [])" "mq_ext (ct_mq ?s) = 0"
    by (simp_all add: new_chat_def initializeSession_def)
  have row: "read_row (my_rows two_rows) 0 n =
      (Ok (Some (7, ''1'', if n = 1 then ''hello'' else ''hi'', 7)), n)" for n
    by (simp add: read_row_def two_rows_def catch_act_def bind_act_def return_act_def)
  have "rows_of (my_rows two_rows) 0 2 [] 3"
    by (rule rows_end) (simp add: two_rows_def)
  then have "rows_of (my_rows two_rows) 0 1 [Some (7, ''1'', ''hi'', 7)] 3"
    by (intro rows_more [of _ _ 1 2 _ 2]) (simp_all add: row, simp add: two_rows_def)
  then have "rows_of (my_rows two_rows) 0 0 ?rows 3"
    by (intro rows_more [of _ _ 0 1 _ 1]) (simp_all add: row, simp add: two_rows_def)
  moreover have "my_query two_rows history_query [] (mq_ext (ct_mq ?s)) = (Ok 0, 0)"
    by (simp add: two_rows_def return_act_def s)
  ultimately obtain s' where "initChatMessage two_rows (new_response False, ?s) = Some (Ok (), (new_response False, s'))"
    "helper_messages 7 ''1'' s' = conversation_rows 7 ''1'' (readable_rows ?rows)"
    "ct_sessionsIds s' 7 = first_seen 7 (readable_rows ?rows)"
    using restart_restores [of two_rows ?s 0 0 ?rows 3 "new_response False"] s by blast
  moreover have "int32 7 = 7" by (simp add: int32_def)
  ultimately show ?thesis by (auto simp: conversation_rows_def first_seen_def)
qed

end
