(* ===== verification/AI_Publication.thy ===== *)
theory AI_Publication
  imports AI_Helper_Properties Silent_Calls
begin

section \<open>What a conversation publishes\<close>

text \<open>
  \<open>does R m\<close>: whether the action \<open>m\<close> returns, throws or ends the process, \<open>R\<close> relates the states
  before and after.  A conversation asks the model and adds messages; \<open>conversation_contract\<close> collects
  what \<open>R\<close> has to allow for a chat to keep it.

  A message that is added is published as a statement with the same text and time; the prompts for
  the model with tools have the time 0 and are not published.  \<open>speaks\<close> relates the states before
  and after: the same messages were added to the conversation and to the log of publications, up to
  prompts and to publications that threw, whether the call returned, threw or ended the process.
\<close>

definition spoken :: "message list \<Rightarrow> message list" where
  \<comment> \<open>without the prompts\<close>
  "spoken ms = filter (\<lambda>m. snd m \<noteq> 0) ms"

lemma spoken_simps [simp]:
  "spoken [] = []" "spoken (xs @ ys) = spoken xs @ spoken ys"
  "spoken [(t, 0)] = []" "n \<noteq> 0 \<Longrightarrow> spoken [(t, n)] = [(t, n)]"
  by (simp_all add: spoken_def)

subsection \<open>What a chat does\<close>

definition does :: "('s \<Rightarrow> 's \<Rightarrow> bool) \<Rightarrow> ('e, 's, 'a) action \<Rightarrow> bool" where
  "does R m \<longleftrightarrow> (\<forall>s. R s (snd (m s)))"

lemma doesD: "does R m \<Longrightarrow> m s = (r, s') \<Longrightarrow> R s s'"
  unfolding does_def by (metis snd_conv)

lemma doesI: "(\<And>s r s'. m s = (r, s') \<Longrightarrow> R s s') \<Longrightarrow> does R m"
  unfolding does_def by (metis snd_conv surj_pair)

lemma does_if: "does R a \<Longrightarrow> does R b \<Longrightarrow> does R (if c then a else b)"
  by simp

lemma does_sum:
  "(\<And>x. does R (f x)) \<Longrightarrow> (\<And>y. does R (g y)) \<Longrightarrow> does R (case r of Inl x \<Rightarrow> f x | Inr y \<Rightarrow> g y)"
  by (cases r) simp_all

lemma does_pair: "(\<And>a b. does R (f a b)) \<Longrightarrow> does R (case p of (a, b) \<Rightarrow> f a b)"
  by (cases p) simp

lemma does_helper: "(\<And>h. does R (f h)) \<Longrightarrow> does R (with_helper f)"
  by (simp add: does_def with_helper_def)

locale run_contract =
  fixes R :: "'s \<Rightarrow> 's \<Rightarrow> bool"
  assumes R_refl: "R s s"
    and R_trans: "R s s1 \<Longrightarrow> R s1 s2 \<Longrightarrow> R s s2"
begin

lemma does_return: "does R (return_act a)"
  by (simp add: does_def return_act_def R_refl)

lemma does_throw: "does R (throw_act e)"
  by (simp add: does_def throw_act_def R_refl)

lemma does_lift: "does R (lift_out r)"
  by (simp add: does_def lift_out_def R_refl)

lemma does_bind:
  assumes "does R m" and "\<And>a. does R (f a)"
  shows "does R (bind_act m f)"
proof (rule doesI)
  fix s r s'
  assume run: "bind_act m f s = (r, s')"
  obtain r1 s1 where m: "m s = (r1, s1)" by (rule prod.exhaust)
  have 1: "R s s1" by (rule doesD [OF assms(1) m])
  show "R s s'"
  proof (cases r1)
    case (Ok a)
    with run m have "f a s1 = (r, s')" by (simp add: bind_act_def)
    from R_trans [OF 1 doesD [OF assms(2) this]] show ?thesis .
  qed (use run m 1 in \<open>auto simp: bind_act_def\<close>)
qed

lemma does_catch:
  assumes "does R m" and "\<And>e. does R (h e)"
  shows "does R (catch_act m h)"
proof (rule doesI)
  fix s r s'
  assume run: "catch_act m h s = (r, s')"
  obtain r1 s1 where m: "m s = (r1, s1)" by (rule prod.exhaust)
  have 1: "R s s1" by (rule doesD [OF assms(1) m])
  show "R s s'"
  proof (cases r1)
    case (Throw e)
    with run m have "h e s1 = (r, s')" by (simp add: catch_act_def)
    from R_trans [OF 1 doesD [OF assms(2) this]] show ?thesis .
  qed (use run m 1 in \<open>auto simp: catch_act_def\<close>)
qed

lemmas run_rules = does_return does_throw does_lift does_bind does_catch does_if does_sum does_pair

end

lemma silent_getTime: "silent_web log W \<Longrightarrow> silent log (getTime J W args)"
  using silent_webD(5) [of log W]
  by (auto simp: silent_def getTime_def split: prod.split) (metis snd_conv)

lemma silent_invoke:
  assumes "silent_web log W"
  shows "silent log (invoke (AIToolRegistry J W) tool args)"
proof -
  have "silent log (getWeather J W args)"
    unfolding getWeather_def by (intro silent_rules silent_curl_call assms)
  then show ?thesis
    by (auto simp: invoke_def AIToolRegistry_def registerTool_def silent_throw silent_getTime [OF assms])
qed

locale conversation_contract = run_contract R
  for R :: "'w helper_state \<Rightarrow> 'w helper_state \<Rightarrow> bool" +
  fixes log :: "'w \<Rightarrow> 'l" and W :: "'w web_ops" and u :: int and sid :: bytes
  assumes web: "silent_web log W"
    and quiet: "log (mq_ext (snd s')) = log (mq_ext (snd s)) \<Longrightarrow>
      spoken (ah_messages (fst s')) = spoken (ah_messages (fst s)) \<Longrightarrow> R s s'"
    and add: "R s (snd (addMessage W u name is_user message sid s))"
begin

lemma does_web:
  assumes "silent log m"
  shows "does R (on_web m)"
proof (rule doesI)
  fix s r s'
  assume "on_web m s = (r, s')"
  then obtain w where "m (mq_ext (snd s)) = (r, w)" "s' = (fst s, (snd s)\<lparr>mq_ext := w\<rparr>)"
    by (auto simp: on_web_def split: prod.splits)
  with silentD [OF assms] show "R s s'" by (intro quiet) simp_all
qed

lemma does_modify:
  "(\<And>h. spoken (ah_messages (f h)) = spoken (ah_messages h)) \<Longrightarrow> does R (modify_helper f)"
  by (simp add: does_def modify_helper_def quiet)

lemma does_strategy: "(\<And>x. does R (f x)) \<Longrightarrow> does R (strategy_of f)"
  by (auto simp: does_def strategy_of_def R_refl split: option.splits)

lemmas rules = run_rules does_helper does_strategy does_web silent_perform [OF web]
  silent_reading [OF web] silent_invoke [OF web]

lemma does_ask_model: "does R (ask_model J W)"
  unfolding ask_model_def executeCurl_def by (intro rules)

lemma does_ask_once: "does R (ask_once J W prompt)"
proof (rule doesI)
  fix s r s'
  assume run: "ask_once J W prompt s = (r, s')"
  let ?s = "(restoreMessage prompt 0 (fst s), snd s)"
  obtain r1 s1 where m: "ask_model J W ?s = (r1, s1)" by (rule prod.exhaust)
  have "R s ?s" by (rule quiet) (simp_all add: restoreMessage_def)
  with doesD [OF does_ask_model m] have 1: "R s s1" by (blast intro: R_trans)
  show "R s s'"
  proof (cases r1)
    case (Ok a)
    have "ah_messages (fst s1) = ah_messages (fst s) @ [(prompt, 0)]"
      using staysD [OF stays_ask_model m] by (simp add: restoreMessage_def)
    moreover have "s' = (pop_back (fst s1), snd s1)"
      using run m Ok by (simp add: ask_once_def bind_act_def modify_helper_def return_act_def)
    ultimately have "R s1 s'" by (intro quiet) (simp_all add: pop_back_def)
    with 1 show ?thesis by (rule R_trans)
  qed (use run m 1 in \<open>auto simp: ask_once_def bind_act_def modify_helper_def\<close>)
qed

lemma does_add: "does R (addMessage W u name is_user message sid)"
  by (simp add: does_def add)

lemma does_chat: "does R (chat J W u name sid question model)"
proof -
  have ask: "does R (mcp_answer J W question)"
    unfolding mcp_answer_def load_config_def tool_answer_def run_tool_def second_call_def
    by (intro rules does_ask_once)
  have "does R (plain_chat J W u name sid question)"
    unfolding plain_chat_def by (intro rules does_add does_ask_model)
  moreover have "does R (mcp_chat J W u name sid question)"
    unfolding mcp_chat_def add_exchange_def by (intro rules does_add ask)
  moreover have "does R (modify_helper (setStrategy x))" for x
    by (rule does_modify) (simp add: setStrategy_def)
  ultimately show ?thesis
    unfolding chat_def by (intro rules) auto
qed

end

subsection \<open>A chat publishes what it says\<close>

record said =
  sd_user :: int
  sd_name :: bytes
  sd_is_user :: bool
  sd_text :: bytes
  sd_ms :: int
  sd_session :: bytes

definition statement_of :: "said \<Rightarrow> bytes" where
  "statement_of x = insert_statement (sd_user x) (sd_name x) (sd_is_user x) (sd_text x) (sd_ms x) (sd_session x)"

definition message_of :: "said \<Rightarrow> message" where
  "message_of x = (sd_text x, sd_ms x)"

definition of_conversation :: "int \<Rightarrow> bytes \<Rightarrow> said \<Rightarrow> bool" where
  "of_conversation u sid x \<longleftrightarrow> sd_user x = u \<and> sd_session x = sid"

type_synonym saying = "bool \<times> said"    \<comment> \<open>a message, and whether its statement reached the queue\<close>

definition sent :: "saying list \<Rightarrow> said list" where
  "sent xs = map snd (filter fst xs)"

lemma sent_simps [simp]: "sent [] = []" "sent (xs @ ys) = sent xs @ sent ys"
  "sent [(True, x)] = [x]" "sent [(False, x)] = []"
  by (simp_all add: sent_def)

lemma sent_map [simp]: "sent (map (Pair True) xs) = xs" "map snd (map (Pair b) xs) = xs"
  by (induction xs) (auto simp: sent_def)

lemma sent_all: "list_all fst xs \<Longrightarrow> sent xs = map snd xs"
  by (induction xs) (auto simp: sent_def)

lemma sent_list_all: "list_all P (map snd xs) \<Longrightarrow> list_all P (sent xs)"
  by (induction xs) (auto simp: sent_def)

definition records :: "('w \<Rightarrow> bytes list) \<Rightarrow> 'w web_ops \<Rightarrow> bool" where
  \<comment> \<open>\<open>log\<close> is the list of what reached \<open>sql_queue\<close>: a publication that returns has reached it, one that
    throws may have; and the clock is after 1970\<close>
  "records log W \<longleftrightarrow> silent_web log W \<and> (\<forall>w. 0 < fst (wb_now_ms W w)) \<and>
     (\<forall>c m w r w'. wb_publish W c ''sql_queue'' m w = (r, w') \<longrightarrow>
        log w' = log w @ [m] \<or> r \<noteq> Ok () \<and> log w' = log w)"

definition reliable :: "'w web_ops \<Rightarrow> bool" where
  \<comment> \<open>the broker can be reached and takes everything\<close>
  "reliable W \<longleftrightarrow>
     (\<forall>w. \<exists>c w'. wb_channel W w = (Ok c, w')) \<and> (\<forall>c m w. fst (wb_publish W c ''sql_queue'' m w) = Ok ())"

definition speaks ::
    "('w \<Rightarrow> bytes list) \<Rightarrow> 'w web_ops \<Rightarrow> int \<Rightarrow> bytes \<Rightarrow> 'w helper_state \<Rightarrow> 'w helper_state \<Rightarrow> bool" where
  "speaks log W u sid s s' \<longleftrightarrow>
     (\<exists>xs. log (mq_ext (snd s')) = log (mq_ext (snd s)) @ map statement_of (sent xs) \<and>
           spoken (ah_messages (fst s')) = spoken (ah_messages (fst s)) @ map message_of (map snd xs) \<and>
           list_all (of_conversation u sid) (map snd xs) \<and> (reliable W \<longrightarrow> list_all fst xs))"

lemma speaks_same:
  "log (mq_ext (snd s')) = log (mq_ext (snd s)) \<Longrightarrow>
   spoken (ah_messages (fst s')) = spoken (ah_messages (fst s)) \<Longrightarrow> speaks log W u sid s s'"
  unfolding speaks_def by (rule exI [of _ "[]"]) simp

lemma speaks_refl: "speaks log W u sid s s"
  by (rule speaks_same) simp_all

lemma speaks_trans:
  assumes "speaks log W u sid s s1" and "speaks log W u sid s1 s2"
  shows "speaks log W u sid s s2"
proof -
  obtain xs ys where
    "log (mq_ext (snd s1)) = log (mq_ext (snd s)) @ map statement_of (sent xs)"
    "spoken (ah_messages (fst s1)) = spoken (ah_messages (fst s)) @ map message_of (map snd xs)"
    "list_all (of_conversation u sid) (map snd xs)" "reliable W \<longrightarrow> list_all fst xs"
    "log (mq_ext (snd s2)) = log (mq_ext (snd s1)) @ map statement_of (sent ys)"
    "spoken (ah_messages (fst s2)) = spoken (ah_messages (fst s1)) @ map message_of (map snd ys)"
    "list_all (of_conversation u sid) (map snd ys)" "reliable W \<longrightarrow> list_all fst ys"
    using assms unfolding speaks_def by blast
  then show ?thesis unfolding speaks_def by (intro exI [of _ "xs @ ys"]) simp
qed

lemma recordsD:
  assumes "records log W"
  shows "silent_web log W" "0 < fst (wb_now_ms W w)"
    "wb_publish W c ''sql_queue'' m w = (r, w') \<Longrightarrow> log w' = log w @ [m] \<or> r \<noteq> Ok () \<and> log w' = log w"
  using assms by (simp_all add: records_def)

lemma silent_channels: "silent_web log W \<Longrightarrow> create_channels W n pool w = (r, w') \<Longrightarrow> log w' = log w"
proof (induction n arbitrary: pool w)
  case (Suc n)
  obtain r1 w1 where c: "wb_channel W w = (r1, w1)" by (rule prod.exhaust)
  moreover have "log w1 = log w" using c silent_webD(10) [OF Suc.prems(1), of w] by simp
  ultimately show ?case using Suc by (cases r1) (auto simp: bind_act_def)
qed (simp add: return_act_def)

lemma silent_instance: "silent_web log W \<Longrightarrow> mq_instance W q = (r, q') \<Longrightarrow> log (mq_ext q') = log (mq_ext q)"
  by (auto simp: mq_instance_def MQManager_def dest!: silent_channels
      split: option.splits prod.splits outcome.splits)

lemma publish_logs:
  assumes W: "records log W" and run: "publish W ''sql_queue'' m q = (r, q')"
  shows "log (mq_ext q') = log (mq_ext q) @ [m] \<or> r \<noteq> Ok () \<and> log (mq_ext q') = log (mq_ext q)"
proof -
  obtain r1 q1 where i: "mq_instance W q = (r1, q1)" by (rule prod.exhaust)
  note same = silent_instance [OF recordsD(1) [OF W] i]
  show ?thesis
  proof (cases r1)
    case (Ok pool)
    obtain r2 w where p: "wb_publish W (pool ! next_channel kPoolSize (mq_counter q1)) ''sql_queue'' m (mq_ext q1) = (r2, w)"
      by (rule prod.exhaust)
    with run i Ok have "r = r2" "mq_ext q' = w" by (auto simp: publish_def bind_act_def)
    with recordsD(3) [OF W p] same show ?thesis by simp
  qed (use run i same in \<open>auto simp: publish_def bind_act_def\<close>)
qed

lemma publish_reliable:
  assumes "reliable W"
  shows "fst (publish W ''sql_queue'' m q) = Ok ()"
proof -
  have "\<exists>c w'. wb_channel W w = (Ok c, w') \<and> () = ()" for w using assms by (simp add: reliable_def)
  from instance_works [of W "\<lambda>_. ()", OF this] obtain pool q1 where "mq_instance W q = (Ok pool, q1)" by blast
  with assms show ?thesis by (simp add: publish_def bind_act_def reliable_def Let_def split: prod.split) (metis fst_conv)
qed

lemma speaks_addMessage:
  assumes "records log W"
  shows "speaks log W u sid s (snd (addMessage W u name is_user message sid s))"
proof -
  obtain ms w1 where now: "wb_now_ms W (mq_ext (snd s)) = (ms, w1)" by (rule prod.exhaust)
  define x where "x = \<lparr>sd_user = u, sd_name = name, sd_is_user = is_user, sd_text = message, sd_ms = ms,
    sd_session = sid\<rparr>"
  obtain r q where pub: "publish W ''sql_queue'' (statement_of x) ((snd s)\<lparr>mq_ext := w1\<rparr>) = (r, q)"
    by (rule prod.exhaust)
  have log: "log w1 = log (mq_ext (snd s))" "0 < ms"
    using silent_webD(1) [OF recordsD(1) [OF assms], of "mq_ext (snd s)"]
      recordsD(2) [OF assms, of "mq_ext (snd s)"] now by simp_all
  have run: "snd (addMessage W u name is_user message sid s) = (restoreMessage message ms (fst s), q)"
    using pub
    by (simp add: addMessage_def bind_act_def on_web_def now modify_helper_def pushMessageToMysql_def
        on_mq_def statement_of_def x_def)
  have x: "spoken (ah_messages (restoreMessage message ms (fst s))) = spoken (ah_messages (fst s)) @ [message_of x]"
    "of_conversation u sid x"
    using log(2) by (simp_all add: restoreMessage_def message_of_def of_conversation_def x_def)
  from publish_logs [OF assms pub] show ?thesis
  proof
    assume "log (mq_ext q) = log (mq_ext ((snd s)\<lparr>mq_ext := w1\<rparr>)) @ [statement_of x]"
    with x log(1) show ?thesis unfolding speaks_def run by (intro exI [of _ "[(True, x)]"]) simp
  next
    assume "r \<noteq> Ok () \<and> log (mq_ext q) = log (mq_ext ((snd s)\<lparr>mq_ext := w1\<rparr>))"
    moreover from this have "\<not> reliable W"
      using publish_reliable [of W "statement_of x" "(snd s)\<lparr>mq_ext := w1\<rparr>"] pub by auto
    ultimately show ?thesis using x log(1) unfolding speaks_def run by (intro exI [of _ "[(False, x)]"]) simp
  qed
qed

text \<open>Nothing is claimed where nothing is recorded: the view of the world is then empty.\<close>

lemma silent_nothing: "silent_web (\<lambda>_. c) W"
  by (simp add: silent_web_def)

interpretation spoken_chat: conversation_contract "\<lambda>s s'. records log W \<longrightarrow> speaks log W u sid s s'"
    "if records log W then log else (\<lambda>_. [])" W u sid
  for log W u sid
  by unfold_locales
    (auto simp: speaks_refl speaks_addMessage silent_nothing recordsD(1) intro: speaks_trans speaks_same
      split: if_splits)

lemma speaks_chat:
  "records log W \<Longrightarrow> speaks log W u sid s (snd (chat J W u name sid question model s))"
  using doesD [OF spoken_chat.does_chat [of log W u sid J name question model] surjective_pairing] by blast

subsection \<open>A chat leaves the rest alone\<close>

definition beside :: "('w \<Rightarrow> 'r) \<Rightarrow> 'w web_ops \<Rightarrow> bool" where
  \<comment> \<open>neither the calls nor the publications change \<open>rest\<close>\<close>
  "beside rest W \<longleftrightarrow> silent_web rest W \<and> (\<forall>c queue m w. rest (snd (wb_publish W c queue m w)) = rest w)"

lemma beside_publish:
  assumes "beside rest W"
  shows "rest (mq_ext (snd (publish W queue m q))) = rest (mq_ext q)"
proof -
  obtain r1 q1 where i: "mq_instance W q = (r1, q1)" by (rule prod.exhaust)
  then have "rest (mq_ext q1) = rest (mq_ext q)" using silent_instance assms unfolding beside_def by blast
  with i show ?thesis
    using assms by (cases r1) (auto simp: publish_def bind_act_def beside_def Let_def split: prod.splits, metis snd_conv)
qed

lemma beside_addMessage:
  assumes "beside rest W"
  shows "rest (mq_ext (snd (snd (addMessage W u name is_user message sid s)))) = rest (mq_ext (snd s))"
proof -
  obtain ms w1 where now: "wb_now_ms W (mq_ext (snd s)) = (ms, w1)" by (rule prod.exhaust)
  have "rest w1 = rest (mq_ext (snd s))"
    using assms silent_webD(1) [of rest W "mq_ext (snd s)"] now by (simp add: beside_def)
  with now beside_publish [OF assms] show ?thesis
    by (auto simp: addMessage_def bind_act_def on_web_def modify_helper_def pushMessageToMysql_def
        on_mq_def split: prod.split) (metis mq_world.select_convs(3) mq_world.surjective mq_world.update_convs(3) snd_conv)
qed

interpretation chat_beside: conversation_contract
    "\<lambda>s s'. beside rest W \<longrightarrow> Some (rest (mq_ext (snd s'))) = Some (rest (mq_ext (snd s)))"
    "if beside rest W then (\<lambda>w. Some (rest w)) else (\<lambda>_. None)" W u sid
  for rest W u sid
  by unfold_locales
    (auto simp: beside_addMessage silent_nothing beside_def silent_web_def split: if_splits)

lemma beside_chat:
  "beside rest W \<Longrightarrow>
    rest (mq_ext (snd (snd (chat J W u name sid question model s)))) = rest (mq_ext (snd s))"
  using doesD [OF chat_beside.does_chat surjective_pairing, of rest W J u name sid question model s] by blast

end
