(* ===== verification/Chat_Publication.thy ===== *)
theory Chat_Publication
  imports Chat_Behaviour AI_Publication
begin

section \<open>The application publishes what is said\<close>

text \<open>
  \<open>published\<close> relates the states before and after any requests: what was added to the log of
  publications is what was added to the conversations, each statement naming its user and its
  conversation.  The view \<open>view_of\<close> is \<open>log\<close> in an environment that records its publications, and
  nothing in any other, where there is nothing to show.
\<close>

definition recorded :: "('w \<Rightarrow> bytes list) \<Rightarrow> ('j, 'm, 'i, 'f, 'w) chat_env \<Rightarrow> bool" where
  "recorded log E \<longleftrightarrow> records log (ce_web E) \<and> silent_env log E"

definition view_of :: "('w \<Rightarrow> bytes list) \<Rightarrow> ('j, 'm, 'i, 'f, 'w) chat_env \<Rightarrow> 'w \<Rightarrow> bytes list" where
  "view_of log E = (if recorded log E then log else (\<lambda>_. []))"

definition told ::
    "('w \<Rightarrow> bytes list) \<Rightarrow> ('m, 'w) chat_server \<Rightarrow> ('m, 'w) chat_server \<Rightarrow> saying list \<Rightarrow> bool" where
  "told log s s' xs \<longleftrightarrow>
     log (world_of s') = log (world_of s) @ map statement_of (sent xs) \<and>
     (\<forall>u sid. spoken (helper_messages u sid s') =
        spoken (helper_messages u sid s) @ map message_of (filter (of_conversation u sid) (map snd xs))) \<and>
     list_all (\<lambda>x. int32 (sd_user x) = sd_user x) (map snd xs)"

definition published ::
    "('w \<Rightarrow> bytes list) \<Rightarrow> ('j, 'm, 'i, 'f, 'w) chat_env \<Rightarrow> ('m, 'w) chat_server \<Rightarrow>
      ('m, 'w) chat_server \<Rightarrow> bool" where
  "published log E s s' \<longleftrightarrow> (recorded log E \<longrightarrow>
     (\<exists>xs. told log s s' xs \<and> (reliable (ce_web E) \<longrightarrow> list_all fst xs)))"

lemma view_silent: "silent_env (view_of log E) E"
  by (simp add: view_of_def recorded_def)
    (simp add: silent_env_def silent_web_def silent_mysql_def silent_images_def silent_def)

lemma helper_messages_same:
  "ct_chatInformation s' = ct_chatInformation s \<Longrightarrow> helper_messages u sid s' = helper_messages u sid s"
  by (simp add: helper_messages_def)

lemma helper_messages_new [simp]:
  "helper_messages v sd (ensure_helper u sid s) = helper_messages v sd s"
  "helper_messages v sd (list_session u sid s) = helper_messages v sd s"
  "world_of (ensure_helper u sid s) = world_of s" "world_of (list_session u sid s) = world_of s"
  by (auto simp: helper_messages_def ensure_helper_def list_session_def new_helper_def GetMessages_def
      world_of_def split: option.split)

lemma published_same:
  assumes "published log E s0 s" and "recorded log E \<Longrightarrow> log (world_of s') = log (world_of s)"
    and "\<And>u sid. helper_messages u sid s' = helper_messages u sid s"
  shows "published log E s0 s'"
  using assms by (simp add: published_def told_def)

lemma published_core:
  assumes "published log E s0 s" and "same_core s s'"
    and "view_of log E (world_of s') = view_of log E (world_of s)"
  shows "published log E s0 s'"
  using assms(2,3)
  by (intro published_same [OF assms(1)]) (simp_all add: view_of_def same_core_def helper_messages_def)

lemma int32_int32 [simp]: "int32 (int32 u) = int32 u"
  by (simp add: int32_def)

lemma published_chat:
  assumes "published log E s0 s" and h: "ct_chatInformation s (int32 u) sid = Some h"
    and "recorded log E \<longrightarrow> speaks log (ce_web E) (int32 u) sid (h, ct_mq s) (h', q)"
  shows "published log E s0 (s\<lparr>ct_chatInformation := (ct_chatInformation s)
    (int32 u := (ct_chatInformation s (int32 u))(sid \<mapsto> h')), ct_mq := q\<rparr>)" (is "published log E s0 ?s")
proof (unfold published_def, rule impI)
  assume E: "recorded log E"
  with assms(1) obtain xs where xs: "told log s0 s xs" "reliable (ce_web E) \<longrightarrow> list_all fst xs"
    by (auto simp: published_def)
  from assms(3) E obtain ys where ys:
    "log (mq_ext q) = log (world_of s) @ map statement_of (sent ys)"
    "spoken (ah_messages h') = spoken (ah_messages h) @ map message_of (map snd ys)"
    "list_all (of_conversation (int32 u) sid) (map snd ys)" "reliable (ce_web E) \<longrightarrow> list_all fst ys"
    by (auto simp: speaks_def world_of_def)
  have own: "filter (of_conversation v sd) (map snd ys) = (if v = int32 u \<and> sd = sid then map snd ys else [])" for v sd
    using ys(3) by (induction ys) (auto simp: of_conversation_def)
  have "list_all (\<lambda>x. int32 (sd_user x) = sd_user x) (map snd ys)"
    using ys(3) by (auto simp: list_all_iff of_conversation_def)
  moreover have "helper_messages v sd ?s =
      (if v = int32 u \<and> sd = sid then ah_messages h' else helper_messages v sd s)" for v sd
    by (auto simp: helper_messages_def GetMessages_def)
  moreover have "ah_messages h = helper_messages (int32 u) sid s"
    using h by (simp add: helper_messages_def GetMessages_def)
  ultimately have "told log s0 ?s (xs @ ys)"
    using xs(1) ys(1,2) by (auto simp: told_def world_of_def filter_append own simp del: filter_map map_map)
  with xs(2) ys(4) show "\<exists>xs. told log s0 ?s xs \<and> (reliable (ce_web E) \<longrightarrow> list_all fst xs)"
    by (intro exI [of _ "xs @ ys"]) simp
qed

interpretation pub: login_contract "published log E s0" "\<lambda>a. published log E s0" "view_of log E" E
  for log s0 E
  by unfold_locales
    (auto intro: published_core view_silent published_same simp: world_of_def helper_messages_def)

interpretation pub_user: user_contract "published log E s0" "view_of log E" E "int32 u"
    "\<lambda>sid st st'. recorded log E \<longrightarrow> speaks log (ce_web E) (int32 u) sid st st'"
  for log s0 E u
proof unfold_locales
  show "recorded log E \<longrightarrow> speaks log (ce_web E) (int32 u) sid st
      (snd (chat (ce_json E) (ce_web E) (int32 u) name sid question model st))" for sid st name question model
    by (simp add: recorded_def speaks_chat)
qed (auto intro: published_chat published_same)

interpretation pub_app: application_contract "published log E s0" "\<lambda>a. published log E s0" "view_of log E" E
    "\<lambda>u sid st st'. recorded log E \<longrightarrow> speaks log (ce_web E) u sid st st'"
  for log s0 E
  by unfold_locales

lemma request_published:
  assumes "published log E s0 s"
  shows "published log E s0 (snd (snd (handleRequest (ChatServer B T X E b) req resp s)))"
  by (rule request_keeps [where P = "published log E s0", OF assms _ pub_app.keep_handlers])
    (rule published_same, simp_all add: world_of_def helper_messages_def)

lemma requests_told:
  assumes "recorded log E"
  shows "\<exists>xs. told log s (serve_all (ChatServer B T X E b) reqs s) xs \<and> (reliable (ce_web E) \<longrightarrow> list_all fst xs)"
proof -
  have "published log E s s"
    unfolding published_def told_def by (intro impI exI [of _ "[]"]) simp
  with request_published have "published log E s (serve_all (ChatServer B T X E b) reqs s)"
    by (rule serve_all_keeps)
  with assms show ?thesis by (simp add: published_def)
qed

subsection \<open>What lies beside the publications\<close>

text \<open>\<open>rest\<close> is a view of the world that neither the calls of the handlers nor their publications
  change, as the table of the messages, which only the workers write.\<close>

definition aside :: "('w \<Rightarrow> 'r) \<Rightarrow> ('j, 'm, 'i, 'f, 'w) chat_env \<Rightarrow> bool" where
  "aside rest E \<longleftrightarrow> beside rest (ce_web E) \<and> silent_env rest E"

definition rest_view :: "('w \<Rightarrow> 'r) \<Rightarrow> ('j, 'm, 'i, 'f, 'w) chat_env \<Rightarrow> 'w \<Rightarrow> 'r option" where
  "rest_view rest E w = (if aside rest E then Some (rest w) else None)"

definition rest_kept ::
    "('w \<Rightarrow> 'r) \<Rightarrow> ('j, 'm, 'i, 'f, 'w) chat_env \<Rightarrow> 'r \<Rightarrow> ('m, 'w) chat_server \<Rightarrow> bool" where
  "rest_kept rest E r s \<longleftrightarrow> (aside rest E \<longrightarrow> rest (world_of s) = r)"

lemma rest_view_silent: "silent_env (rest_view rest E) E"
proof (cases "aside rest E")
  case True
  then show ?thesis
    by (simp add: aside_def rest_view_def silent_env_def silent_web_def silent_mysql_def silent_images_def
        silent_def)
next
  case False
  then have "rest_view rest E = (\<lambda>_. None)" by (simp add: rest_view_def fun_eq_iff)
  then show ?thesis
    by (simp add: silent_env_def silent_web_def silent_mysql_def silent_images_def silent_def)
qed

lemma rest_kept_core:
  "rest_kept rest E r s \<Longrightarrow> rest_view rest E (world_of s') = rest_view rest E (world_of s) \<Longrightarrow> rest_kept rest E r s'"
  by (simp add: rest_kept_def rest_view_def split: if_splits)

interpretation rest: login_contract "rest_kept rest E r" "\<lambda>a. rest_kept rest E r" "rest_view rest E" E
  for rest E r
  by unfold_locales (erule rest_kept_core rest_view_silent | simp add: rest_view_silent rest_kept_def world_of_def)+

interpretation rest_user: user_contract "rest_kept rest E r" "rest_view rest E" E "int32 u"
    "\<lambda>sid st st'. aside rest E \<longrightarrow> rest (mq_ext (snd st')) = rest (mq_ext (snd st))"
  for rest E r u
  by unfold_locales
    (simp add: rest_kept_def aside_def beside_chat; simp add: world_of_def)+

interpretation rest_app: application_contract "rest_kept rest E r" "\<lambda>a. rest_kept rest E r" "rest_view rest E" E
    "\<lambda>u sid st st'. aside rest E \<longrightarrow> rest (mq_ext (snd st')) = rest (mq_ext (snd st))"
  for rest E r
  by unfold_locales

lemma request_rest_kept:
  assumes "rest_kept rest E r s"
  shows "rest_kept rest E r (snd (snd (handleRequest (ChatServer B T X E b) req resp s)))"
  by (rule request_keeps [where P = "rest_kept rest E r", OF assms _ rest_app.keep_handlers])
    (simp add: rest_kept_def world_of_def)

lemma request_rest:
  assumes "aside rest E"
  shows "rest (world_of (snd (snd (handleRequest (ChatServer B T X E b) req resp s)))) = rest (world_of s)"
  using request_rest_kept [of rest E "rest (world_of s)" s] assms by (simp add: rest_kept_def)

end
