(* ===== verification/Sql_Rows.thy ===== *)
theory Sql_Rows
  imports AI_Publication
begin

section \<open>Statements and rows\<close>

text \<open>
  The statement of a message is the \<open>INSERT\<close> of one row, as long as the id of the conversation is a
  number: the id goes into the statement as it is.  \<open>executes\<close> is what the code relies on of the
  database, on the table of \<open>resource/schema.sql\<close> (which has no unique key); \<open>fits\<close> stands for the
  lengths and the character set of its columns.  \<open>read_insert\<close> is an instance of it.
\<close>

definition row_of :: "said \<Rightarrow> chat_row" where
  \<comment> \<open>what the statement inserts\<close>
  "row_of x = (sd_user x, sd_session x, sd_text x, sd_ms x)"

definition flag_text :: "bool \<Rightarrow> bytes" where
  "flag_text b = (if b then ''1'' else ''0'')"

definition row_values :: "said \<Rightarrow> bytes" where
  "row_values x =
     int_to_dec (sd_user x) @ '', '' @ quoted (sd_name x) @ '', '' @ sd_session x @ '', '' @
     flag_text (sd_is_user x) @ '', '' @ quoted (sd_text x) @ '', '' @ int_to_dec (sd_ms x)"

definition insert_head :: bytes where
  "insert_head = ''INSERT INTO chat_message (id, username, session_id, is_user, content, ts) VALUES (''"

definition insert_rows :: "said list \<Rightarrow> bytes" where
  \<comment> \<open>an \<open>INSERT\<close> of several rows, as MySQL has it\<close>
  "insert_rows xs = insert_head @ intercalate ''), ('' (map row_values xs) @ '')''"

lemma statement_rows: "statement_of x = insert_rows [x]"
  by (simp add: statement_of_def insert_statement_def insert_rows_def insert_head_def row_values_def flag_text_def)

definition number_text :: "bytes \<Rightarrow> bool" where
  \<comment> \<open>a number that is written back as it was read\<close>
  "number_text s \<longleftrightarrow> s = nat_to_dec (dec_value s) \<and> dec_value s < 2 ^ 64"

definition executes ::
    "(said \<Rightarrow> bool) \<Rightarrow> ('w \<Rightarrow> chat_row multiset) \<Rightarrow>
      (bytes \<Rightarrow> (bytes, 'w, int) action) \<Rightarrow> bool" where
  "executes fits rows update \<longleftrightarrow>
     (\<forall>xs w. xs \<noteq> [] \<longrightarrow> list_all (\<lambda>x. fits x \<and> number_text (sd_session x)) xs \<longrightarrow>
        (\<exists>n w'. update (insert_rows xs) w = (Ok n, w') \<and>
                rows w' = rows w + mset (map row_of xs)))"

definition storable :: "(said \<Rightarrow> bool) \<Rightarrow> said \<Rightarrow> bool" where
  "storable fits x \<longleftrightarrow> fits x \<and> number_text (sd_session x)"

definition inserts ::
    "(said \<Rightarrow> bool) \<Rightarrow> ('w \<Rightarrow> chat_row multiset) \<Rightarrow>
      (bytes \<Rightarrow> (bytes, 'w, int) action) \<Rightarrow> bool" where
  \<comment> \<open>the row is there when the statement returns; when it throws it may be there or not\<close>
  "inserts fits rows update \<longleftrightarrow>
     (\<forall>x w r w'. storable fits x \<longrightarrow> update (statement_of x) w = (r, w') \<longrightarrow>
        (\<forall>f. r \<noteq> Crash f) \<and>
        (rows w' = add_mset (row_of x) (rows w) \<or> (\<forall>n. r \<noteq> Ok n) \<and> rows w' = rows w))"

lemma executes_one:
  assumes "executes fits rows update" and "storable fits x"
  shows "\<exists>n w'. update (statement_of x) w = (Ok n, w') \<and> rows w' = add_mset (row_of x) (rows w)"
  using assms(1) [unfolded executes_def, rule_format, of "[x]" w] assms(2)
  by (simp add: statement_rows storable_def)

lemma executes_inserts: "executes fits rows update \<Longrightarrow> inserts fits rows update"
  unfolding inserts_def by (metis executes_one outcome.distinct(3) prod.inject)

text \<open>The ids the server makes are numbers, as long as the clock is after 1970 and before 2262.\<close>

lemma generated_number:
  assumes "0 \<le> fst (wb_now_ns W (wb_srand_time W w))" and "fst (wb_now_ns W (wb_srand_time W w)) < 2 ^ 63"
  shows "\<exists>sid w'. generate W w = (Ok sid, w') \<and> number_text sid"
proof -
  obtain now w1 where n: "wb_now_ns W (wb_srand_time W w) = (now, w1)" by (rule prod.exhaust)
  obtain r w2 where r: "wb_rand W w1 = (r, w2)" by (rule prod.exhaust)
  let ?id = "now XOR int (r mod 100000)"
  have "int (r mod 100000) < 2 ^ 63" by (rule less_trans [of _ "100000"]) simp_all
  then have "0 \<le> ?id" "?id < 2 ^ 63"
    using assms XOR_upper [of now 63 "int (r mod 100000)"] by (simp_all add: n)
  then have "number_text (int_to_dec ?id)"
    by (simp add: number_text_def int_to_dec_def dec_value_nat_to_dec nat_less_iff)
  then show ?thesis by (simp add: generate_def n r)
qed

subsection \<open>A session id that is more than an id\<close>

definition forged_session :: "said \<Rightarrow> said \<Rightarrow> bytes" where
  \<comment> \<open>the rest of the row of \<open>x\<close> and the start of the row of \<open>y\<close>\<close>
  "forged_session x y =
     sd_session x @ '', '' @ flag_text (sd_is_user x) @ '', '' @ quoted (sd_text x) @ '', '' @ int_to_dec (sd_ms x) @
     ''), ('' @ int_to_dec (sd_user y) @ '', '' @ quoted (sd_name y) @ '', '' @ sd_session y"

lemma forged_rows:
  "insert_statement u name b message ms (forged_session x y) =
    insert_rows [x\<lparr>sd_user := u, sd_name := name\<rparr>, y\<lparr>sd_is_user := b, sd_text := message, sd_ms := ms\<rparr>]"
  by (simp add: insert_statement_def insert_rows_def insert_head_def row_values_def forged_session_def flag_text_def)

subsection \<open>A database that reads the statements\<close>

definition read_int :: "bytes \<Rightarrow> (int \<times> bytes) option" where
  "read_int s =
     (let (neg, r) = strtol_sign s; ds = takeWhile is_digit r
      in if ds = [] then None
         else Some (if neg then - int (dec_value ds) else int (dec_value ds), drop (length ds) r))"

definition read_text :: "bytes \<Rightarrow> (bytes \<times> bytes) option" where
  "read_text s = (case s of [] \<Rightarrow> None | q # r \<Rightarrow> if q = CHR 0x27 then plain_literal r else None)"

definition skip :: "bytes \<Rightarrow> bytes \<Rightarrow> bytes option" where
  "skip p s = (if take (length p) s = p then Some (drop (length p) s) else None)"

definition read_values :: "bytes \<Rightarrow> (chat_row \<times> bytes) option" where
  "read_values s =
     Option.bind (read_int s) (\<lambda>(user, s).
     Option.bind (skip '', '' s) (\<lambda>s.
     Option.bind (read_text s) (\<lambda>(name, s).
     Option.bind (skip '', '' s) (\<lambda>s.
     let sid = takeWhile is_digit s in
     Option.bind (skip '', '' (drop (length sid) s)) (\<lambda>s.
     Option.bind (read_int s) (\<lambda>(flag, s).
     Option.bind (skip '', '' s) (\<lambda>s.
     Option.bind (read_text s) (\<lambda>(content, s).
     Option.bind (skip '', '' s) (\<lambda>s.
     Option.bind (read_int s) (\<lambda>(ms, s).
     Some ((user, sid, content, ms), s)))))))))))"

fun read_rows_text :: "bytes \<Rightarrow> chat_row list option" where
  "read_rows_text s =
     (case read_values s of
        None \<Rightarrow> None
      | Some (x, r) \<Rightarrow>
          if r = '')'' then Some [x]
          else (case skip ''), ('' r of
                  None \<Rightarrow> None
                | Some r1 \<Rightarrow> if length r1 < length s then map_option ((#) x) (read_rows_text r1) else None))"

declare read_rows_text.simps [simp del]

definition read_insert :: "bytes \<Rightarrow> chat_row list option" where
  "read_insert sql = Option.bind (skip insert_head sql) read_rows_text"

lemma skip_there [simp]: "skip p (p @ r) = Some r"
  by (simp add: skip_def)

lemma takeWhile_digits: "\<not> is_digit c \<Longrightarrow> takeWhile is_digit (nat_to_dec n @ c # r) = nat_to_dec n"
  by (simp add: takeWhile_append2 nat_to_dec_digits)

lemma strtol_sign_digits: "strtol_sign (nat_to_dec n @ r) = (False, nat_to_dec n @ r)"
proof -
  obtain c s where "nat_to_dec n = c # s" "is_digit c" using nat_to_dec_hd by blast
  then show ?thesis by (auto simp: strtol_sign_def is_digit_def)
qed

lemma read_int_back: "\<not> is_digit c \<Longrightarrow> read_int (int_to_dec i @ c # r) = Some (i, c # r)"
proof (cases "i < 0")
  case True
  assume "\<not> is_digit c"
  then show ?thesis using True
    by (simp add: read_int_def int_to_dec_def strtol_sign_def takeWhile_digits dec_value_nat_to_dec)
next
  case False
  assume "\<not> is_digit c"
  then show ?thesis using False
    by (simp add: read_int_def int_to_dec_def strtol_sign_digits takeWhile_digits dec_value_nat_to_dec)
qed

lemma read_text_back: "c \<noteq> CHR 0x27 \<Longrightarrow> read_text (quoted s @ c # r) = Some (s, c # r)"
  using read_escaped [OF plain_literal_laws, of c s r] by (simp add: read_text_def quoted_def)

lemma flag_number: "flag_text b = int_to_dec (if b then 1 else 0)"
  by (simp add: flag_text_def int_to_dec_def dec_eval)

lemma read_values_back:
  assumes "number_text (sd_session x)"
  shows "read_values (row_values x @ CHR '')'' # r) = Some (row_of x, CHR '')'' # r)"
proof -
  obtain n where n: "sd_session x = nat_to_dec n" using assms by (auto simp: number_text_def)
  have d: "\<not> is_digit (CHR '','')" "\<not> is_digit (CHR '')'')" by (simp_all add: is_digit_def)
  have s: "skip '', '' (CHR '','' # CHR '' '' # t) = Some t" for t by (simp add: skip_def)
  show ?thesis
    by (simp add: read_values_def row_values_def n flag_number read_int_back read_text_back d s
        takeWhile_digits row_of_def Let_def)
qed

lemma read_rows_step:
  assumes "read_values s = Some (x, CHR '')'' # '', ('' @ r)" and "length r < length s"
  shows "read_rows_text s = map_option ((#) x) (read_rows_text r)"
proof -
  have "skip ''), ('' (CHR '')'' # '', ('' @ r) = Some r" by (simp add: skip_def)
  then show ?thesis using assms by (subst read_rows_text.simps) (simp del: append.simps)
qed

lemma read_rows_back:
  assumes "list_all (\<lambda>x. number_text (sd_session x)) xs" and "xs \<noteq> []"
  shows "read_rows_text (intercalate ''), ('' (map row_values xs) @ '')'') = Some (map row_of xs)"
  using assms
proof (induction xs)
  case (Cons x xs)
  show ?case
  proof (cases "xs = []")
    case True
    with Cons.prems read_values_back [of x "[]"] show ?thesis
      by (subst read_rows_text.simps) simp
  next
    case False
    let ?r = "intercalate ''), ('' (map row_values xs) @ '')''"
    have eq: "intercalate ''), ('' (map row_values (x # xs)) @ '')'' = row_values x @ CHR '')'' # '', ('' @ ?r"
      using False by (cases xs) simp_all
    have "number_text (sd_session x)" using Cons.prems by simp
    from read_rows_step [OF read_values_back [OF this, of "'', ('' @ ?r"]]
    show ?thesis unfolding eq using Cons False by simp
  qed
qed simp

lemma read_insert_back:
  assumes "list_all (\<lambda>x. number_text (sd_session x)) xs" and "xs \<noteq> []"
  shows "read_insert (insert_rows xs) = Some (map row_of xs)"
  using read_rows_back [OF assms] by (simp add: read_insert_def insert_rows_def)

end
