(* ===== verification/Table_Rows.thy ===== *)
theory Table_Rows
  imports Chat_Publication Sql_Rows
begin

section \<open>The table of the messages and what is restored from it\<close>

text \<open>
  \<open>table_holds\<close>: the query of the history is answered with the rows of the table, ordered by time.  A
  server that starts then has the conversations the rows were said in.
\<close>

definition row_time :: "chat_row \<Rightarrow> int" where
  "row_time r = snd (snd (snd r))"

definition table_holds :: "'v mysql_ops \<Rightarrow> 'v \<Rightarrow> chat_row list \<Rightarrow> bool" where
  \<comment> \<open>the query of the history is answered with these rows, in some order by time\<close>
  "table_holds M v rows \<longleftrightarrow>
     (\<exists>res v1 rs v2. my_query M history_query [] v = (Ok res, v1) \<and> rows_of (my_rows M) res v1 rs v2 \<and>
        mset (readable_rows rs) = mset rows \<and> sorted (map row_time (readable_rows rs)))"

lemma conversation_rows_said:
  assumes "list_all (\<lambda>x. int32 (sd_user x) = sd_user x) xs"
  shows "filter (\<lambda>(i, sd, c, t). int32 i = u \<and> sd = sid) (map row_of xs) =
    map row_of (filter (of_conversation u sid) xs)"
  using assms by (induction xs) (auto simp: row_of_def of_conversation_def)

lemma ordered_unique:
  \<comment> \<open>an order by different times leaves no choice\<close>
  assumes "mset rows = mset ys" and "sorted (map f rows)" and "sorted_wrt (<) (map f ys)"
  shows "rows = ys"
proof -
  have ys: "sorted (map f ys)" "distinct (map f ys)"
    using assms(3) strict_sorted_iff by blast+
  then have "inj_on f (set ys)" by (simp add: distinct_map)
  from sort_key_inj_key_eq [OF assms(1)[symmetric] this assms(2)]
    sort_key_inj_key_eq [OF refl \<open>inj_on f (set ys)\<close> ys(1)]
  show ?thesis by simp
qed

lemma restored_said:
  assumes "list_all (\<lambda>x. int32 (sd_user x) = sd_user x) xs"
    and "mset rows = mset (map row_of xs)" and "sorted (map row_time rows)"
    and "sorted_wrt (<) (map sd_ms (filter (of_conversation u sid) xs))"
  shows "conversation_rows u sid rows = map message_of (filter (of_conversation u sid) xs)"
proof -
  let ?Q = "\<lambda>(i, sd, c, t). int32 i = u \<and> sd = sid"
  have "mset (filter ?Q rows) = mset (map row_of (filter (of_conversation u sid) xs))"
    unfolding conversation_rows_said [OF assms(1), symmetric] mset_filter assms(2) ..
  moreover have "sorted (map row_time (filter ?Q rows))"
    using assms(3) by (rule sorted_filter)
  moreover have "map row_time (map row_of ys) = map sd_ms ys" for ys
    by (simp add: row_time_def row_of_def)
  ultimately have "filter ?Q rows = map row_of (filter (of_conversation u sid) xs)"
    using assms(4) by (metis ordered_unique)
  then show ?thesis by (simp add: conversation_rows_def row_of_def message_of_def)
qed

lemma restart_said:
  fixes v :: 'v
  assumes "table_holds M v (map row_of xs)"
    and "list_all (\<lambda>x. int32 (sd_user x) = sd_user x) xs"
    and "sorted_wrt (<) (map sd_ms (filter (of_conversation u sid) xs))"
  shows "\<exists>s. initChatMessage M (resp, new_chat time rand v :: ('m, 'v) chat_server) = Some (Ok (), (resp, s)) \<and>
    helper_messages u sid s = map message_of (filter (of_conversation u sid) xs)"
proof -
  let ?s = "new_chat time rand v :: ('m, 'v) chat_server"
  obtain res v1 rs v2 where db: "my_query M history_query [] v = (Ok res, v1)"
    "rows_of (my_rows M) res v1 rs v2" "mset (readable_rows rs) = mset (map row_of xs)"
    "sorted (map row_time (readable_rows rs))"
    using assms(1) by (auto simp: table_holds_def)
  have "ct_chatInformation ?s = (\<lambda>_. Map.empty)" "ct_sessionsIds ?s = (\<lambda>_. [])"
    "my_query M history_query [] (mq_ext (ct_mq ?s)) = (Ok res, v1)"
    by (simp_all add: new_chat_def initializeSession_def db(1))
  from restored_from_rows [OF this(3) db(2) this(1,2), of resp] obtain s where
    "initChatMessage M (resp, ?s) = Some (Ok (), (resp, s))"
    "helper_messages u sid s = conversation_rows u sid (readable_rows rs)" by blast
  with restored_said [OF assms(2) db(3,4) assms(3)] show ?thesis by auto
qed

definition answers :: "('w \<Rightarrow> chat_row multiset) \<Rightarrow> 'w mysql_ops \<Rightarrow> bool" where
  \<comment> \<open>the query sees the table as it is\<close>
  "answers rows M \<longleftrightarrow> (\<forall>w xs. mset xs = rows w \<longrightarrow> table_holds M w xs)"

lemma rows_of_silent:
  assumes "rows_of (my_rows M) res w rs w'" and M: "silent_mysql log M"
  shows "log w' = log w"
  using assms(1)
proof (induction rule: rows_of.induct)
  case (rows_end w w')
  then show ?case using silentD [OF silent_mysqlD(3) [OF M]] by metis
next
  case (rows_more w w1 r w2 rs w')
  have "silent log (read_row (my_rows M) res)"
    unfolding read_row_def by (intro silent_rules silent_mysqlD [OF M])
  from silentD [OF this rows_more.hyps(2)] silentD [OF silent_mysqlD(3) [OF M] rows_more.hyps(1)] rows_more.IH
  show ?case by simp
qed

lemma restored_table:
  \<comment> \<open>a new server has the conversations of the table, and the table is as it was\<close>
  fixes w :: 'w
  assumes "answers rows M" and "silent_mysql rows M" and "silent rows (my_query M history_query [])"
  shows "\<exists>s rs. initChatMessage M (resp, new_chat time rand w :: ('m, 'w) chat_server) = Some (Ok (), (resp, s)) \<and>
    mset rs = rows w \<and> sorted (map row_time rs) \<and>
    (\<forall>u sid. helper_messages u sid s = conversation_rows u sid rs) \<and> rows (world_of s) = rows w"
proof -
  let ?s = "new_chat time rand w :: ('m, 'w) chat_server"
  obtain xs where "mset xs = rows w" using ex_mset by blast
  with assms(1) have "table_holds M w xs" by (simp add: answers_def)
  then obtain res v1 rs v2 where db: "my_query M history_query [] w = (Ok res, v1)"
    "rows_of (my_rows M) res v1 rs v2" "mset (readable_rows rs) = rows w" "sorted (map row_time (readable_rows rs))"
    using \<open>mset xs = rows w\<close> by (auto simp: table_holds_def)
  have "ct_chatInformation ?s = (\<lambda>_. Map.empty)" "ct_sessionsIds ?s = (\<lambda>_. [])"
    "my_query M history_query [] (mq_ext (ct_mq ?s)) = (Ok res, v1)"
    by (simp_all add: new_chat_def initializeSession_def db(1))
  from restored_from_rows [OF this(3) db(2) this(1,2), of resp] obtain s where
    "initChatMessage M (resp, ?s) = Some (Ok (), (resp, s))" "world_of s = v2"
    "\<forall>u sid. helper_messages u sid s = conversation_rows u sid (readable_rows rs)" by blast
  moreover have "rows v2 = rows w"
    using rows_of_silent [OF db(2) assms(2)] silentD [OF assms(3) db(1)] by simp
  ultimately show ?thesis using db(3,4) by blast
qed

lemma restored_said_again:
  \<comment> \<open>what was restored before, and what was said since\<close>
  assumes "list_all (\<lambda>x. int32 (sd_user x) = sd_user x) xs"
    and "mset rs1 = mset rs + mset (map row_of xs)" and "sorted (map row_time rs1)"
    and "sorted_wrt (<) (map snd (conversation_rows u sid rs @ map message_of (filter (of_conversation u sid) xs)))"
  shows "conversation_rows u sid rs1 = conversation_rows u sid rs @ map message_of (filter (of_conversation u sid) xs)"
proof -
  let ?Q = "\<lambda>(i, sd, c, t). int32 i = u \<and> sd = sid" and ?ys = "filter (of_conversation u sid) xs"
  let ?T = "filter ?Q rs @ map row_of ?ys"
  have "mset (filter ?Q rs1) = mset ?T"
    unfolding conversation_rows_said [OF assms(1), symmetric] mset_append mset_filter assms(2) filter_union_mset ..
  moreover have "sorted (map row_time (filter ?Q rs1))"
    using assms(3) by (rule sorted_filter)
  moreover have "map row_time ?T = map snd (conversation_rows u sid rs @ map message_of ?ys)"
    by (auto simp: row_time_def row_of_def message_of_def conversation_rows_def)
  ultimately have "filter ?Q rs1 = ?T" using assms(4) by (metis ordered_unique)
  then show ?thesis by (simp add: conversation_rows_def row_of_def message_of_def)
qed

subsection \<open>Tables\<close>

text \<open>The rows of a table in the order of their times, read with a cursor that lies in the world.\<close>

definition table_rows :: "('w \<Rightarrow> chat_row list) \<Rightarrow> ('w \<Rightarrow> nat) \<Rightarrow> (nat \<Rightarrow> 'w \<Rightarrow> 'w) \<Rightarrow> 'w row_ops" where
  "table_rows rows get put =
     \<lparr>row_next = (\<lambda>h w. (Ok (get w < length (rows w)), put (get w + 1) w)),
      row_getString = (\<lambda>h c w. let (i, sd, t, ms) = rows w ! (get w - 1) in (Ok (if c = ''session_id'' then sd else t), w)),
      row_getInt = (\<lambda>h c. return_act 1),
      row_getInt64 = (\<lambda>h c w. let (i, sd, t, ms) = rows w ! (get w - 1) in (Ok (if c = ''id'' then i else ms), w))\<rparr>"

lemma table_rows_of:
  fixes rows :: "'w \<Rightarrow> chat_row list"
  assumes laws: "\<And>n w. get (put n w) = n" "\<And>n w. rows (put n w) = rows w" "\<And>m n w. put m (put n w) = put m w"
    and "n \<le> length (rows w)"
  shows "rows_of (table_rows rows get put) 0 (put n w) (map Some (drop n (rows w))) (put (length (rows w) + 1) w)"
  using assms(4)
proof (induction rule: inc_induct)
  case base
  show ?case by (simp, rule rows_end) (simp add: table_rows_def laws)
next
  case (step n)
  have "read_row (table_rows rows get put) 0 (put (n + 1) w) = (Ok (Some (rows w ! n)), put (n + 1) w)"
    by (cases "rows w ! n") (simp add: read_row_def table_rows_def catch_act_def bind_act_def return_act_def laws)
  moreover have "row_next (table_rows rows get put) 0 (put n w) = (Ok True, put (n + 1) w)"
    using step by (simp add: table_rows_def laws)
  ultimately show ?case
    unfolding Cons_nth_drop_Suc [OF step(2), symmetric] list.map
    using step.IH by (intro rows_more) simp_all
qed

lemma table_rows_answer:
  fixes rows :: "'w \<Rightarrow> chat_row list"
  assumes laws: "\<And>n w. get (put n w) = n" "\<And>n w. rows (put n w) = rows w" "\<And>m n w. put m (put n w) = put m w"
    and "my_rows M = table_rows rows get put" and "my_query M history_query [] w = (Ok 0, put 0 w)"
    and "mset (rows w) = mset rows'" and "sorted (map row_time (rows w))"
  shows "table_holds M w rows'"
proof -
  have "readable_rows (map Some ys) = ys" for ys by (induction ys) simp_all
  moreover have "rows_of (my_rows M) 0 (put 0 w) (map Some (rows w)) (put (length (rows w) + 1) w)"
    using table_rows_of [of get put rows, OF laws, of 0 w] assms(4) by simp
  ultimately show ?thesis unfolding table_holds_def using assms(5-7) by metis
qed

definition table_of :: "chat_row list \<Rightarrow> nat mysql_ops" where
  \<comment> \<open>a table that does not change; the world is the cursor\<close>
  "table_of rows = \<lparr>my_init = (\<lambda>h u p d n. return_act ()), my_query = (\<lambda>sql args n. (Ok 0, 0)), my_update = (\<lambda>sql args. return_act 0),
     my_rows = table_rows (\<lambda>_. rows) id (\<lambda>n _. n)\<rparr>"

lemma table_answers:
  assumes "mset rows = mset rows'" and "sorted (map row_time rows)"
  shows "table_holds (table_of rows) 0 rows'"
  by (rule table_rows_answer [where rows = "\<lambda>_. rows" and get = id and put = "\<lambda>n _. n"])
    (use assms in \<open>simp_all add: table_of_def\<close>)

text \<open>Two messages with the same time may come back in the other order, and with it in the other roles;
  the two messages of an exchange with tools are added one right after the other.\<close>

lemma same_time_swaps:
  assumes "sd_ms x = sd_ms y" and "of_conversation u sid x" "of_conversation u sid y" and "int32 u = u"
  shows "table_holds (table_of [row_of y, row_of x]) 0 (map row_of [x, y])"
    and "conversation_rows u sid [row_of y, row_of x] = [message_of y, message_of x]"
proof -
  show "table_holds (table_of [row_of y, row_of x]) 0 (map row_of [x, y])"
    using assms(1) by (intro table_answers) (simp_all add: row_time_def row_of_def)
  show "conversation_rows u sid [row_of y, row_of x] = [message_of y, message_of x]"
    using assms by (simp add: conversation_rows_def row_of_def message_of_def of_conversation_def)
qed

end
