(* ===== verification/Hello_App.thy ===== *)
theory Hello_App
  imports App_Properties Table_Rows
begin

section \<open>A small application with a database\<close>

text \<open>
  The application of \<open>App_Properties\<close> over a world that also has the table of the messages, which the
  statements of the workers fill and the query of the history reads.  User 7 is logged in and asks
  \<open>hello\<close> in the conversation 1; the model answers \<open>hi\<close>.
\<close>

record toy_db =
  db_web :: toy_world
  db_rows :: "chat_row list"
  db_cursor :: nat

definition on_db :: "(toy_world \<Rightarrow> 'a \<times> toy_world) \<Rightarrow> toy_db \<Rightarrow> 'a \<times> toy_db" where
  "on_db m d = (let (r, w) = m (db_web d) in (r, d\<lparr>db_web := w\<rparr>))"

definition db_web_ops :: "toy_world web_ops \<Rightarrow> toy_db web_ops" where
  "db_web_ops W =
     \<lparr>wb_env = wb_env W, wb_now_ms = on_db (wb_now_ms W), wb_now_ns = on_db (wb_now_ns W),
      wb_srand_time = (\<lambda>d. d\<lparr>db_web := wb_srand_time W (db_web d)\<rparr>), wb_rand = on_db (wb_rand W),
      wb_localtime = on_db (wb_localtime W),
      wb_sleep = (\<lambda>n d. d\<lparr>db_web := wb_sleep W n (db_web d)\<rparr>),
      wb_file = (\<lambda>p. on_db (wb_file W p)), wb_curl_init = on_db (wb_curl_init W),
      wb_perform = (\<lambda>c. on_db (wb_perform W c)), wb_escape = wb_escape W,
      wb_channel = on_db (wb_channel W), wb_publish = (\<lambda>c q m. on_db (wb_publish W c q m))\<rparr>"

definition sorted_rows :: "toy_db \<Rightarrow> chat_row list" where
  "sorted_rows d = sort_key row_time (db_rows d)"

definition set_cursor :: "nat \<Rightarrow> toy_db \<Rightarrow> toy_db" where
  "set_cursor n d = d\<lparr>db_cursor := n\<rparr>"

definition db_mysql :: "toy_db mysql_ops" where
  \<comment> \<open>a statement that cannot be read is an error\<close>
  "db_mysql =
     \<lparr>my_init = (\<lambda>h u p d n. return_act ()),
      my_query = (\<lambda>sql args d. (Ok 0, set_cursor 0 d)),
      my_update = (\<lambda>sql args d.
        case read_insert sql of
          None \<Rightarrow> (Throw ''You have an error in your SQL syntax'', d)
        | Some xs \<Rightarrow> (Ok (int (length xs)), d\<lparr>db_rows := db_rows d @ xs\<rparr>)),
      my_rows = table_rows sorted_rows db_cursor set_cursor\<rparr>"

definition db_crypto :: "toy_db crypto_ops" where
  "db_crypto = \<lparr>cr_SHA256 = cr_SHA256 plain_crypto, cr_PBKDF2 = cr_PBKDF2 plain_crypto,
     cr_RAND_bytes = (\<lambda>n. on_db (cr_RAND_bytes plain_crypto n))\<rparr>"

definition db_images :: "(unit, bytes, nat, toy_db) image_ops" where
  "db_images = \<lparr>im_session = (\<lambda>p. on_db (im_session toy_images p)), im_imread = (\<lambda>p. on_db (im_imread toy_images p)),
     im_imdecode = (\<lambda>d. on_db (im_imdecode toy_images d)), im_infer = (\<lambda>m i. on_db (im_infer toy_images m i)),
     im_less = im_less toy_images\<rparr>"

definition hello_form :: "(bytes \<times> simple_json) list" where
  \<comment> \<open>the question and the answer at once: every text of the model is this object\<close>
  "hello_form = [(''question'', SString ''hello''), (''sessionId'', SString ''1''),
     (''choices'', SArray [SObject [(''message'', SObject [(''content'', SString ''hi'')])]])]"

definition hello_app :: "(simple_json, unit, bytes, nat, toy_db) chat_env" where
  "hello_app = \<lparr>ce_json = form_json hello_form,
     ce_web = db_web_ops (toy_web toy_env (\<lambda>_. Ok ''hi'') (\<lambda>_. None)),
     ce_mysql = db_mysql, ce_crypto = db_crypto, ce_images = db_images\<rparr>"

definition new_db :: toy_db where
  "new_db = \<lparr>db_web = (0, []), db_rows = [], db_cursor = 0\<rparr>"

definition asking :: "(unit, toy_db) chat_server" where
  "asking = (new_chat (\<lambda>_. 5) (\<lambda>n. n) new_db)\<lparr>ct_sessions := user_sessions [''userId'' \<mapsto> ''7'', ''isLoggedIn'' \<mapsto> ''true''],
     ct_onlineUsers := [7 \<mapsto> True]\<rparr>"

abbreviation hello_request :: http_request where
  "hello_request \<equiv> toy_request kPost ''/chat/send'' ''x''"

abbreviation hello_server :: "(bytes, bytes \<times> bytes \<times> bytes, unit, toy_db) app_server" where
  "hello_server \<equiv> ChatServer string_buffer null_tls no_regex hello_app False"

definition db_log :: "toy_db \<Rightarrow> bytes list" where
  "db_log d = snd (db_web d)"

definition db_table :: "toy_db \<Rightarrow> chat_row multiset" where
  "db_table d = mset (db_rows d)"

lemma on_db_simps [simp]:
  "db_rows (snd (on_db m d)) = db_rows d" "db_web (snd (on_db m d)) = snd (m (db_web d))"
  "fst (on_db m d) = fst (m (db_web d))"
  by (simp_all add: on_db_def split: prod.split)

lemma set_cursor_simps [simp]:
  "db_cursor (set_cursor n d) = n" "set_cursor m (set_cursor n d) = set_cursor m d"
  "sorted_rows (set_cursor n d) = sorted_rows d" "db_rows (set_cursor n d) = db_rows d"
  "db_web (set_cursor n d) = db_web d"
  by (simp_all add: set_cursor_def sorted_rows_def)

subsection \<open>What the properties ask of the environment holds\<close>

lemma hello_account: "sql \<in> account_statements \<Longrightarrow> read_insert sql = None"
  unfolding account_statements_def by (elim insertE emptyE; hypsubst; code_simp)

lemma hello_mysql:
  assumes "\<And>n d. log (set_cursor n d) = log d"
  shows "silent_mysql log db_mysql"
  using assms
  by (auto simp: silent_mysql_def silent_def db_mysql_def table_rows_def hello_account return_act_def
      split: prod.split)

lemma hello_log: "records db_log (ce_web hello_app)" "silent_env db_log hello_app"
proof -
  have web: "silent_web db_log (ce_web hello_app)"
    by (auto simp: silent_web_def db_log_def hello_app_def db_web_ops_def toy_web_def split: prod.split)
  then show "records db_log (ce_web hello_app)"
    by (auto simp: records_def db_log_def hello_app_def db_web_ops_def toy_web_def on_db_def split: prod.splits)
  have "silent_mysql db_log (ce_mysql hello_app)"
    by (simp add: hello_app_def hello_mysql db_log_def)
  with web show "silent_env db_log hello_app"
    by (simp add: silent_env_def silent_images_def silent_def db_log_def hello_app_def db_crypto_def db_images_def
        plain_crypto_def toy_images_def return_act_def)
qed

lemma hello_aside: "aside db_table hello_app"
proof -
  have web: "silent_web db_table (ce_web hello_app)"
    by (auto simp: silent_web_def db_table_def hello_app_def db_web_ops_def toy_web_def split: prod.split)
  moreover have "silent_mysql db_table (ce_mysql hello_app)"
    by (simp add: hello_app_def hello_mysql db_table_def)
  ultimately show ?thesis
    by (simp add: aside_def beside_def silent_env_def silent_images_def silent_def db_table_def hello_app_def
        db_crypto_def db_images_def db_web_ops_def)
qed

lemma hello_executes: "executes (\<lambda>_. True) db_table (\<lambda>sql. my_update db_mysql sql [])"
  by (auto simp: executes_def db_mysql_def read_insert_back db_table_def)

lemma hello_answers: "answers db_table db_mysql"
  unfolding answers_def
proof (intro allI impI)
  fix d xs
  assume "mset xs = db_table d"
  then show "table_holds db_mysql d xs"
    by (intro table_rows_answer [where rows = sorted_rows and get = db_cursor and put = set_cursor])
      (simp_all add: db_mysql_def sorted_rows_def [of d] db_table_def)
qed

subsection \<open>The exchange\<close>

definition hello_said :: "said list" where
  "hello_said =
     [\<lparr>sd_user = 7, sd_name = [], sd_is_user = True, sd_text = ''hello'', sd_ms = 1, sd_session = ''1''\<rparr>,
      \<lparr>sd_user = 7, sd_name = [], sd_is_user = False, sd_text = ''hi'', sd_ms = 2, sd_session = ''1''\<rparr>]"

lemma hello_said_number: "list_all (\<lambda>x. number_text (sd_session x)) hello_said"
  by (simp add: hello_said_def number_text_def dec_value_def digit_val_def dec_eval)

lemma hello_publish:
  "publish (ce_web hello_app) queue m \<lparr>mq_pool = p, mq_counter = c,
      mq_ext = \<lparr>db_web = (n, ms), db_rows = rs, db_cursor = k\<rparr>\<rparr> =
    (Ok (), \<lparr>mq_pool = Some (case p of None \<Rightarrow> [0, 0, 0, 0, 0] | Some pool \<Rightarrow> pool), mq_counter = c + 1,
       mq_ext = \<lparr>db_web = (n, ms @ [m]), db_rows = rs, db_cursor = k\<rparr>\<rparr>)"
proof -
  have "MQManager (ce_web hello_app) kPoolSize w = (Ok [0, 0, 0, 0, 0], w)" for w
    by (simp add: MQManager_def kPoolSize_def eval_nat_numeral hello_app_def db_web_ops_def toy_web_def on_db_def
        bind_act_def return_act_def)
  then show ?thesis
    by (cases p) (simp_all add: publish_def mq_instance_def bind_act_def hello_app_def db_web_ops_def toy_web_def
        on_db_def)
qed

lemma hello_chat:
  "\<exists>h q. chat (ce_json hello_app) (ce_web hello_app) 7 [] ''1'' ''hello'' ''1''
      (new_helper, \<lparr>mq_pool = None, mq_counter = 0, mq_ext = new_db\<rparr>) = (Ok ''hi'', (h, q)) \<and>
    ah_messages h = [(''hello'', 1), (''hi'', 2)] \<and> db_log (mq_ext q) = map statement_of hello_said \<and>
    db_rows (mq_ext q) = []"
proof -
  have ops: "wb_env (ce_web hello_app) = toy_env"
    "wb_now_ms (ce_web hello_app) = on_db (\<lambda>(n, ms). (int n + 1, (n + 1, ms)))"
    "wb_curl_init (ce_web hello_app) = on_db (\<lambda>w. (True, w))"
    "wb_perform (ce_web hello_app) c = on_db (\<lambda>w. (Ok ''hi'', w))" for c
    by (simp_all add: hello_app_def db_web_ops_def toy_web_def)
  have json: "ce_json hello_app = form_json hello_form" by (simp add: hello_app_def)
  show ?thesis
    by (simp add: json form_json_def hello_form_def simple_ops_def simple_at_def chat_def strategy_names AliyunStrategy_def
        from_env_def toy_env_def ops plain_chat_def ask_model_def executeCurl_def addMessage_def
        pushMessageToMysql_def hello_publish setStrategy_def restoreMessage_def new_helper_def parse_reply_def
        c_str_def first_choice_content_def act_simps bind_act_def on_web_def on_mq_def catch_act_def
        strategy_of_def with_helper_def modify_helper_def lift_out_def return_act_def on_db_def new_db_def
        db_log_def hello_said_def statement_of_def Let_def)
qed

lemma hello_fields:
  "parse_body (ce_json hello_app) ''x'' ([], [], ''1'') (send_fields (ce_json hello_app)) =
    Ok (''hello'', ''1'', ''1'')"
  by (simp add: hello_app_def hello_form_def form_json_def simple_ops_def simple_at_def parse_body_def send_fields_def
      optional_field_def string_field_def model_type_def)

lemma hello_dump: "js_dump4 (ce_json hello_app) j = Ok ''{}''"
  by (simp add: hello_app_def form_json_def simple_ops_def)

definition hello_done :: "(unit, toy_db) chat_server \<Rightarrow> bool" where
  \<comment> \<open>the conversation has the exchange, its statements are published, and nothing else happened\<close>
  "hello_done s \<longleftrightarrow>
     (\<forall>u sid. helper_messages u sid s =
        (if u = 7 \<and> sid = ''1'' then [(''hello'', 1), (''hi'', 2)] else [])) \<and>
     db_log (world_of s) = map statement_of hello_said \<and> db_rows (world_of s) = []"

lemma hello_send:
  fixes resp :: http_response
  assumes "ct_chatInformation s = (\<lambda>_. Map.empty)"
    and "ct_mq s = \<lparr>mq_pool = None, mq_counter = 0, mq_ext = new_db\<rparr>"
    and v: "getValue 0 ''userId'' (ct_sessions s) = ''7''" "getValue 0 ''username'' (ct_sessions s) = []"
  shows "\<exists>resp' s'. bind_act (session_user 0) (send_message hello_app (toy_request kPost path ''x'') 0) (resp, s) =
      (Ok (), (resp', s')) \<and> hello_done s'"
proof -
  obtain h q where c: "chat (ce_json hello_app) (ce_web hello_app) 7 [] ''1'' ''hello'' ''1''
      (new_helper, \<lparr>mq_pool = None, mq_counter = 0, mq_ext = new_db\<rparr>) = (Ok ''hi'', (h, q))"
    "ah_messages h = [(''hello'', 1), (''hi'', 2)]" "db_log (mq_ext q) = map statement_of hello_said"
    "db_rows (mq_ext q) = []" using hello_chat by blast
  let ?s = "ensure_helper 7 ''1'' s"
  have s: "ct_chatInformation ?s = (\<lambda>_. Map.empty)(7 := [''1'' \<mapsto> new_helper])"
    "ct_mq ?s = \<lparr>mq_pool = None, mq_counter = 0, mq_ext = new_db\<rparr>"
    using assms by (simp_all add: ensure_helper_def)
  show ?thesis
    by (simp add: bind_act_def session_user_def session_value_def lift_out_def v to_int_7 send_message_def Let_def hello_fields
       modify_server_def modify_act_def on_helper_def s c json_reply_def hello_dump reply_def set_response_def)
      (simp add: hello_done_def helper_messages_def GetMessages_def world_of_def c)
qed

lemma asking_simps [simp]:
  "ct_sessions asking = user_sessions [''userId'' \<mapsto> ''7'', ''isLoggedIn'' \<mapsto> ''true'']"
  "ct_chatInformation asking = (\<lambda>_. Map.empty)" "helper_messages u sid asking = []"
  "ct_mq asking = \<lparr>mq_pool = None, mq_counter = 0, mq_ext = new_db\<rparr>" "world_of asking = new_db"
  by (simp_all add: asking_def new_chat_def initializeSession_def helper_messages_def world_of_def)

lemma hello_handled:
  "\<exists>resp' s'. handleRequest hello_server hello_request resp asking = (Ok (), resp', s') \<and> hello_done s'"
proof -
  let ?s = "asking\<lparr>ct_origin := getHeader ''Origin'' hello_request\<rparr>"
  obtain sw where g: "getSession memory_storage hello_request resp (ct_sessions ?s) = (0, resp, sw)"
    and v: "getValue 0 ''userId'' sw = ''7''" "getValue 0 ''username'' sw = []" "getValue 0 ''isLoggedIn'' sw = ''true''"
    using toy_session [of kPost "''/chat/send''" "''x''" resp "[''userId'' \<mapsto> ''7'', ''isLoggedIn'' \<mapsto> ''true'']"]
    by auto
  obtain resp' s' where run: "bind_act (session_user 0) (send_message hello_app hello_request 0) (resp, ?s\<lparr>ct_sessions := sw\<rparr>) =
      (Ok (), (resp', s'))" and m: "hello_done s'"
    using hello_send [of "?s\<lparr>ct_sessions := sw\<rparr>" "''/chat/send''" resp] v by auto
  have run': "ChatSendHandler hello_app hello_request (resp, ?s) = (Ok (), (resp', s'))"
    unfolding ChatSendHandler_def logged_in_run [OF g] by (simp add: v(3) catch_act_def run)
  have "(kPost, ''/chat/send'', ChatSendHandler :: (simple_json, unit, bytes, nat, toy_db) page) \<in> set chat_routes"
    by (simp add: chat_routes_def)
  from routed_request [OF this _ _ run', of string_buffer null_tls no_regex False] m
  show ?thesis by simp
qed

lemma hello_served:
  "hello_done (serve_all hello_server [hello_request] asking)"
  using hello_handled [of "new_response (wants_close hello_request)"] by (auto simp: serve_all_def)

lemma hello_told:
  assumes "hello_done s"
  shows "told db_log asking s (map (Pair True) hello_said)"
proof -
  have "int32 7 = 7" by (simp add: int32_def)
  then show ?thesis
    using assms
    by (auto simp: told_def hello_done_def hello_said_def sent_def of_conversation_def message_of_def spoken_def
        db_log_def new_db_def)
qed

end
