(* ===== verification/Wire_Properties.thy ===== *)
theory Wire_Properties
  imports Hello_App Server_Properties
begin

section \<open>The application on a connection\<close>

text \<open>
  The parser, the server and the application together: the bytes that arrive on a connection without
  TLS, in any pieces, and the bytes that leave it.
\<close>

lemma fold_add_route_fields:
  "sv_buffer (fold (add_route E) rs srv) = sv_buffer srv"
  "sv_useSSL (fold (add_route E) rs srv) = sv_useSSL srv"
  "sv_maxRequestBodyBytes (fold (add_route E) rs srv) = sv_maxRequestBodyBytes srv"
  by (induction rs arbitrary: srv) (auto simp: add_route_def Get_handler_def Post_handler_def split: prod.split)

lemma app_plain:
  "buffer_laws B \<Longrightarrow> plain (ChatServer B T X E False)"
  "httpCallback (ChatServer B T X E b) = handleRequest (ChatServer B T X E b)"
  "sv_maxRequestBodyBytes (ChatServer B T X E b) = 8 * 1024 * 1024" "sv_buffer (ChatServer B T X E b) = B"
  by (simp_all add: plain_def ChatServer_def initializeRouter_def initializeMiddleware_def fold_add_route_fields
      addMiddleware_server_def HttpServer_def httpCallback_def)

lemma send_run:
  fixes E :: "('j, 'm, 'i, 'f, 'w) chat_env"
  assumes "req_method req = kPost" "req_path req = ''/chat/send''"
    and g: "getSession memory_storage req resp (ct_sessions s) = (a, resp1, sw)"
    and "getValue a ''isLoggedIn'' sw = ''true''" and u: "to_int (getValue a ''userId'' sw) = Ok u"
    and f: "parse_body (ce_json E) (req_content req) ([], [], ''1'') (send_fields (ce_json E)) = Ok (question, sid, model)"
    and h: "h = (case ct_chatInformation s u sid of None \<Rightarrow> new_helper | Some h \<Rightarrow> h)"
    and c: "chat (ce_json E) (ce_web E) u (getValue a ''username'' sw) sid question model (h, ct_mq s) = (Ok answer, (h', q))"
    and d: "js_dump4 (ce_json E) (js_object (ce_json E)
      [(''success'', js_bool (ce_json E) True), (''Information'', js_string (ce_json E) answer)]) = Ok body"
  shows "\<exists>resp'. handleRequest (ChatServer B T X E b) req resp s = (Ok (), resp',
      s\<lparr>ct_sessions := sw, ct_origin := getHeader ''Origin'' req,
        ct_chatInformation := (ct_chatInformation s)(u := (ct_chatInformation s u)(sid \<mapsto> h')), ct_mq := q\<rparr>) \<and>
    res_statusCode resp' = k200Ok \<and> res_body resp' = body \<and> \<not> res_closeConnection resp'"
proof -
  let ?s = "s\<lparr>ct_origin := getHeader ''Origin'' req\<rparr>"
  let ?s1 = "?s\<lparr>ct_sessions := sw\<rparr>"
  let ?s2 = "ensure_helper u sid ?s1"
  have e: "ct_chatInformation ?s2 u sid = Some h" "ct_mq ?s2 = ct_mq s"
    "?s2\<lparr>ct_chatInformation := (ct_chatInformation ?s2)(u := (ct_chatInformation ?s2 u)(sid \<mapsto> h')), ct_mq := q\<rparr> =
      ?s1\<lparr>ct_chatInformation := (ct_chatInformation s)(u := (ct_chatInformation s u)(sid \<mapsto> h')), ct_mq := q\<rparr>"
    unfolding h by (auto simp: ensure_helper_def split: option.split)
  have g': "getSession memory_storage req resp (ct_sessions ?s) = (a, resp1, sw)" using g by simp
  obtain resp' where "bind_act (session_user a) (send_message E req a) (resp1, ?s1) = (Ok (), (resp',
      ?s1\<lparr>ct_chatInformation := (ct_chatInformation s)(u := (ct_chatInformation s u)(sid \<mapsto> h')), ct_mq := q\<rparr>))"
    "res_statusCode resp' = k200Ok" "res_body resp' = body" "\<not> res_closeConnection resp'"
    using e u f c d
    by (simp add: bind_act_def session_user_def session_value_def lift_out_def send_message_def Let_def
        modify_server_def modify_act_def on_helper_def json_reply_def reply_def set_response_def
        setBody_def setContentLength_def addHeader_def setContentType_def setCloseConnection_def setStatusLine_def)
  moreover from this have "ChatSendHandler E req (resp, ?s) = (Ok (), (resp',
      ?s1\<lparr>ct_chatInformation := (ct_chatInformation s)(u := (ct_chatInformation s u)(sid \<mapsto> h')), ct_mq := q\<rparr>))"
    unfolding ChatSendHandler_def logged_in_run [OF g'] using assms(4) by (simp add: catch_act_def)
  moreover have "(kPost, ''/chat/send'', ChatSendHandler :: ('j, 'm, 'i, 'f, 'w) page) \<in> set chat_routes"
    by (simp add: chat_routes_def)
  ultimately show ?thesis
    using routed_request [of kPost "''/chat/send''" ChatSendHandler req E resp s "Ok ()", OF _ assms(1,2), of resp' _ B T X b]
    by simp
qed

subsection \<open>Bytes to apply the properties to\<close>

definition wire_headers :: "(bytes \<times> bytes) list" where
  "wire_headers = [(''Cookie'', ''sessionId=s1''), (''Content-Length'', ''1'')]"

definition wire_bytes :: bytes where
  "wire_bytes = render_request ''POST'' ''/chat/send'' ''HTTP/1.1'' wire_headers ''x''"

definition wire_connection :: "('m, 'w) chat_server \<Rightarrow> (bytes, bytes \<times> bytes \<times> bytes, ('m, 'w) chat_server) conn_state" where
  "wire_connection s = \<lparr>cs_connected = True, cs_inbuf = [], cs_context = Some (new_context (8 * 1024 * 1024)),
     cs_ssl = None, cs_out = [], cs_app = s\<rparr>"

abbreviation wire_request :: http_request where
  "wire_request \<equiv> denoted_request 0 ''POST'' ''/chat/send'' ''HTTP/1.1'' wire_headers ''x''"

lemma wire_map: "header_map wire_headers ''content-length'' = Some ''1''"
  "header_map wire_headers (to_lower ''Cookie'') = Some ''sessionId=s1''"
  by (simp_all add: wire_headers_def header_map_def) code_simp+

lemma wire_wf: "wf_request (8 * 1024 * 1024) ''POST'' ''/chat/send'' ''HTTP/1.1'' wire_headers ''x''"
proof -
  have "list_all wf_header wire_headers" by code_simp
  then show ?thesis by (simp add: wf_request_def method_of_name_def wire_map carries_body_def dec_eval)
qed

lemma wire_pieces:
  "concat [take 13 wire_bytes, drop 13 wire_bytes] =
    render_request ''POST'' ''/chat/send'' ''HTTP/1.1'' wire_headers ''x'' @ []"
  "length [] < length (last [take 13 wire_bytes, drop 13 wire_bytes])"
proof -
  have "concat [take 13 wire_bytes, drop 13 wire_bytes] = wire_bytes" by simp
  then show "concat [take 13 wire_bytes, drop 13 wire_bytes] =
    render_request ''POST'' ''/chat/send'' ''HTTP/1.1'' wire_headers ''x'' @ []" by (simp only: wire_bytes_def append_Nil2)
  show "length [] < length (last [take 13 wire_bytes, drop 13 wire_bytes])"
    by (simp add: wire_bytes_def render_request_def)
qed

lemma wire_cookie: "getSessionIdFromCookie wire_request = ''s1''"
  by (rule cookie_id [where pre = "[]" and rest = "[]"]) (simp_all add: denoted_request_def wire_map)

lemma wire_new: "new_connection (ChatServer string_buffer null_tls X E False) (wire_connection s)"
  by (simp add: new_connection_def wire_connection_def app_plain string_buffer_def)

subsection \<open>A message\<close>

lemma message_pieces:
  fixes E :: "('j, 'm, 'i, 'f, 'w) chat_env"
  assumes "buffer_laws B" and "new_connection (ChatServer B T X E False) cs" and "s = cs_app cs"
    and "us \<noteq> []" "length rest < length (last us)"
    and "wf_request (8 * 1024 * 1024) ''POST'' ''/chat/send'' ver hs content"
    and "concat us = render_request ''POST'' ''/chat/send'' ver hs content @ rest"
    and "req = denoted_request t ''POST'' ''/chat/send'' ver hs content"
    and "getSession memory_storage req (new_response (wants_close req)) (ct_sessions s) = (a, resp1, sw)"
    and "getValue a ''isLoggedIn'' sw = ''true''" and "to_int (getValue a ''userId'' sw) = Ok u"
    and "parse_body (ce_json E) content ([], [], ''1'') (send_fields (ce_json E)) = Ok (question, sid, model)"
    and "h = (case ct_chatInformation s u sid of None \<Rightarrow> new_helper | Some h \<Rightarrow> h)"
    and "chat (ce_json E) (ce_web E) u (getValue a ''username'' sw) sid question model (h, ct_mq s) = (Ok answer, (h', q))"
    and "js_dump4 (ce_json E) (js_object (ce_json E)
      [(''success'', js_bool (ce_json E) True), (''Information'', js_string (ce_json E) answer)]) = Ok body"
    and "length body < 10 ^ 13"
  shows "\<exists>b r. receive_all (ChatServer B T X E False) t us cs = Some (Ok (), cs\<lparr>cs_inbuf := b,
      cs_context := Some (new_context (sv_maxRequestBodyBytes (ChatServer B T X E False))),
      cs_app := s\<lparr>ct_sessions := sw, ct_origin := getHeader ''Origin'' req,
        ct_chatInformation := (ct_chatInformation s)(u := (ct_chatInformation s u)(sid \<mapsto> h')), ct_mq := q\<rparr>,
      cs_out := cs_out cs @ [ConnSend (response_text r)]\<rparr>) \<and>
    res_statusCode r = k200Ok \<and> res_body r = body"
proof -
  let ?s' = "s\<lparr>ct_sessions := sw, ct_origin := getHeader ''Origin'' req,
    ct_chatInformation := (ct_chatInformation s)(u := (ct_chatInformation s u)(sid \<mapsto> h')), ct_mq := q\<rparr>"
  have r: "req_method req = kPost" "req_path req = ''/chat/send''" "req_content req = content"
    unfolding assms(8) by (simp_all add: denoted_request_def method_of_name_def)
  obtain r where run: "httpCallback (ChatServer B T X E False) req (new_response (wants_close req)) (cs_app cs) = (Ok (), r, ?s')"
    and r: "res_statusCode r = k200Ok" "res_body r = body" "\<not> res_closeConnection r"
    using send_run [OF r(1,2) assms(9-11) assms(12) [folded r(3)] assms(13-15), of B T X False]
    by (auto simp: app_plain assms(3))
  have wf: "wf_request (sv_maxRequestBodyBytes (ChatServer B T X E False)) ''POST'' ''/chat/send'' ver hs content"
    using assms(6) by (simp add: app_plain)
  have "length (res_body r) < 10 ^ 13" using assms(16) r(2) by simp
  from request_pieces [OF app_plain(1) [OF assms(1)] assms(2,4,5) wf assms(7,8) run this] r show ?thesis by auto
qed

subsection \<open>The properties\<close>

text \<open>C12: a message over the wire: a logged-in client's request to \<open>/chat/send\<close>, in any pieces on a new
  connection, gets a 200 with the answer of the model; the conversation it names has the question and the
  answer behind its earlier messages, no other conversation changed, and two statements were published.
  The connection stays open, even when the request asked for \<open>Connection: close\<close>.\<close>

theorem message_over_the_wire:
  fixes E :: "('j, 'm, 'i, 'f, 'w) chat_env"
  assumes "buffer_laws B" and "new_connection (ChatServer B T X E False) cs" and "s = cs_app cs"
    and "us \<noteq> []" "length rest < length (last us)"
    and "wf_request (8 * 1024 * 1024) ''POST'' ''/chat/send'' ver hs content"
    and "concat us = render_request ''POST'' ''/chat/send'' ver hs content @ rest"
    and "req = denoted_request t ''POST'' ''/chat/send'' ver hs content"
    and "getSession memory_storage req (new_response (wants_close req)) (ct_sessions s) = (a, resp1, sw)"
    and "getValue a ''isLoggedIn'' sw = ''true''" and "to_int (getValue a ''userId'' sw) = Ok u"
    and "parse_body (ce_json E) content ([], [], ''1'') (send_fields (ce_json E)) = Ok (question, sid, model)"
    and "h = (case ct_chatInformation s u sid of None \<Rightarrow> new_helper | Some h \<Rightarrow> h)"
    and "chat (ce_json E) (ce_web E) u (getValue a ''username'' sw) sid question model (h, ct_mq s) = (Ok answer, (h', q))"
    and "js_dump4 (ce_json E) (js_object (ce_json E)
      [(''success'', js_bool (ce_json E) True), (''Information'', js_string (ce_json E) answer)]) = Ok body"
    and "length body < 10 ^ 13"
  shows "\<exists>cs' r ans t1 t2. receive_all (ChatServer B T X E False) t us cs = Some (Ok (), cs') \<and>
    cs_out cs' = cs_out cs @ [ConnSend (response_text r)] \<and> res_statusCode r = k200Ok \<and> res_body r = body \<and>
    helper_messages u sid (cs_app cs') = helper_messages u sid s @ [(question, t1), (ans, t2)] \<and>
    answer = (if ans = [] \<and> model \<noteq> ''4'' then unparsed_reply else ans) \<and>
    (\<forall>v sd. (v, sd) \<noteq> (u, sid) \<longrightarrow> helper_messages v sd (cs_app cs') = helper_messages v sd s) \<and>
    mq_counter (ct_mq (cs_app cs')) = mq_counter (ct_mq s) + 2"
proof -
  let ?s' = "s\<lparr>ct_sessions := sw, ct_origin := getHeader ''Origin'' req,
    ct_chatInformation := (ct_chatInformation s)(u := (ct_chatInformation s u)(sid \<mapsto> h')), ct_mq := q\<rparr>"
  obtain b r where run: "receive_all (ChatServer B T X E False) t us cs = Some (Ok (), cs\<lparr>cs_inbuf := b,
      cs_context := Some (new_context (sv_maxRequestBodyBytes (ChatServer B T X E False))), cs_app := ?s',
      cs_out := cs_out cs @ [ConnSend (response_text r)]\<rparr>)"
    and r: "res_statusCode r = k200Ok" "res_body r = body" using message_pieces [OF assms] by blast
  moreover have "ah_messages h = helper_messages u sid s"
    unfolding assms(13) by (simp add: helper_messages_def GetMessages_def new_helper_def split: option.split)
  with chat_messages [OF assms(14)] obtain t1 ans t2 where
    "ah_messages h' = helper_messages u sid s @ [(question, t1), (ans, t2)]"
    "answer = (if ans = [] \<and> model \<noteq> ''4'' then unparsed_reply else ans)"
    "mq_counter q = mq_counter (ct_mq s) + 2" by auto
  ultimately show ?thesis using run r
    by (intro exI [of _ "cs\<lparr>cs_inbuf := b, cs_context := Some (new_context (sv_maxRequestBodyBytes (ChatServer B T X E False))),
      cs_app := ?s', cs_out := cs_out cs @ [ConnSend (response_text r)]\<rparr>"] exI [of _ r] exI [of _ ans]
      exI [of _ t1] exI [of _ t2]) (auto simp: helper_messages_def GetMessages_def)
qed

theorem message_over_the_wire_witness:
  "\<exists>cs' r. receive_all hello_server 0 [take 13 wire_bytes, drop 13 wire_bytes] (wire_connection asking) = Some (Ok (), cs') \<and>
    cs_out cs' = [ConnSend (response_text r)] \<and> res_body r = ''{}'' \<and>
    length (helper_messages 7 ''1'' (cs_app cs')) = 2"
proof -
  obtain sw where g: "getSession memory_storage wire_request (new_response (wants_close wire_request)) (ct_sessions asking) =
      (0, new_response (wants_close wire_request), sw)"
    and v: "getValue 0 ''isLoggedIn'' sw = ''true''" "getValue 0 ''userId'' sw = ''7''" "getValue 0 ''username'' sw = []"
    using user_session [OF wire_cookie] by fastforce
  have u: "to_int (getValue 0 ''userId'' sw) = Ok 7" by (simp add: v to_int_7)
  obtain h q where c: "chat (ce_json hello_app) (ce_web hello_app) 7 (getValue 0 ''username'' sw) ''1'' ''hello'' ''1''
      (new_helper, ct_mq asking) = (Ok ''hi'', (h, q))" using hello_chat by (auto simp: v)
  have app: "asking = cs_app (wire_connection asking)" by (simp add: wire_connection_def)
  have new: "new_helper = (case ct_chatInformation asking 7 ''1'' of None \<Rightarrow> new_helper | Some h \<Rightarrow> h)" by simp
  have ne: "[take 13 wire_bytes, drop 13 wire_bytes] \<noteq> []" "length ''{}'' < 10 ^ 13" by simp_all
  obtain cs' r ans t1 t2 where
    1: "receive_all hello_server 0 [take 13 wire_bytes, drop 13 wire_bytes] (wire_connection asking) = Some (Ok (), cs')" and
    2: "cs_out cs' = cs_out (wire_connection asking) @ [ConnSend (response_text r)]" "res_body r = ''{}''" and
    3: "helper_messages 7 ''1'' (cs_app cs') = helper_messages 7 ''1'' asking @ [(''hello'', t1), (ans, t2)]"
    using message_over_the_wire [OF buffer_laws_string wire_new [where X = no_regex] app ne(1) wire_pieces(2) wire_wf wire_pieces(1)
      refl g v(1) u hello_fields new c hello_dump ne(2)] by (elim exE conjE)
  have "length (helper_messages 7 ''1'' (cs_app cs')) = 2" by (simp add: 3)
  with 1 2 show ?thesis by (intro exI conjI) (assumption, simp add: wire_connection_def, assumption+)
qed

text \<open>C13: on the wire a client that is not logged in gets nothing from a protected route: its request, in any
  pieces on a new connection, is answered with a 401 and a shutdown, and nothing of the application changes but
  the session store and the remembered origin.\<close>

theorem refused_over_the_wire:
  fixes E :: "('j, 'm, 'i, 'f, 'w) chat_env" and page :: "('j, 'm, 'i, 'f, 'w) page"
  assumes "buffer_laws B" and "new_connection (ChatServer B T X E False) cs" and "s = cs_app cs"
    and "us \<noteq> []" "length rest < length (last us)"
    and "wf_request (8 * 1024 * 1024) m target ver hs content"
    and "concat us = render_request m target ver hs content @ rest"
    and "req = denoted_request t m target ver hs content"
    and "(req_method req, req_path req, page) \<in> set chat_routes" and "req_path req \<notin> set public_paths"
    and "getSession memory_storage req (new_response (wants_close req)) (ct_sessions s) = (a, resp1, sw)"
    and "getValue a ''isLoggedIn'' sw \<noteq> ''true''"
    and "js_dump4 (ce_json E) (js_object (ce_json E) (failure_members (ce_json E) ''Unauthorized'')) = Ok body"
    and "length body < 10 ^ 13"
  shows "\<exists>cs' r. receive_all (ChatServer B T X E False) t us cs = Some (Ok (), cs') \<and>
    cs_out cs' = cs_out cs @ [ConnSend (response_text r), ConnShutdown] \<and>
    res_statusCode r = k401Unauthorized \<and> res_body r = body \<and>
    cs_app cs' = s\<lparr>ct_sessions := sw, ct_origin := getHeader ''Origin'' req\<rparr>"
proof -
  let ?s' = "s\<lparr>ct_sessions := sw, ct_origin := getHeader ''Origin'' req\<rparr>"
  obtain r where run: "httpCallback (ChatServer B T X E False) req (new_response (wants_close req)) (cs_app cs) = (Ok (), r, ?s')"
    and r: "res_statusCode r = k401Unauthorized" "res_body r = body" "res_closeConnection r"
    using guard_refuses [OF assms(9,10) refl refl assms(11-13), of B T X False] by (auto simp: app_plain assms(3))
  have wf: "wf_request (sv_maxRequestBodyBytes (ChatServer B T X E False)) m target ver hs content"
    using assms(6) by (simp add: app_plain)
  have "length (res_body r) < 10 ^ 13" using assms(14) r(2) by simp
  from request_pieces [OF app_plain(1) [OF assms(1)] assms(2,4,5) wf assms(7,8) run this] r
  show ?thesis by force
qed

theorem refused_over_the_wire_witness:
  "\<exists>cs' r. receive_all (ChatServer string_buffer null_tls no_regex (toy_app []) False) 0
      [take 13 wire_bytes, drop 13 wire_bytes] (wire_connection (toy_server Map.empty)) = Some (Ok (), cs') \<and>
    cs_out cs' = [ConnSend (response_text r), ConnShutdown] \<and> res_statusCode r = k401Unauthorized"
proof -
  obtain sw where g: "getSession memory_storage wire_request (new_response (wants_close wire_request))
      (ct_sessions (toy_server Map.empty)) = (0, new_response (wants_close wire_request), sw)"
    and v: "getValue 0 ''isLoggedIn'' sw \<noteq> ''true''"
    using user_session [OF wire_cookie, of _ Map.empty] by fastforce
  have app: "toy_server Map.empty = cs_app (wire_connection (toy_server Map.empty))" by (simp add: wire_connection_def)
  have r: "req_method wire_request = kPost" "req_path wire_request = ''/chat/send''"
    by (simp_all add: denoted_request_def method_of_name_def)
  have route: "(req_method wire_request, req_path wire_request, ChatSendHandler :: (simple_json, unit, bytes, nat, toy_world) page) \<in> set chat_routes"
    "req_path wire_request \<notin> set public_paths"
    unfolding r by (simp_all add: chat_routes_def public_paths_def)
  have ne: "[take 13 wire_bytes, drop 13 wire_bytes] \<noteq> []" "length ''{}'' < 10 ^ 13" by simp_all
  obtain cs' r where
    "receive_all (ChatServer string_buffer null_tls no_regex (toy_app []) False) 0
      [take 13 wire_bytes, drop 13 wire_bytes] (wire_connection (toy_server Map.empty)) = Some (Ok (), cs')"
    "cs_out cs' = cs_out (wire_connection (toy_server Map.empty)) @ [ConnSend (response_text r), ConnShutdown]"
    "res_statusCode r = k401Unauthorized"
    using refused_over_the_wire [OF buffer_laws_string wire_new [where X = no_regex] app ne(1) wire_pieces(2) wire_wf wire_pieces(1)
      refl route g v toy_app_simps(1) [of "[]"] ne(2)] by (elim exE conjE)
  then show ?thesis by (intro exI conjI) (assumption, simp add: wire_connection_def, assumption)
qed

end
