(* ===== verification/Connections.thy ===== *)
theory Connections
  imports Http_Server
begin

section \<open>The server over all its connections\<close>

text \<open>
  \<open>HttpServer::initialize\<close> and \<open>start\<close>: which callback muduo makes for which event, and the loop that
  makes them.  A connection is a number; the table has, for each open one, its input buffer, its
  \<open>HttpContext\<close> and its entry of \<open>sslConns_\<close>.  The application is shared.  The write-complete callback
  is the one the constructor of \<open>SslConnection\<close> sets and its destructor takes back, so it is there as
  long as the entry is.  The loop ends when a callback does not return, and when an exception or a
  fault leaves it.
\<close>

type_synonym ('b, 't) connection = "('b, 't, unit) conn_state"

record ('b, 't, 's) live_server =
  lv_connections :: "nat \<rightharpoonup> ('b, 't) connection"
  lv_app :: 's

datatype event =
  Accepted nat | Arrived nat int bytes | WriteComplete nat | Closed nat

definition with_app :: "'s \<Rightarrow> ('b, 't, 'a) conn_state \<Rightarrow> ('b, 't, 's) conn_state" where
  "with_app s cs = \<lparr>cs_connected = cs_connected cs, cs_inbuf = cs_inbuf cs, cs_context = cs_context cs,
     cs_ssl = cs_ssl cs, cs_out = cs_out cs, cs_app = s\<rparr>"

definition accepted_connection :: "'b buffer_ops \<Rightarrow> ('b, 't) connection" where
  "accepted_connection B = \<lparr>cs_connected = True, cs_inbuf = empty_buf B, cs_context = None, cs_ssl = None,
     cs_out = [], cs_app = ()\<rparr>"

definition new_live_server :: "'s \<Rightarrow> ('b, 't, 's) live_server" where
  "new_live_server s = \<lparr>lv_connections = Map.empty, lv_app = s\<rparr>"

definition on_connection ::
    "nat \<Rightarrow> (('b, 't, 's) conn_state \<Rightarrow> ((thrown_value, unit) outcome \<times> ('b, 't, 's) conn_state) option) \<Rightarrow>
      ('b, 't, 's) live_server \<Rightarrow> ((thrown_value, unit) outcome \<times> ('b, 't, 's) live_server) option" where
  \<comment> \<open>a callback on one connection, and the application\<close>
  "on_connection c f st =
     (case lv_connections st c of
        None \<Rightarrow> Some (Ok (), st)
      | Some e \<Rightarrow>
          map_option (\<lambda>(x, cs). (x, st\<lparr>lv_connections := (lv_connections st)(c \<mapsto> with_app () cs),
                                        lv_app := cs_app cs\<rparr>))
            (f (with_app (lv_app st) e)))"

definition connection_callback ::
    "('b, 't, 's) server \<Rightarrow> ('b, 't, 's) conn_state \<Rightarrow>
      ((thrown_value, unit) outcome \<times> ('b, 't, 's) conn_state) option" where
  "connection_callback srv cs = map_option (Pair (Ok ())) (onConnection srv cs)"

definition write_complete_callback ::
    "('b, 't, 's) server \<Rightarrow> ('b, 't, 's) conn_state \<Rightarrow>
      ((thrown_value, unit) outcome \<times> ('b, 't, 's) conn_state) option" where
  "write_complete_callback srv cs =
     (case cs_ssl cs of
        None \<Rightarrow> Some (Ok (), cs)
      | Some sc \<Rightarrow> map_option (\<lambda>sc'. (Ok (), put_ssl sc' cs)) (onWriteComplete (sv_tls srv) sc))"

fun event_step ::
    "('b, 't, 's) server \<Rightarrow> event \<Rightarrow> ('b, 't, 's) live_server \<Rightarrow>
      ((thrown_value, unit) outcome \<times> ('b, 't, 's) live_server) option" where
  \<comment> \<open>the callbacks \<open>initialize\<close> registers, each for its event\<close>
  "event_step srv (Accepted c) st =
     on_connection c (connection_callback srv)
       (st\<lparr>lv_connections := (lv_connections st)(c \<mapsto> accepted_connection (sv_buffer srv))\<rparr>)"
| "event_step srv (Arrived c receiveTime d) st = on_connection c (receive srv receiveTime d) st"
| "event_step srv (WriteComplete c) st = on_connection c (write_complete_callback srv) st"
| "event_step srv (Closed c) st =
     map_option (\<lambda>(x, st1). (x, st1\<lparr>lv_connections := (lv_connections st1)(c := None)\<rparr>))
       (on_connection c (\<lambda>cs. connection_callback srv (cs\<lparr>cs_connected := False\<rparr>)) st)"

fun server_run ::
    "('b, 't, 's) server \<Rightarrow> event list \<Rightarrow> ('b, 't, 's) live_server \<Rightarrow>
      ((thrown_value, unit) outcome \<times> ('b, 't, 's) live_server) option" where
  \<comment> \<open>\<open>mainLoop_.loop()\<close>, on the events that happen\<close>
  "server_run srv [] st = Some (Ok (), st)"
| "server_run srv (ev # evs) st =
     (case event_step srv ev st of
        Some (Ok _, st1) \<Rightarrow> server_run srv evs st1
      | x \<Rightarrow> x)"

lemma with_app_simps [simp]:
  "cs_connected (with_app s cs) = cs_connected cs" "cs_inbuf (with_app s cs) = cs_inbuf cs"
  "cs_context (with_app s cs) = cs_context cs" "cs_ssl (with_app s cs) = cs_ssl cs"
  "cs_out (with_app s cs) = cs_out cs" "cs_app (with_app s cs) = s" "with_app s (with_app s' cs) = with_app s cs"
  by (simp_all add: with_app_def)

subsection \<open>Only a request changes the application\<close>

lemma sendToClient_app: "sendToClient srv d cs = Some cs' \<Longrightarrow> cs_app cs' = cs_app cs"
  by (auto simp: sendToClient_def put_ssl_def act_def split: if_splits option.splits)

lemma onConnection_app: "onConnection srv cs = Some cs' \<Longrightarrow> cs_app cs' = cs_app cs"
  by (auto simp: onConnection_def Let_def put_ssl_def act_def split: if_splits option.splits)

lemma put_buf_app [simp]: "cs_app (put_buf srv b cs) = cs_app cs"
  by (simp add: put_buf_def split: option.split)

lemma put_ssl_app [simp]: "cs_app (put_ssl sc cs) = cs_app cs"
  by (simp add: put_ssl_def)

lemma act_app [simp]: "cs_app (act a cs) = cs_app cs"
  by (simp add: act_def)

lemma not_returned: "a \<noteq> Ok () \<Longrightarrow> \<forall>e. a \<noteq> Throw e \<Longrightarrow> \<exists>f. a = Crash f"
  by (cases a) auto

text \<open>What every call of the HTTP callback does to the application, an event does to it or nothing:
  \<open>R\<close> relates the application before and after.\<close>

definition changes ::
    "('s \<Rightarrow> 's \<Rightarrow> bool) \<Rightarrow>
      (('b, 't, 's) conn_state \<Rightarrow> ((thrown_value, unit) outcome \<times> ('b, 't, 's) conn_state) option) \<Rightarrow> bool" where
  "changes R f \<longleftrightarrow> (\<forall>cs x cs'. f cs = Some (x, cs') \<longrightarrow> R (cs_app cs) (cs_app cs'))"

lemma changesI: "(\<And>cs x cs'. f cs = Some (x, cs') \<Longrightarrow> R (cs_app cs) (cs_app cs')) \<Longrightarrow> changes R f"
  by (auto simp: changes_def)

lemma changesD: "changes R f \<Longrightarrow> f cs = Some (x, cs') \<Longrightarrow> R (cs_app cs) (cs_app cs')"
  by (auto simp: changes_def)

locale callback_relation =
  fixes srv :: "('b, 't, 's) server" and R :: "'s \<Rightarrow> 's \<Rightarrow> bool"
  assumes callback_related: "httpCallback srv req resp s = (x, resp', s') \<Longrightarrow> R s s'"
    and nothing_related: "R s s"
begin

lemma changes_request: "changes R (onRequest srv req)"
proof (rule changesI)
  fix cs x cs'
  assume run: "onRequest srv req cs = Some (x, cs')"
  obtain y resp s where "httpCallback srv req (new_response (wants_close req)) (cs_app cs) = (y, resp, s)"
    by (metis prod_cases3)
  with run callback_related [OF this] show "R (cs_app cs) (cs_app cs')"
    by (auto simp: onRequest_def Let_def dest!: sendToClient_app split: outcome.splits if_splits)
qed

lemma changes_input: "changes R (process_input srv t)"
proof (rule changesI)
  fix cs x cs'
  assume "process_input srv t cs = Some (x, cs')"
  then show "R (cs_app cs) (cs_app cs')"
    by (auto simp: process_input_def Let_def nothing_related dest!: sendToClient_app
        dest: not_returned changesD [OF changes_request]
        split: option.splits sum.splits prod.splits if_splits outcome.splits)
qed

lemma changes_try: "changes R (try_message srv t)"
  by (rule changesI) (auto simp: try_message_def Let_def nothing_related dest: changesD [OF changes_input]
      split: option.splits prod.splits if_splits)

lemma changes_message: "changes R (onMessage srv t)"
proof (rule changesI)
  fix cs x cs'
  assume run: "onMessage srv t cs = Some (x, cs')"
  obtain y cs1 where y: "try_message srv t cs = Some (y, cs1)"
    using run by (auto simp: onMessage_def split: option.splits)
  from changesD [OF changes_try y] run y show "R (cs_app cs) (cs_app cs')"
    by (auto simp: onMessage_def dest!: sendToClient_app split: outcome.splits thrown_value.splits)
qed

lemma changes_receive: "changes R (receive srv t d)"
  using changesD [OF changes_message] by (fastforce simp: receive_def intro!: changesI)

lemma changes_callbacks:
  "changes R (connection_callback srv)" "changes R (write_complete_callback srv)"
  "changes R (\<lambda>cs. connection_callback srv (cs\<lparr>cs_connected := False\<rparr>))"
  by (auto intro!: changesI simp: connection_callback_def write_complete_callback_def nothing_related
      dest!: onConnection_app split: option.splits)

lemma on_connection_related:
  assumes "changes R f" and "on_connection c f st = Some (x, st')"
  shows "R (lv_app st) (lv_app st')"
  using assms(2) by (auto simp: on_connection_def nothing_related dest: changesD [OF assms(1)] split: option.splits)

lemma event_related: "event_step srv ev st = Some (x, st') \<Longrightarrow> R (lv_app st) (lv_app st')"
  by (cases ev) (auto dest: on_connection_related [OF changes_receive] on_connection_related [OF changes_callbacks(1)]
      on_connection_related [OF changes_callbacks(2)] on_connection_related [OF changes_callbacks(3)])

end

text \<open>A property of the application that every call of the callback keeps.\<close>

locale callback_contract =
  fixes srv :: "('b, 't, 's) server" and P :: "'s \<Rightarrow> bool"
  assumes callback_keeps: "httpCallback srv req resp s = (x, resp', s') \<Longrightarrow> P s \<Longrightarrow> P s'"

sublocale callback_contract \<subseteq> kept: callback_relation srv "\<lambda>s s'. P s \<longrightarrow> P s'"
  by unfold_locales (auto intro: callback_keeps)

context callback_contract
begin

lemma run_keeps: "server_run srv evs st = Some (x, st') \<Longrightarrow> P (lv_app st) \<Longrightarrow> P (lv_app st')"
proof (induction evs arbitrary: st)
  case (Cons ev evs)
  obtain y st1 where y: "event_step srv ev st = Some (y, st1)"
    using Cons.prems(1) by (auto split: option.splits)
  from kept.event_related [OF y] y Cons show ?case by (auto split: outcome.splits)
qed simp

end

end
