(* ===== verification/Main_Program.thy ===== *)
theory Main_Program
  imports Chat_Behaviour
begin

section \<open>The program\<close>

text \<open>
  \<open>AIApps/ChatServer/src/main.cpp\<close>.  \<open>getopt\<close> is not part of the repository: \<open>main_program\<close> gets the
  options it found with their arguments.  The workers and the server share one world; a system
  holds it twice, in the server and in the pool, and keeps both the same.
\<close>

definition QUEUE_NAME :: bytes where "QUEUE_NAME = ''sql_queue''"

definition THREAD_NUM :: nat where "THREAD_NUM = 2"

definition atoi :: "bytes \<Rightarrow> int" where
  \<comment> \<open>0 when there is no number; a number that is no \<open>int\<close> as glibc converts it (undefined in C)\<close>
  "atoi s =
     (let (neg, r) = strtol_sign (trim_left s); n = int (dec_value (takeWhile is_digit r));
          v = (if neg then - n else n)
      in int32 (max (- (2 ^ 63)) (min (2 ^ 63 - 1) v)))"

definition main_port :: "(char \<times> bytes) list \<Rightarrow> int" where
  \<comment> \<open>the loop over the options\<close>
  "main_port opts = fold (\<lambda>(opt, optarg) port. if opt = CHR ''p'' then atoi optarg else port) opts 80"

definition listen_port :: "int \<Rightarrow> nat" where
  \<comment> \<open>the conversion to the \<open>uint16_t\<close> of \<open>InetAddress\<close>\<close>
  "listen_port port = nat (port mod 2 ^ 16)"

record ('m, 'w) system =
  sy_port :: nat
  sy_server :: "('m, 'w) chat_server"
  sy_pool :: "'w worker_pool"

definition main_program ::
    "('j, 'm, 'i, 'f, 'w) chat_env \<Rightarrow> (nat \<Rightarrow> int) \<Rightarrow> (nat \<Rightarrow> nat) \<Rightarrow> (char \<times> bytes) list \<Rightarrow> bytes list \<Rightarrow> 'w \<Rightarrow>
      (bytes, ('m, 'w) system) outcome option" where
  \<comment> \<open>up to \<open>server.start()\<close>, with what waits in the durable queue; the constructor of \<open>ChatServer\<close>
    connects to the database first; an exception leaves \<open>main\<close> and ends the program\<close>
  "main_program E time rand opts waiting w =
     (case my_init (ce_mysql E) ''tcp://127.0.0.1:3306'' ''httpserver'' ''123456'' ''ChatHttpServer'' 5 w of
        (Throw e, _) \<Rightarrow> Some (Throw e)
      | (Crash x, _) \<Rightarrow> Some (Crash x)
      | (Ok _, w1) \<Rightarrow>
          (let s = new_chat time rand (wb_sleep (ce_web E) 2 w1)
           in map_option (\<lambda>(r, (_, s1)). bind_out r (\<lambda>_.
                Ok \<lparr>sy_port = listen_port (main_port opts), sy_server = s1,
                    sy_pool = start_pool THREAD_NUM waiting (world_of s1)\<rparr>))
              (initChatMessage (ce_mysql E) (new_response False, s))))"

subsection \<open>The port\<close>

lemma main_port_default: "CHR ''p'' \<notin> fst ` set opts \<Longrightarrow> main_port opts = 80"
proof -
  have "CHR ''p'' \<notin> fst ` set opts \<Longrightarrow>
      fold (\<lambda>(opt, optarg) port. if opt = CHR ''p'' then atoi optarg else port) opts port = port" for port
    by (induction opts arbitrary: port) (auto split: prod.split)
  then show "CHR ''p'' \<notin> fst ` set opts \<Longrightarrow> main_port opts = 80" by (simp add: main_port_def)
qed

lemma main_port_last: "main_port (opts @ [(CHR ''p'', s)]) = atoi s"
  by (simp add: main_port_def)

lemma atoi_number: "n < 2 ^ 31 \<Longrightarrow> atoi (nat_to_dec n) = int n"
  by (simp add: atoi_def trim_left_nat_to_dec strtol_sign_nat_to_dec str_simps int32_def
      signed_take_bit_int_eq_self_iff)

lemma port_asked: "n < 2 ^ 16 \<Longrightarrow> listen_port (main_port (opts @ [(CHR ''p'', nat_to_dec n)])) = n"
  by (simp add: main_port_last atoi_number listen_port_def)

lemma port_of_no_number: "listen_port (main_port (opts @ [(CHR ''p'', ''http'')])) = 0"
  by (simp add: main_port_last listen_port_def) code_simp

text \<open>The queue of the workers is the one the statements are published to.\<close>

lemma published_to_the_workers:
  "pushMessageToMysql W u name b message ms sid =
    on_mq (publish W QUEUE_NAME (insert_statement u name b message ms sid))"
  by (simp add: pushMessageToMysql_def QUEUE_NAME_def)

end
