(* ===== verification/System.thy ===== *)
theory System
  imports Main_Program Hello_App
begin

section \<open>The server, the queue, the workers and the table together\<close>

text \<open>
  The system takes a request, a step of a worker or the failure of a channel at a time.  The statements a
  request publishes are those the log of the broker grows by; they go to the end of the queue.
  \<open>work_step\<close> is a step of a worker, on the world the server left.  \<open>sound_env\<close> says what outcomes mean:
  what is published is in the log, a statement that returns has inserted its row, the handlers' calls do
  not touch the table.  Publications, statements and channels may fail.  \<open>readable_db\<close> is what a start
  needs of the database, \<open>lawful\<close> that it also executes what it is given.
\<close>

definition new_statements :: "('w \<Rightarrow> bytes list) \<Rightarrow> 'w \<Rightarrow> 'w \<Rightarrow> bytes list" where
  "new_statements log w w' = drop (length (log w)) (log w')"

definition take_statements :: "bytes list \<Rightarrow> 'w \<Rightarrow> 'w worker_pool \<Rightarrow> 'w worker_pool" where
  "take_statements ms w p =
     p\<lparr>wp_queue := wp_queue p @ ms, wp_published := wp_published p @ ms, wp_world := w\<rparr>"

definition work_step :: "'w mysql_ops \<Rightarrow> ('m, 'w) system \<Rightarrow> ('m, 'w) system \<Rightarrow> bool" where
  \<comment> \<open>a worker takes a statement, executes it or dies; nothing is published and nothing shut down\<close>
  "work_step M y y' \<longleftrightarrow>
     (\<exists>p. worker_step (executeMysql M) (sy_pool y) p \<and> wp_published p = wp_published (sy_pool y) \<and>
          wp_stop p = wp_stop (sy_pool y) \<and>
          y' = y\<lparr>sy_server := with_world (wp_world p) (sy_server y), sy_pool := p\<rparr>)"

inductive system_step ::
    "('b, 't, 'm, 'w) app_server \<Rightarrow> ('w \<Rightarrow> bytes list) \<Rightarrow> 'w mysql_ops \<Rightarrow>
      ('m, 'w) system \<Rightarrow> ('m, 'w) system \<Rightarrow> bool"
  for srv log M where
  request: "handleRequest srv req resp (sy_server y) = (r, resp', s) \<Longrightarrow>
    system_step srv log M y
      (y\<lparr>sy_server := s,
         sy_pool := take_statements (new_statements log (world_of (sy_server y)) (world_of s)) (world_of s) (sy_pool y)\<rparr>)"
| work: "work_step M y y' \<Longrightarrow> system_step srv log M y y'"
| fault: "channel_step (sy_pool y) p \<Longrightarrow> system_step srv log M y (y\<lparr>sy_pool := p\<rparr>)"

inductive_cases system_stepE: "system_step srv log M y y'"

definition system_run ::
    "('b, 't, 'm, 'w) app_server \<Rightarrow> ('w \<Rightarrow> bytes list) \<Rightarrow> 'w mysql_ops \<Rightarrow>
      ('m, 'w) system \<Rightarrow> ('m, 'w) system \<Rightarrow> bool" where
  "system_run srv log M = (system_step srv log M)\<^sup>*\<^sup>*"

subsection \<open>What the environment grants\<close>

definition sound_env ::
    "('w \<Rightarrow> bytes list) \<Rightarrow> ('w \<Rightarrow> chat_row multiset) \<Rightarrow> (said \<Rightarrow> bool) \<Rightarrow>
      ('j, 'm, 'i, 'f, 'w) chat_env \<Rightarrow> bool" where
  "sound_env log rows fits E \<longleftrightarrow>
     recorded log E \<and> aside rows E \<and>
     (\<forall>sql. silent log (my_update (ce_mysql E) sql [])) \<and>
     inserts fits rows (\<lambda>sql. my_update (ce_mysql E) sql [])"

definition readable_db :: "('w \<Rightarrow> chat_row multiset) \<Rightarrow> ('j, 'm, 'i, 'f, 'w) chat_env \<Rightarrow> bool" where
  "readable_db rows E \<longleftrightarrow>
     answers rows (ce_mysql E) \<and> silent rows (my_query (ce_mysql E) history_query []) \<and>
     (\<forall>h u p d n w. \<exists>w'. my_init (ce_mysql E) h u p d n w = (Ok (), w') \<and> rows w' = rows w)"

definition lawful ::
    "('w \<Rightarrow> bytes list) \<Rightarrow> ('w \<Rightarrow> chat_row multiset) \<Rightarrow> (said \<Rightarrow> bool) \<Rightarrow>
      ('j, 'm, 'i, 'f, 'w) chat_env \<Rightarrow> bool" where
  "lawful log rows fits E \<longleftrightarrow>
     sound_env log rows fits E \<and> readable_db rows E \<and> executes fits rows (\<lambda>sql. my_update (ce_mysql E) sql [])"

lemma sound_envD:
  assumes "sound_env log rows fits E"
  shows "recorded log E" "aside rows E" "silent log (my_update (ce_mysql E) sql [])"
    "inserts fits rows (\<lambda>sql. my_update (ce_mysql E) sql [])"
  using assms by (simp_all add: sound_env_def)

lemma readable_dbD:
  assumes "readable_db rows E"
  shows "answers rows (ce_mysql E)" "silent rows (my_query (ce_mysql E) history_query [])"
    "\<exists>w'. my_init (ce_mysql E) h u p d n w = (Ok (), w') \<and> rows w' = rows w"
  using assms by (simp_all add: readable_db_def)

lemma lawfulD:
  assumes "lawful log rows fits E"
  shows "sound_env log rows fits E" "readable_db rows E" "executes fits rows (\<lambda>sql. my_update (ce_mysql E) sql [])"
  using assms by (simp_all add: lawful_def)

definition executable :: "(said \<Rightarrow> bool) \<Rightarrow> bytes \<Rightarrow> bool" where
  "executable fits m \<longleftrightarrow> (\<exists>x. storable fits x \<and> m = statement_of x)"

definition statement_row :: "bytes \<Rightarrow> chat_row" where
  "statement_row m = hd (the (read_insert m))"

lemma statement_row: "storable fits x \<Longrightarrow> statement_row (statement_of x) = row_of x"
  by (simp add: statement_row_def statement_rows read_insert_back storable_def)

lemma statement_rows_of: "list_all (storable fits) xs \<Longrightarrow> map statement_row (map statement_of xs) = map row_of xs"
  by (induction xs) (auto dest: statement_row)

lemma execute_one:
  assumes "sound_env log rows fits E" and "executable fits m" and "executeMysql (ce_mysql E) m w = (r, w')"
  shows "(\<forall>f. r \<noteq> Crash f) \<and>
    (rows w' = add_mset (statement_row m) (rows w) \<or> r \<noteq> Ok () \<and> rows w' = rows w)"
proof -
  obtain x where x: "storable fits x" "m = statement_of x" using assms(2) by (auto simp: executable_def)
  obtain r1 w1 where u: "my_update (ce_mysql E) m [] w = (r1, w1)" by (rule prod.exhaust)
  with assms(3) have "w' = w1" "r = (case r1 of Ok _ \<Rightarrow> Ok () | Throw e \<Rightarrow> Throw e | Crash f \<Rightarrow> Crash f)"
    by (auto simp: executeMysql_def bind_act_def return_act_def split: outcome.splits)
  moreover have "(\<forall>f. r1 \<noteq> Crash f) \<and> (rows w1 = add_mset (row_of x) (rows w) \<or> (\<forall>n. r1 \<noteq> Ok n) \<and> rows w1 = rows w)"
    using sound_envD(4) [OF assms(1)] x u unfolding inserts_def by blast
  ultimately show ?thesis using statement_row [OF x(1)] x(2) by (cases r1) auto
qed

lemma silent_execute: "sound_env log rows fits E \<Longrightarrow> silent log (executeMysql (ce_mysql E) m)"
  unfolding executeMysql_def by (intro silent_rules sound_envD(3))

subsection \<open>The workers\<close>

fun weight :: "worker \<Rightarrow> nat" where
  "weight Ready = 4"
| "weight Polling = 3"
| "weight (Handling m) = 6"
| "weight (Executed m) = 5"
| "weight Dead = 0"
| "weight Stopped = 0"

definition backlog :: "'w worker_pool \<Rightarrow> nat" where
  \<comment> \<open>a bound on the steps the workers still take\<close>
  "backlog p = 4 * length (wp_queue p) + sum_list (map weight (wp_workers p))"

definition executed_rows ::
    "('w \<Rightarrow> chat_row multiset) \<Rightarrow> chat_row multiset \<Rightarrow> bytes list \<Rightarrow> 'w worker_pool \<Rightarrow> bool" where
  \<comment> \<open>the table: \<open>R\<close>, a row for each statement executed once, and those of \<open>D\<close> again\<close>
  "executed_rows rows R D p \<longleftrightarrow>
     rows (wp_world p) = R + image_mset statement_row (mset (wp_acked p) + mset (executed_in_hands p) + mset D) \<and>
     set D \<subseteq> set (wp_published p) \<and> length D \<le> dead_workers p"

definition written :: "('w \<Rightarrow> chat_row multiset) \<Rightarrow> (said \<Rightarrow> bool) \<Rightarrow> chat_row multiset \<Rightarrow> 'w worker_pool \<Rightarrow> bool" where
  \<comment> \<open>as long as everything published is an \<open>INSERT\<close> of the table\<close>
  "written rows fits R p \<longleftrightarrow> accounted p \<and>
     (list_all (executable fits) (wp_published p) \<longrightarrow> (\<exists>D. executed_rows rows R D p))"

lemma accounted_in_hand:
  assumes "accounted p" and "i < length (wp_workers p)" and "m \<in> set (in_hand (wp_workers p ! i))"
  shows "m \<in> set (wp_published p)"
proof -
  have "m \<in># mset (in_hands p)" using assms(2,3) nth_mem by fastforce
  then have "m \<in># mset (wp_queue p) + mset (in_hands p) + mset (wp_acked p)" by simp
  then show ?thesis using assms(1) unfolding accounted_def by simp
qed

lemma executed_update:
  \<comment> \<open>one worker changes from \<open>a\<close> to \<open>x\<close>\<close>
  assumes "executed_rows rows R D p" and "i < length (wp_workers p)" and "wp_workers q = (wp_workers p)[i := x]"
    and "wp_published q = wp_published p"
    and "rows (wp_world q) + image_mset statement_row (mset (wp_acked p) + mset (executed_in_hand (wp_workers p ! i)) + mset D) =
      rows (wp_world p) + image_mset statement_row (mset (wp_acked q) + mset (executed_in_hand x) + mset D')"
    and "set D' \<subseteq> set (wp_published p)"
    and "length D' + (if wp_workers p ! i = Dead then 1 else 0) \<le> length D + (if x = Dead then 1 else 0)"
  shows "executed_rows rows R D' q"
proof -
  let ?ws = "take i (wp_workers p) @ drop (Suc i) (wp_workers p)" and ?f = "image_mset statement_row"
  define X where "X = mset (concat (map executed_in_hand ?ws))"
  have h: "mset (executed_in_hands p) = mset (executed_in_hand (wp_workers p ! i)) + X"
    "mset (executed_in_hands q) = mset (executed_in_hand x) + X"
    unfolding assms(3) X_def using concat_split [OF assms(2)] by metis+
  let ?a = "mset (wp_acked p) + mset (executed_in_hand (wp_workers p ! i)) + mset D"
  let ?b = "mset (wp_acked q) + mset (executed_in_hand x) + mset D'"
  have p: "rows (wp_world p) = R + ?f ?a + ?f X"
    using assms(1) unfolding executed_rows_def h(1) by (simp add: ac_simps)
  have "rows (wp_world q) + ?f ?a = (R + ?f ?b + ?f X) + ?f ?a"
    using assms(5) unfolding p by (simp only: ac_simps)
  then have "rows (wp_world q) = R + ?f ?b + ?f X" by (simp only: add_right_cancel)
  then have "rows (wp_world q) = R + ?f (mset (wp_acked q) + mset (executed_in_hands q) + mset D')"
    unfolding h(2) by (simp add: ac_simps)
  moreover have "length D' \<le> dead_workers q"
    using assms(1,7) dead_split [OF assms(2)] unfolding executed_rows_def dead_workers_def assms(3) by (simp split: if_splits)
  ultimately show ?thesis using assms(4,6) by (simp add: executed_rows_def)
qed

lemma written_work:
  assumes E: "sound_env log rows fits E" and step: "worker_step (executeMysql (ce_mysql E)) p q"
    and pub: "wp_published q = wp_published p" and inv: "written rows fits R p"
  shows "written rows fits R q"
proof -
  have acc: "accounted p" using inv by (simp add: written_def)
  have "\<exists>D. executed_rows rows R D q" if x: "list_all (executable fits) (wp_published q)"
  proof -
    obtain D where D: "executed_rows rows R D p" using inv x pub by (auto simp: written_def)
    then have sub: "set D \<subseteq> set (wp_published p)" by (simp add: executed_rows_def)
    note upd = executed_update [OF D]
    have exec: "m \<in> set (wp_published p) \<and> (rows w = add_mset (statement_row m) (rows (wp_world p)) \<or>
        r \<noteq> Ok () \<and> rows w = rows (wp_world p))"
      if "i < length (wp_workers p)" "wp_workers p ! i = Handling m"
        "executeMysql (ce_mysql E) m (wp_world p) = (r, w)" for i m r w
      using execute_one [OF E _ that(3)] x pub accounted_in_hand [OF acc that(1), of m] that(2) by (auto simp: list_all_iff)
    from step show ?thesis
    proof cases
      case (poll i)
      show ?thesis by (rule exI, rule upd [OF poll(3), of _ Polling D]) (simp_all add: poll(1,4) sub)
    next
      case (deliver i m rest)
      show ?thesis by (rule exI, rule upd [OF deliver(2), of _ "Handling m" D]) (simp_all add: deliver(1,3) sub)
    next
      case (handled i m w)
      have w: "rows w = add_mset (statement_row m) (rows (wp_world p))" using exec [OF handled(2-4)] by simp
      show ?thesis by (rule exI, rule upd [OF handled(2), of _ "Executed m" D]) (simp_all add: handled(1,3) sub w)
    next
      case (acked i m)
      show ?thesis by (rule exI, rule upd [OF acked(2), of _ Ready D]) (simp_all add: acked(1,3) sub)
    next
      case (failed i m e w)
      have m: "m \<in> set (wp_published p)" using exec [OF failed(2-4)] by simp
      consider "rows w = rows (wp_world p)" | "rows w = add_mset (statement_row m) (rows (wp_world p))"
        using exec [OF failed(2-4)] by auto
      then show ?thesis
      proof cases
        case 1
        show ?thesis by (rule exI, rule upd [OF failed(2), of _ Dead D]) (simp_all add: failed(1,3) sub 1)
      next
        case 2
        show ?thesis
          by (rule exI, rule upd [OF failed(2), of _ Dead "m # D"]) (simp_all add: failed(1,3) sub m 2)
      qed
    next
      case (stopped i)
      have "executed_in_hand (wp_workers p ! i) = []" "wp_workers p ! i \<noteq> Dead" using stopped(4) by auto
      then show ?thesis
        by - (rule exI, rule upd [OF stopped(3), of _ Stopped D], simp_all add: stopped(1) sub)
    next
      case (published m)
      then show ?thesis using pub by simp
    next
      case shutdown
      then show ?thesis using D by (auto simp: shutdown_pool_def executed_rows_def dead_workers_def)
    qed
  qed
  then show ?thesis using accounted_step [OF step acc] by (simp add: written_def)
qed

lemma written_fault:
  assumes step: "channel_step p q" and inv: "written rows fits R p"
  shows "written rows fits R q"
  using step
proof cases
  case (broken i)
  have acc: "accounted p" using inv by (simp add: written_def)
  have pub: "wp_published q = wp_published p" using broken(1) by simp
  have "\<exists>D. executed_rows rows R D q" if x: "list_all (executable fits) (wp_published q)"
  proof -
    obtain D where D: "executed_rows rows R D p" using inv x pub by (auto simp: written_def)
    then have sub: "set D \<subseteq> set (wp_published p)" by (simp add: executed_rows_def)
    have hand: "set (in_hand (wp_workers p ! i)) \<subseteq> set (wp_published p)"
      using accounted_in_hand [OF acc broken(2)] by blast
    have w: "in_hand (wp_workers p ! i) = executed_in_hand (wp_workers p ! i)" "wp_workers p ! i \<noteq> Dead"
      "length (executed_in_hand (wp_workers p ! i)) \<le> 1" using broken(3) by auto
    show ?thesis
      by (rule exI, rule executed_update [OF D broken(2), of _ Dead "in_hand (wp_workers p ! i) @ D"])
        (use hand sub w in \<open>simp_all add: broken(1) ac_simps\<close>)
  qed
  then show ?thesis using accounted_channel [OF step acc] by (simp add: written_def)
qed

lemma weight_update:
  assumes "i < length ws"
  shows "sum_list (map weight (ws[i := x])) + weight (ws ! i) = sum_list (map weight ws) + weight x"
  using assms
proof (induction ws arbitrary: i)
  case (Cons y ws)
  then show ?case by (cases i) auto
qed simp

lemma backlog_work:
  assumes step: "worker_step h p q" and "wp_published q = wp_published p" and "wp_stop q = wp_stop p" and "\<not> wp_stop p"
  shows "backlog q < backlog p"
  using step
proof cases
  case (poll i)
  with weight_update [of i "wp_workers p" Polling] show ?thesis by (simp add: backlog_def)
next
  case (deliver i m rest)
  with weight_update [of i "wp_workers p" "Handling m"] show ?thesis by (simp add: backlog_def)
next
  case (handled i m w)
  with weight_update [of i "wp_workers p" "Executed m"] show ?thesis by (simp add: backlog_def)
next
  case (acked i m)
  with weight_update [of i "wp_workers p" Ready] show ?thesis by (simp add: backlog_def)
next
  case (failed i m e w)
  with weight_update [of i "wp_workers p" Dead] show ?thesis by (simp add: backlog_def)
qed (use assms(2-4) in \<open>auto simp: shutdown_pool_def\<close>)

lemma stuck_is_drained:
  assumes E: "sound_env log rows fits E" and acc: "accounted p" and "\<not> wp_stop p" and "Stopped \<notin> set (wp_workers p)"
    and pub: "list_all (executable fits) (wp_published p)"
    and stuck: "\<And>q. worker_step (executeMysql (ce_mysql E)) p q \<Longrightarrow> wp_published q = wp_published p \<Longrightarrow>
      wp_stop q = wp_stop p \<Longrightarrow> False"
  shows "list_all (\<lambda>x. x = Dead) (wp_workers p) \<or> wp_queue p = [] \<and> in_hands p = []"
proof -
  let ?h = "executeMysql (ce_mysql E)"
  have idle: "wp_workers p ! i \<in> {Polling, Dead}" if i: "i < length (wp_workers p)" for i
  proof (cases "wp_workers p ! i")
    case Ready
    from worker_step.poll [OF assms(3) i Ready, of ?h] stuck show ?thesis by force
  next
    case (Handling m)
    obtain r w where run: "?h m (wp_world p) = (r, w)" by (rule prod.exhaust)
    have "executable fits m" using pub accounted_in_hand [OF acc i, of m] Handling by (auto simp: list_all_iff)
    from execute_one [OF E this run] worker_step.handled [where handler = ?h, OF i Handling]
      worker_step.failed [where handler = ?h, OF i Handling] run stuck show ?thesis by (cases r) force+
  next
    case (Executed m)
    from worker_step.acked [where handler = ?h, OF i Executed] stuck show ?thesis by force
  next
    case Stopped
    with assms(4) i show ?thesis by (metis nth_mem)
  qed auto
  have hands: "in_hands p = []" using idle by (fastforce simp: in_set_conv_nth)
  show ?thesis
  proof (cases "wp_queue p")
    case (Cons m rest)
    have "wp_workers p ! i \<noteq> Polling" if "i < length (wp_workers p)" for i
      using worker_step.deliver [OF that _ Cons, of ?h] stuck by force
    with idle show ?thesis by (auto simp: list_all_length)
  qed (simp add: hands)
qed

subsection \<open>The invariant of the system\<close>

definition system_inv ::
    "('w \<Rightarrow> bytes list) \<Rightarrow> ('w \<Rightarrow> chat_row multiset) \<Rightarrow> (said \<Rightarrow> bool) \<Rightarrow> bytes list \<Rightarrow>
      ('m, 'w) system \<Rightarrow> ('m, 'w) system \<Rightarrow> bool" where
  "system_inv log rows fits waiting y0 y \<longleftrightarrow>
     (\<exists>xs. told log (sy_server y0) (sy_server y) xs \<and> wp_published (sy_pool y) = waiting @ map statement_of (sent xs)) \<and>
     wp_world (sy_pool y) = world_of (sy_server y) \<and>
     \<not> wp_stop (sy_pool y) \<and> Stopped \<notin> set (wp_workers (sy_pool y)) \<and>
     written rows fits (rows (world_of (sy_server y0))) (sy_pool y)"

lemma told_refl: "told log s s []"
  by (simp add: told_def)

lemma told_trans: "told log s s1 xs \<Longrightarrow> told log s1 s2 ys \<Longrightarrow> told log s s2 (xs @ ys)"
  by (simp add: told_def)

lemma told_same: "told log s0 s xs \<Longrightarrow> told log s0 s ys \<Longrightarrow> map statement_of (sent ys) = map statement_of (sent xs)"
  by (simp add: told_def)

lemma told_world:
  "told log s0 s xs \<Longrightarrow> log w = log (world_of s) \<Longrightarrow> told log s0 (with_world w s) xs"
  by (simp add: told_def helper_messages_def world_of_def with_world_def)

lemma world_of_with [simp]: "world_of (with_world w s) = w"
  by (simp add: world_of_def with_world_def)

lemma helper_messages_with [simp]: "helper_messages u sid (with_world w s) = helper_messages u sid s"
  by (simp add: helper_messages_def with_world_def)

lemma request_told:
  assumes "recorded log E" and "handleRequest (ChatServer B T X E b) req resp s = (r, resp', s')"
  shows "\<exists>xs. told log s s' xs"
proof -
  have "published log E s s" using told_refl unfolding published_def by fastforce
  from request_published [OF this, of B T X b req resp] show ?thesis
    using assms by (auto simp: published_def)
qed

lemma system_inv_start:
  assumes "sy_pool y0 = start_pool n waiting (world_of (sy_server y0))"
  shows "system_inv log rows fits waiting y0 y0"
proof -
  have "executed_rows rows (rows (world_of (sy_server y0))) [] (start_pool n waiting (world_of (sy_server y0)))"
    by (simp add: executed_rows_def start_pool_def)
  then show ?thesis
    using assms told_refl accounted_start [of n waiting "world_of (sy_server y0)"]
    by (auto simp: system_inv_def written_def start_pool_def intro!: exI [of _ "[]"])
qed

lemma worker_log:
  assumes "sound_env log rows fits E" and "worker_step (executeMysql (ce_mysql E)) p q"
  shows "log (wp_world q) = log (wp_world p)"
  using assms(2)
  by cases (auto simp: shutdown_pool_def dest: silentD [OF silent_execute [OF assms(1)]])

lemma worker_not_stopped:
  assumes "worker_step h p q" and "\<not> wp_stop p" and "Stopped \<notin> set (wp_workers p)"
  shows "Stopped \<notin> set (wp_workers q)"
  using assms by cases (auto simp: shutdown_pool_def dest!: subsetD [OF set_update_subset_insert])

lemma system_inv_work:
  assumes E: "sound_env log rows fits E" and step: "work_step (ce_mysql E) y y'"
    and inv: "system_inv log rows fits waiting y0 y"
  shows "system_inv log rows fits waiting y0 y'"
proof -
  obtain p where p: "worker_step (executeMysql (ce_mysql E)) (sy_pool y) p" "wp_published p = wp_published (sy_pool y)"
    "wp_stop p = wp_stop (sy_pool y)"
    and y': "y' = y\<lparr>sy_server := with_world (wp_world p) (sy_server y), sy_pool := p\<rparr>"
    using step by (auto simp: work_step_def)
  have i: "wp_world (sy_pool y) = world_of (sy_server y)" "\<not> wp_stop (sy_pool y)" "Stopped \<notin> set (wp_workers (sy_pool y))"
    "written rows fits (rows (world_of (sy_server y0))) (sy_pool y)"
    using inv by (simp_all add: system_inv_def)
  have log: "log (wp_world p) = log (world_of (sy_server y))"
    unfolding i(1) [symmetric] by (rule worker_log [OF E p(1)])
  obtain xs where xs: "told log (sy_server y0) (sy_server y) xs"
    "wp_published (sy_pool y) = waiting @ map statement_of (sent xs)" using inv by (auto simp: system_inv_def)
  from told_world [OF xs(1) log] have "told log (sy_server y0) (with_world (wp_world p) (sy_server y)) xs" .
  with xs(2) p(2,3) i(2) worker_not_stopped [OF p(1) i(2,3)] written_work [OF E p(1,2) i(4)] show ?thesis
    unfolding system_inv_def y' by (intro conjI exI [of _ xs]) simp_all
qed

lemma system_inv_fault:
  assumes step: "channel_step (sy_pool y) p" and inv: "system_inv log rows fits waiting y0 y"
  shows "system_inv log rows fits waiting y0 (y\<lparr>sy_pool := p\<rparr>)"
proof -
  have "wp_published p = wp_published (sy_pool y) \<and> wp_world p = wp_world (sy_pool y) \<and>
      wp_stop p = wp_stop (sy_pool y) \<and> (Stopped \<notin> set (wp_workers (sy_pool y)) \<longrightarrow> Stopped \<notin> set (wp_workers p))"
    using step by cases (auto dest!: subsetD [OF set_update_subset_insert])
  with inv written_fault [OF step] show ?thesis by (auto simp: system_inv_def)
qed

lemma written_take:
  assumes "written rows fits R p" and "rows w = rows (wp_world p)"
  shows "written rows fits R (take_statements ms w p)"
proof -
  have "executed_rows rows R D (take_statements ms w p)" if "executed_rows rows R D p" for D
    using that assms(2) by (auto simp: executed_rows_def take_statements_def dead_workers_def)
  then show ?thesis
    using assms(1) by (auto simp: written_def take_statements_def accounted_def dead_workers_def ac_simps)
qed

lemma system_inv_request:
  assumes E: "sound_env log rows fits E" and run: "handleRequest (ChatServer B T X E b) req resp (sy_server y) = (r, resp', s)"
    and inv: "system_inv log rows fits waiting y0 y"
  shows "system_inv log rows fits waiting y0 (y\<lparr>sy_server := s, sy_pool := take_statements
    (new_statements log (world_of (sy_server y)) (world_of s)) (world_of s) (sy_pool y)\<rparr>)"
proof -
  obtain ys where ys: "told log (sy_server y) s ys" using request_told [OF sound_envD(1) [OF E] run] by blast
  then have new: "new_statements log (world_of (sy_server y)) (world_of s) = map statement_of (sent ys)"
    by (simp add: told_def new_statements_def)
  obtain xs where xs: "told log (sy_server y0) (sy_server y) xs"
    "wp_published (sy_pool y) = waiting @ map statement_of (sent xs)" using inv by (auto simp: system_inv_def)
  have i: "wp_world (sy_pool y) = world_of (sy_server y)"
    "written rows fits (rows (world_of (sy_server y0))) (sy_pool y)"
    "\<not> wp_stop (sy_pool y)" "Stopped \<notin> set (wp_workers (sy_pool y))"
    using inv by (simp_all add: system_inv_def)
  have "rows (world_of s) = rows (wp_world (sy_pool y))"
    using request_rest [OF sound_envD(2) [OF E], of B T X b req resp "sy_server y"] run i(1) by simp
  from written_take [OF i(2) this] have
    "written rows fits (rows (world_of (sy_server y0))) (take_statements (map statement_of (sent ys)) (world_of s) (sy_pool y))" .
  then show ?thesis
    using i(3,4) told_trans [OF xs(1) ys] xs(2) unfolding system_inv_def new
    by (intro conjI exI [of _ "xs @ ys"]) (simp_all add: take_statements_def)
qed

lemma system_inv_run:
  assumes E: "sound_env log rows fits E" and "sy_pool y0 = start_pool n waiting (world_of (sy_server y0))"
    and run: "system_run (ChatServer B T X E b) log (ce_mysql E) y0 y"
  shows "system_inv log rows fits waiting y0 y"
  using run unfolding system_run_def
proof (induction rule: rtranclp_induct)
  case base
  show ?case using assms(2) by (rule system_inv_start)
next
  case (step y y')
  from step(2) show ?case
    by (rule system_stepE)
      (auto intro: system_inv_work [OF E _ step.IH] system_inv_request [OF E _ step.IH] system_inv_fault [OF _ step.IH])
qed

lemma published_told:
  "system_inv log rows fits waiting y0 y \<Longrightarrow> told log (sy_server y0) (sy_server y) xs \<Longrightarrow>
    wp_published (sy_pool y) = waiting @ map statement_of (sent xs)"
  by (auto simp: system_inv_def dest: told_same)

subsection \<open>The workers empty the queue\<close>

lemma work_told:
  assumes "sound_env log rows fits E" and "system_inv log rows fits waiting y0 y" and "work_step (ce_mysql E) y y'"
    and "told log (sy_server y0) (sy_server y) xs"
  shows "told log (sy_server y0) (sy_server y') xs"
proof -
  obtain p where p: "worker_step (executeMysql (ce_mysql E)) (sy_pool y) p"
    and y': "y' = y\<lparr>sy_server := with_world (wp_world p) (sy_server y), sy_pool := p\<rparr>"
    using assms(3) by (auto simp: work_step_def)
  have "log (wp_world p) = log (world_of (sy_server y))"
    using worker_log [OF assms(1) p] assms(2) unfolding system_inv_def by metis
  from told_world [OF assms(4) this] show ?thesis by (simp add: y')
qed

lemma executable_told: "list_all (storable fits) xs \<Longrightarrow> list_all (executable fits) (map statement_of xs)"
  by (auto simp: list_all_iff executable_def)

lemma work_run:
  assumes E: "sound_env log rows fits E" and "(work_step (ce_mysql E) ^^ k) y y'"
    and "system_inv log rows fits waiting y0 y" and "told log (sy_server y0) (sy_server y) xs"
  shows "system_inv log rows fits waiting y0 y' \<and> told log (sy_server y0) (sy_server y') xs \<and>
    backlog (sy_pool y') + k \<le> backlog (sy_pool y)"
  using assms(2)
proof (induction k arbitrary: y')
  case (Suc k)
  obtain y1 where y1: "(work_step (ce_mysql E) ^^ k) y y1" and step: "work_step (ce_mysql E) y1 y'"
    using Suc.prems by auto
  from Suc.IH [OF y1] have i: "system_inv log rows fits waiting y0 y1" and t: "told log (sy_server y0) (sy_server y1) xs"
    and b: "backlog (sy_pool y1) + k \<le> backlog (sy_pool y)" by auto
  from step obtain p where "worker_step (executeMysql (ce_mysql E)) (sy_pool y1) p"
    "wp_published p = wp_published (sy_pool y1)" "wp_stop p = wp_stop (sy_pool y1)" "sy_pool y' = p"
    by (auto simp: work_step_def)
  with backlog_work [of "executeMysql (ce_mysql E)" "sy_pool y1" p] i have "backlog (sy_pool y') < backlog (sy_pool y1)"
    by (simp add: system_inv_def)
  then show ?case
    using b system_inv_work [OF E step i] work_told [OF E i step t] by simp
qed (use assms in simp)

text \<open>Where the database executes what it is given, no worker dies by itself.\<close>

lemma lawful_execute:
  assumes "lawful log rows fits E" and "executable fits m"
  shows "\<exists>w'. executeMysql (ce_mysql E) m w = (Ok (), w')"
proof -
  obtain x where x: "storable fits x" "m = statement_of x" using assms(2) by (auto simp: executable_def)
  obtain n w' where "my_update (ce_mysql E) m [] w = (Ok n, w')"
    using executes_one [OF lawfulD(3) [OF assms(1)] x(1)] x(2) by blast
  then show ?thesis by (simp add: executeMysql_def bind_act_def return_act_def)
qed

lemma lawful_dead:
  assumes E: "lawful log rows fits E" and step: "worker_step (executeMysql (ce_mysql E)) p q" and acc: "accounted p"
    and pub: "list_all (executable fits) (wp_published p)"
  shows "dead_workers q = dead_workers p"
proof -
  note split = dead_split [of _ "wp_workers p", folded dead_workers_def]
  from step show ?thesis
  proof cases
    case (failed i m e w)
    with lawful_execute [OF E, of m "wp_world p"] accounted_in_hand [OF acc failed(2), of m] pub
    show ?thesis by (auto simp: list_all_iff)
  qed (auto simp: dead_workers_def shutdown_pool_def dead_split)
qed

lemma lawful_run:
  assumes E: "lawful log rows fits E" and "(work_step (ce_mysql E) ^^ k) y y'"
    and inv: "system_inv log rows fits (map statement_of ws) y0 y" and t: "told log (sy_server y0) (sy_server y) xs"
    and st: "list_all (storable fits) (ws @ sent xs)"
  shows "dead_workers (sy_pool y') = dead_workers (sy_pool y)"
  using assms(2)
proof (induction k arbitrary: y')
  case (Suc k)
  obtain y1 where y1: "(work_step (ce_mysql E) ^^ k) y y1" and step: "work_step (ce_mysql E) y1 y'"
    using Suc.prems by auto
  have i: "system_inv log rows fits (map statement_of ws) y0 y1" "told log (sy_server y0) (sy_server y1) xs"
    using work_run [OF lawfulD(1) [OF E] y1 inv t] by auto
  have "list_all (executable fits) (wp_published (sy_pool y1))"
    using published_told [OF i] executable_told [OF st] by simp
  moreover have "accounted (sy_pool y1)" using i(1) by (simp add: system_inv_def written_def)
  ultimately have "dead_workers (sy_pool y') = dead_workers (sy_pool y1)"
    using step lawful_dead [OF E] by (auto simp: work_step_def)
  with Suc.IH [OF y1] show ?case by simp
qed simp

lemma stuck_system:
  assumes E: "sound_env log rows fits E" and inv: "system_inv log rows fits (map statement_of ws) y0 y"
    and "told log (sy_server y0) (sy_server y) xs" and "list_all (storable fits) (ws @ sent xs)"
    and stuck: "\<nexists>y'. work_step (ce_mysql E) y y'"
  shows "list_all (\<lambda>x. x = Dead) (wp_workers (sy_pool y)) \<or> wp_queue (sy_pool y) = [] \<and> in_hands (sy_pool y) = []"
proof -
  have pub: "list_all (executable fits) (wp_published (sy_pool y))"
    using published_told [OF inv assms(3)] executable_told [OF assms(4)] by simp
  have i: "accounted (sy_pool y)" "\<not> wp_stop (sy_pool y)" "Stopped \<notin> set (wp_workers (sy_pool y))"
    using inv by (auto simp: system_inv_def written_def)
  have no: False if "worker_step (executeMysql (ce_mysql E)) (sy_pool y) q" "wp_published q = wp_published (sy_pool y)"
    "wp_stop q = wp_stop (sy_pool y)" for q
    using stuck that unfolding work_step_def by blast
  show ?thesis using stuck_is_drained [OF E i pub no] by simp
qed

subsection \<open>What is in the table\<close>

lemma executed_in_part: "\<exists>H. mset (concat (map in_hand ws)) = mset (concat (map executed_in_hand ws)) + H"
proof (induction ws)
  case (Cons w ws)
  then obtain H where H: "mset (concat (map in_hand ws)) = mset (concat (map executed_in_hand ws)) + H" ..
  show ?case
  proof (cases w)
    case (Handling m)
    with H show ?thesis by (intro exI [of _ "add_mset m H"]) simp
  qed (use H in \<open>auto intro!: exI [of _ H]\<close>)
qed simp

lemma rows_waiting:
  \<comment> \<open>what reached the queue is in the table or waits, and a dead worker may have left a second row\<close>
  assumes inv: "system_inv log rows fits (map statement_of ws) y0 y" and t: "told log (sy_server y0) (sy_server y) xs"
    and st: "list_all (storable fits) (ws @ sent xs)"
  shows "\<exists>ds zs D. mset (ws @ sent xs) = mset ds + mset zs \<and>
    rows (world_of (sy_server y)) = rows (world_of (sy_server y0)) + mset (map row_of ds) + mset (map row_of D) \<and>
    mset (map statement_of zs) + mset (executed_in_hands (sy_pool y)) = mset (wp_queue (sy_pool y)) + mset (in_hands (sy_pool y)) \<and>
    set D \<subseteq> set (ws @ sent xs) \<and> length D \<le> dead_workers (sy_pool y)"
proof -
  let ?p = "sy_pool y" and ?all = "ws @ sent xs" and ?ex = "mset (wp_acked (sy_pool y)) + mset (executed_in_hands (sy_pool y))"
  have pub: "wp_published ?p = map statement_of ?all" using published_told [OF inv t] by simp
  then have exe: "list_all (executable fits) (wp_published ?p)" using executable_told [OF st] by simp
  obtain D' where acc: "mset (wp_queue ?p) + mset (in_hands ?p) + mset (wp_acked ?p) = mset (wp_published ?p)"
    and r: "rows (world_of (sy_server y)) = rows (world_of (sy_server y0)) + image_mset statement_row (?ex + mset D')"
    and D': "set D' \<subseteq> set (wp_published ?p)" "length D' \<le> dead_workers ?p"
    using inv exe unfolding system_inv_def written_def accounted_def executed_rows_def by metis
  obtain H where H: "mset (in_hands ?p) = mset (executed_in_hands ?p) + H" using executed_in_part by blast
  have "image_mset statement_of (mset ?all) = ?ex + (mset (wp_queue ?p) + H)"
    using acc unfolding pub H by (simp add: ac_simps)
  then obtain A Z where AZ: "mset ?all = A + Z" "?ex = image_mset statement_of A"
    "mset (wp_queue ?p) + H = image_mset statement_of Z"
    using image_mset_eq_plusD [of statement_of "mset ?all"] by metis
  obtain ds zs where dz: "mset ds = A" "mset zs = Z" using ex_mset by metis
  have "set ds \<subseteq> set ?all" using AZ(1) dz(1) by (metis set_mset_mset mset_subset_eq_add_left set_mset_mono)
  then have ds: "list_all (storable fits) ds" using st by (auto simp: list_all_iff)
  have "\<forall>m\<in>set D'. \<exists>x. x \<in> set ?all \<and> statement_of x = m" using D'(1) unfolding pub by auto
  then obtain g where g: "\<forall>m\<in>set D'. g m \<in> set ?all \<and> statement_of (g m) = m" by metis
  have D: "map statement_of (map g D') = D'" "set (map g D') \<subseteq> set ?all" using g by (auto intro!: map_idI)
  then have Dst: "list_all (storable fits) (map g D')" using st by (auto simp: list_all_iff)
  have "image_mset statement_row (image_mset statement_of A) = mset (map row_of ds)"
    using statement_rows_of [OF ds] unfolding dz(1) [symmetric] by (metis mset_map)
  moreover have "image_mset statement_row (mset D') = mset (map row_of (map g D'))"
    using statement_rows_of [OF Dst] unfolding D(1) by (metis mset_map)
  ultimately have "rows (world_of (sy_server y)) =
      rows (world_of (sy_server y0)) + mset (map row_of ds) + mset (map row_of (map g D'))"
    unfolding r AZ(2) by (simp add: ac_simps)
  moreover have "mset (map statement_of zs) + mset (executed_in_hands ?p) = mset (wp_queue ?p) + mset (in_hands ?p)"
    unfolding H using AZ(3) dz(2) by (simp add: ac_simps)
  ultimately show ?thesis
    using AZ(1) dz D(2) D'(2) by (intro exI [of _ ds] exI [of _ zs] exI [of _ "map g D'"]) simp
qed

lemma drained_rows:
  assumes "system_inv log rows fits (map statement_of ws) y0 y" and "told log (sy_server y0) (sy_server y) xs"
    and "list_all (storable fits) (ws @ sent xs)" and "wp_queue (sy_pool y) = []" and "in_hands (sy_pool y) = []"
  shows "\<exists>D. rows (world_of (sy_server y)) =
      rows (world_of (sy_server y0)) + mset (map row_of (ws @ sent xs)) + mset (map row_of D) \<and>
    set D \<subseteq> set (ws @ sent xs) \<and> length D \<le> dead_workers (sy_pool y)"
proof -
  obtain ds zs D where d: "mset (ws @ sent xs) = mset ds + mset zs"
    "mset (map statement_of zs) + mset (executed_in_hands (sy_pool y)) = {#}"
    "rows (world_of (sy_server y)) = rows (world_of (sy_server y0)) + mset (map row_of ds) + mset (map row_of D)"
    "set D \<subseteq> set (ws @ sent xs)" "length D \<le> dead_workers (sy_pool y)"
    using rows_waiting [OF assms(1-3)] unfolding assms(4,5) by auto
  then have "mset (ws @ sent xs) = mset ds" by simp
  then have "mset (map row_of ds) = mset (map row_of (ws @ sent xs))" by (metis mset_map)
  with d(3-5) show ?thesis by auto
qed

subsection \<open>Starting again\<close>

definition started :: "('w \<Rightarrow> chat_row multiset) \<Rightarrow> bytes list \<Rightarrow> ('m, 'w) system \<Rightarrow> bool" where
  \<comment> \<open>as \<open>main\<close> leaves it: the conversations are those of the table, the workers are ready\<close>
  "started rows waiting y \<longleftrightarrow>
     (\<exists>rs. mset rs = rows (world_of (sy_server y)) \<and> sorted (map row_time rs) \<and>
           (\<forall>u sid. helper_messages u sid (sy_server y) = conversation_rows u sid rs)) \<and>
     sy_pool y = start_pool THREAD_NUM waiting (world_of (sy_server y))"

lemma main_starts:
  fixes E :: "('j, 'm, 'i, 'f, 'w) chat_env"
  assumes "aside rows E" and "readable_db rows E"
  shows "\<exists>y :: ('m, 'w) system. main_program E time rand opts waiting w = Some (Ok y) \<and> started rows waiting y \<and>
    rows (world_of (sy_server y)) = rows w \<and> sy_port y = listen_port (main_port opts)"
proof -
  obtain w1 where i: "my_init (ce_mysql E) ''tcp://127.0.0.1:3306'' ''httpserver'' ''123456'' ''ChatHttpServer'' 5 w =
      (Ok (), w1)" "rows w1 = rows w" using readable_dbD(3) [OF assms(2)] by blast
  let ?w = "wb_sleep (ce_web E) 2 w1"
  have sil: "silent_mysql rows (ce_mysql E)" "silent_web rows (ce_web E)"
    using assms(1) by (simp_all add: aside_def silent_env_def)
  obtain s rs where s: "initChatMessage (ce_mysql E) (new_response False, new_chat time rand ?w :: ('m, 'w) chat_server) =
      Some (Ok (), (new_response False, s))"
    "mset rs = rows ?w" "sorted (map row_time rs)"
    "\<forall>u sid. helper_messages u sid s = conversation_rows u sid rs" "rows (world_of s) = rows ?w"
    using restored_table [OF readable_dbD(1) [OF assms(2)] sil(1) readable_dbD(2) [OF assms(2)]] by blast
  then show ?thesis
    using silent_webD(6) [OF sil(2)] i by (auto simp: main_program_def started_def)
qed

end
