(* ===== verification/Packet_System.thy ===== *)
theory Packet_System
  imports Wire_Properties Connections System
begin

section \<open>The application under packets\<close>

text \<open>
  The chat application over all its connections.  A connection event (a packet, a connection that opens or
  closes, a completed write) is at most one call of \<open>handleRequest\<close>, whatever bytes the packet has and
  with or without TLS.  So what every request keeps, every run of events keeps; and the whole program,
  with packets instead of requests between the steps of the workers, is an instance of \<open>System\<close>.
\<close>

lemma app_callback:
  "httpCallback (ChatServer B T X E b) req resp s = (x, resp', s') \<Longrightarrow>
   s' = snd (snd (handleRequest (ChatServer B T X E b) req resp s))"
  by (simp add: app_plain)

interpretation ok_connections: callback_contract "ChatServer B T X E b" chat_ok for B T X E b
  by unfold_locales (auto dest!: app_callback intro: request_keeps_ok)

interpretation told_connections: callback_contract "ChatServer B T X E b" "published log E s0" for B T X E b log s0
  by unfold_locales (auto dest!: app_callback intro: request_published)

definition one_request ::
    "('b, 't, 'm, 'w) app_server \<Rightarrow> ('m, 'w) chat_server \<Rightarrow> ('m, 'w) chat_server \<Rightarrow> bool" where
  \<comment> \<open>nothing, or one call of \<open>handleRequest\<close>\<close>
  "one_request srv s s' \<longleftrightarrow> s' = s \<or> (\<exists>req resp r resp'. handleRequest srv req resp s = (r, resp', s'))"

interpretation app_connections: callback_relation "ChatServer B T X E b" "one_request (ChatServer B T X E b)" for B T X E b
  by unfold_locales (auto simp: app_plain one_request_def)

subsection \<open>Packets and workers\<close>

record ('b, 't, 'm, 'w) packet_system =
  pk_port :: nat
  pk_live :: "('b, 't, ('m, 'w) chat_server) live_server"
  pk_pool :: "'w worker_pool"

definition system_of :: "('b, 't, 'm, 'w) packet_system \<Rightarrow> ('m, 'w) system" where
  "system_of z = \<lparr>sy_port = pk_port z, sy_server = lv_app (pk_live z), sy_pool = pk_pool z\<rparr>"

definition listening :: "('m, 'w) system \<Rightarrow> ('b, 't, 'm, 'w) packet_system" where
  \<comment> \<open>\<open>server.start()\<close>: no connection yet\<close>
  "listening y = \<lparr>pk_port = sy_port y, pk_live = new_live_server (sy_server y), pk_pool = sy_pool y\<rparr>"

inductive packet_step ::
    "('b, 't, 'm, 'w) app_server \<Rightarrow> ('w \<Rightarrow> bytes list) \<Rightarrow> 'w mysql_ops \<Rightarrow>
      ('b, 't, 'm, 'w) packet_system \<Rightarrow> ('b, 't, 'm, 'w) packet_system \<Rightarrow> bool"
  for srv log M where
  event: "event_step srv ev (pk_live z) = Some (x, st) \<Longrightarrow>
    packet_step srv log M z
      (z\<lparr>pk_live := st,
         pk_pool := take_statements (new_statements log (world_of (lv_app (pk_live z))) (world_of (lv_app st)))
           (world_of (lv_app st)) (pk_pool z)\<rparr>)"
| work: "work_step M (system_of z) y \<Longrightarrow>
    packet_step srv log M z (z\<lparr>pk_live := (pk_live z)\<lparr>lv_app := sy_server y\<rparr>, pk_pool := sy_pool y\<rparr>)"
| fault: "channel_step (pk_pool z) p \<Longrightarrow> packet_step srv log M z (z\<lparr>pk_pool := p\<rparr>)"

definition packet_run ::
    "('b, 't, 'm, 'w) app_server \<Rightarrow> ('w \<Rightarrow> bytes list) \<Rightarrow> 'w mysql_ops \<Rightarrow>
      ('b, 't, 'm, 'w) packet_system \<Rightarrow> ('b, 't, 'm, 'w) packet_system \<Rightarrow> bool" where
  "packet_run srv log M = (packet_step srv log M)\<^sup>*\<^sup>*"

lemma system_of_listening [simp]: "system_of (listening y) = y"
  by (simp add: system_of_def listening_def new_live_server_def)

lemma listening_pool [simp]: "pk_pool (listening y) = sy_pool y"
  by (simp add: listening_def)

lemma no_statements: "wp_world p = w \<Longrightarrow> take_statements (new_statements log w w) w p = p"
  by (simp add: take_statements_def new_statements_def)

lemma packet_refines:
  assumes "packet_step (ChatServer B T X E b) log M z z'" and "wp_world (pk_pool z) = world_of (lv_app (pk_live z))"
  shows "(system_step (ChatServer B T X E b) log M)\<^sup>*\<^sup>* (system_of z) (system_of z') \<and>
    wp_world (pk_pool z') = world_of (lv_app (pk_live z'))"
  using assms(1)
proof cases
  case (event ev x st)
  let ?s = "lv_app (pk_live z)" and ?s' = "lv_app st"
  from app_connections.event_related [OF event(2)]
  consider "?s' = ?s" | req resp r resp' where "handleRequest (ChatServer B T X E b) req resp ?s = (r, resp', ?s')"
    by (auto simp: one_request_def)
  then show ?thesis
  proof cases
    case 1
    with event(1) assms(2) show ?thesis by (simp add: system_of_def no_statements [OF assms(2)])
  next
    case 2
    then have "handleRequest (ChatServer B T X E b) req resp (sy_server (system_of z)) = (r, resp', ?s')"
      by (simp add: system_of_def)
    from r_into_rtranclp [where r = "system_step (ChatServer B T X E b) log M", OF system_step.request [OF this]] event(1)
    show ?thesis by (simp add: system_of_def take_statements_def)
  qed
next
  case (work y)
  obtain p where "y = (system_of z)\<lparr>sy_server := with_world (wp_world p) (sy_server (system_of z)), sy_pool := p\<rparr>"
    using work(2) by (auto simp: work_step_def)
  moreover from this have "system_of z' = y" using work(1) by (simp add: system_of_def)
  ultimately show ?thesis using work system_step.work [OF work(2), of "ChatServer B T X E b" log] by auto
next
  case (fault p)
  have "wp_world p = wp_world (pk_pool z)" using fault(2) by cases simp
  moreover have "system_step (ChatServer B T X E b) log M (system_of z) (system_of z')"
    using system_step.fault [of "system_of z" p "ChatServer B T X E b" log M] fault by (simp add: system_of_def)
  ultimately show ?thesis using fault(1) assms(2) by (auto simp: system_of_def)
qed

lemma packets_refine:
  assumes "packet_run (ChatServer B T X E b) log M z z'" and "wp_world (pk_pool z) = world_of (lv_app (pk_live z))"
  shows "system_run (ChatServer B T X E b) log M (system_of z) (system_of z') \<and>
    wp_world (pk_pool z') = world_of (lv_app (pk_live z'))"
  using assms(1) unfolding packet_run_def system_run_def
proof (induction rule: rtranclp_induct)
  case (step z1 z2)
  with packet_refines [OF step(2)] show ?case by (meson rtranclp_trans)
qed (simp add: assms(2))

lemma events_run:
  "server_run srv evs (pk_live z) = Some (Ok (), st) \<Longrightarrow>
   \<exists>z'. packet_run srv log M z z' \<and> pk_live z' = st \<and> wp_workers (pk_pool z') = wp_workers (pk_pool z) \<and>
     wp_acked (pk_pool z') = wp_acked (pk_pool z)"
  unfolding packet_run_def
proof (induction evs arbitrary: z)
  case (Cons ev evs)
  obtain y st1 where e: "event_step srv ev (pk_live z) = Some (y, st1)" "server_run srv evs st1 = Some (Ok (), st)"
    using Cons.prems by (auto split: option.splits outcome.splits)
  note step = packet_step.event [where log = log and M = M, OF e(1)]
  let ?z = "z\<lparr>pk_live := st1, pk_pool := take_statements (new_statements log (world_of (lv_app (pk_live z)))
    (world_of (lv_app st1))) (world_of (lv_app st1)) (pk_pool z)\<rparr>"
  obtain z' where "(packet_step srv log M)\<^sup>*\<^sup>* ?z z'" "pk_live z' = st" "wp_workers (pk_pool z') = wp_workers (pk_pool z)"
    "wp_acked (pk_pool z') = wp_acked (pk_pool z)"
    using Cons.IH [of ?z] e(2) by (auto simp: take_statements_def)
  with step show ?case by (blast intro: converse_rtranclp_into_rtranclp)
qed auto

end
