(* ===== verification/Event_Loop.thy ===== *)
theory Event_Loop
  imports Connections Server_Properties Ssl_Properties
begin

section \<open>The event loop\<close>

text \<open>
  Every callback of the server returns, on every connection and with any bytes: the parser is never
  called on a complete request, and the loops of the TLS layer end.  How a callback can end the loop is
  known too: the parser is in its invariant until the connection was shut down, so only a connection that
  was answered 400 or 413 can fail an assertion.  \<open>goes_on\<close> is the invariant of a connection in the table.
\<close>

definition libraries ::
    "('b, 't, 's) server \<Rightarrow> ('t \<Rightarrow> nat) \<Rightarrow> ('t \<Rightarrow> nat) \<Rightarrow> ('t \<Rightarrow> bytes) \<Rightarrow> bool" where
  \<comment> \<open>what the buffer and, with TLS, OpenSSL promise\<close>
  "libraries srv wsize rsize acc \<longleftrightarrow>
     buffer_laws (sv_buffer srv) \<and> (sv_useSSL srv \<longrightarrow> tls_laws (sv_tls srv) wsize rsize acc)"

definition reading :: "('b, 't, 'a) conn_state \<Rightarrow> bool" where
  \<comment> \<open>not in the state in which the parser does not return; and in its invariant, or shut down\<close>
  "reading cs \<longleftrightarrow> (\<exists>c. cs_context cs = Some c \<and> \<not> gotAll c \<and> (ctx_inv c \<or> ConnShutdown \<in> set (cs_out cs)))"

definition handler_ends :: "('b, 't, 's) server \<Rightarrow> (thrown_value, unit) outcome \<Rightarrow> bool" where
  \<comment> \<open>a handler, a middleware or a callback of the router ended so; \<open>std::exception\<close>s are caught\<close>
  "handler_ends srv x \<longleftrightarrow> x \<noteq> Ok () \<and> (\<forall>e. x \<noteq> Throw (ThrowStd e)) \<and>
     (\<exists>req resp s resp' s'. handleRequest srv req resp s = (x, resp', s'))"

definition ends_well :: "('b, 't, 's) server \<Rightarrow> (thrown_value, unit) outcome \<Rightarrow> ('b, 't, 'a) conn_state \<Rightarrow> bool" where
  "ends_well srv x cs \<longleftrightarrow>
     x = Ok () \<or> x = Crash AssertFailed \<and> ConnShutdown \<in> set (cs_out cs) \<or> handler_ends srv x"

definition goes_on :: "('b, 't, 's) server \<Rightarrow> ('b, 't, 'a) conn_state \<Rightarrow> bool" where
  "goes_on srv cs \<longleftrightarrow>
     (cs_ssl cs = None \<or> sv_useSSL srv) \<and> (reading cs \<or> cs_ssl cs = None \<and> sv_useSSL srv)"

lemma turn_refused: "parse_iter B t c b = Leave False c' b' \<Longrightarrow> \<not> gotAll c'"
  by (auto simp: parse_iter_def Let_def gotAll_def header_line_step_def content_length_step_def
      split: parse_state.splits option.splits sum.splits prod.splits bool.splits if_splits)

lemma parse_refused:
  "buffer_laws B \<Longrightarrow> parse_loop B t c b = Some (Inr (False, c', b')) \<Longrightarrow> \<not> gotAll c'"
proof (induction "length (readable B b)" arbitrary: c b rule: less_induct)
  case less
  note st = parse_loop_Some_state [OF less.prems(2)]
  note unf = parse_loop.simps [of B t c b]
  show ?case
  proof (cases "parse_iter B t c b")
    case (Again c1 b1)
    with turn_shrinks [OF less.prems(1) st Again] less.hyps [of b1 c1] less.prems show ?thesis by (simp add: unf)
  next
    case (Leave ok c1 b1)
    with less.prems(2) turn_refused [of B t c b c' b'] show ?thesis by (auto simp: unf)
  qed (use less.prems(2) in \<open>simp add: unf\<close>)
qed

lemma request_line_fault: "processRequestLine line r = Inl f \<Longrightarrow> f = AssertFailed"
  by (auto simp: processRequestLine_def setMethod_def Let_def split: if_splits sum.splits prod.splits bool.splits option.splits)

lemma turn_fault: "parse_iter B t c b = Abort f \<Longrightarrow> f = AssertFailed"
  by (auto simp: parse_iter_def Let_def dest: request_line_fault
      split: parse_state.splits option.splits sum.splits prod.splits bool.splits if_splits)

lemma parse_fault: "buffer_laws B \<Longrightarrow> parse_loop B t c b = Some (Inl f) \<Longrightarrow> f = AssertFailed"
proof (induction "length (readable B b)" arbitrary: c b rule: less_induct)
  case less
  note st = parse_loop_Some_state [OF less.prems(2)]
  note unf = parse_loop.simps [of B t c b]
  show ?case
  proof (cases "parse_iter B t c b")
    case (Again c1 b1)
    with turn_shrinks [OF less.prems(1) st Again] less.hyps [of b1 c1] less.prems show ?thesis by (simp add: unf)
  next
    case (Abort f1)
    with less.prems(2) turn_fault [OF Abort] show ?thesis by (simp add: unf)
  qed (use less.prems(2) in \<open>simp add: unf\<close>)
qed

lemma handleRequest_catches: "handleRequest srv req resp s \<noteq> (Throw (ThrowStd e), r)"
  by (auto simp: handleRequest_def catch_request_def split: prod.splits outcome.splits thrown_value.splits)

lemma reading_with_app [simp]: "reading (with_app s cs) = reading cs" "goes_on srv (with_app s cs) = goes_on srv cs"
  "ends_well srv x (with_app s cs) = ends_well srv x cs"
  by (simp_all add: reading_def goes_on_def ends_well_def)

lemma send_goes_on:
  assumes "libraries srv wsize rsize acc"
  shows "\<exists>cs'. sendToClient srv d cs = Some cs' \<and> cs_context cs' = cs_context cs \<and> (cs_ssl cs' = None \<longleftrightarrow> cs_ssl cs = None) \<and>
    set (cs_out cs) \<subseteq> set (cs_out cs')"
proof (cases "cs_ssl cs")
  case (Some sc)
  then show ?thesis
    using send_returns [of "sv_tls srv" wsize rsize acc d sc] assms
    by (auto simp: sendToClient_def put_ssl_def libraries_def act_def)
qed (auto simp: sendToClient_def act_def)

lemma put_buf_fields:
  "cs_context (put_buf srv b cs) = cs_context cs" "cs_ssl (put_buf srv b cs) = None \<longleftrightarrow> cs_ssl cs = None"
  "cs_out (put_buf srv b cs) = cs_out cs"
  by (simp_all add: put_buf_def split: option.split)

lemma parse_goes_on:
  assumes B: "buffer_laws B" and c: "\<not> gotAll c" "ctx_inv c \<or> down"
  shows "\<exists>r. parseRequest B t c b = Some r \<and> (\<forall>f. r = Inl f \<longrightarrow> f = AssertFailed \<and> down) \<and>
    (\<forall>c1 b1. r = Inr (False, c1, b1) \<longrightarrow> \<not> gotAll c1) \<and> (\<forall>c1 b1. r = Inr (True, c1, b1) \<longrightarrow> ctx_inv c1 \<or> down)"
proof -
  let ?c = "c\<lparr>ctx_parseErrorStatus := 400\<rparr>"
  obtain r where r: "parse_loop B t ?c b = Some r"
    using parse_loop_returns [OF B, of ?c t] c(1) by (auto simp: gotAll_def)
  have inv: "\<exists>ok c1 b1. r = Inr (ok, c1, b1) \<and> (ok \<longrightarrow> ctx_inv c1)" if "ctx_inv c"
    using parse_loop_inv [of ?c B t b] that B c(1) r by (auto simp: gotAll_def)
  have "down" if "r = Inl f" for f using inv c(2) that by auto
  moreover have "ctx_inv c1 \<or> down" if "r = Inr (True, c1, b1)" for c1 b1 using inv c(2) that by auto
  ultimately show ?thesis
    using r parse_refused [OF B] parse_fault [OF B] by (intro exI [of _ r]) (auto simp: parseRequest_def)
qed

lemma process_goes_on:
  assumes L: "libraries srv wsize rsize acc" and "sv_httpCallback srv = None" and "reading cs"
  shows "\<exists>x cs'. process_input srv t cs = Some (x, cs') \<and> ends_well srv x cs' \<and>
    (x = Ok () \<longrightarrow> reading cs') \<and> (cs_ssl cs' = None \<longleftrightarrow> cs_ssl cs = None)"
proof -
  let ?B = "sv_buffer srv" and ?down = "ConnShutdown \<in> set (cs_out cs)"
  have B: "buffer_laws ?B" using L by (simp add: libraries_def)
  obtain c where c: "cs_context cs = Some c" "\<not> gotAll c" "ctx_inv c \<or> ?down" using assms(3) by (auto simp: reading_def)
  obtain r where r: "parseRequest ?B t c (get_buf srv cs) = Some r"
    and fault: "\<And>f. r = Inl f \<Longrightarrow> f = AssertFailed \<and> ?down"
    and refused: "\<And>c1 b1. r = Inr (False, c1, b1) \<Longrightarrow> \<not> gotAll c1"
    and read: "\<And>c1 b1. r = Inr (True, c1, b1) \<Longrightarrow> ctx_inv c1 \<or> ?down"
    using parse_goes_on [OF B c(2,3), of t "get_buf srv cs"] by blast
  note simps = process_input_def c(1) r
  show ?thesis
  proof (cases r)
    case (Inl f)
    with fault [OF Inl] show ?thesis by (simp add: simps ends_well_def)
  next
    case (Inr a)
    obtain ok c1 b1 where a: "a = (ok, c1, b1)" by (metis prod_cases3)
    let ?cs1 = "(put_buf srv b1 cs)\<lparr>cs_context := Some c1\<rparr>" and ?req = "ctx_request c1"
    consider "\<not> ok" | "ok" "\<not> gotAll c1" | "ok" "gotAll c1" by blast
    then show ?thesis
    proof cases
      case 1
      then have c1: "\<not> gotAll c1" using refused Inr a by simp
      obtain cs2 where "sendToClient srv (if ctx_parseErrorStatus c1 = 413 then kHttp413 else kHttp400) ?cs1 = Some cs2"
        "cs_context cs2 = Some c1" "cs_ssl cs2 = None \<longleftrightarrow> cs_ssl cs = None"
        using send_goes_on [OF L, of "if ctx_parseErrorStatus c1 = 413 then kHttp413 else kHttp400" ?cs1]
        by (auto simp: put_buf_fields)
      with 1 c1 Inr a show ?thesis by (auto simp: simps Let_def reading_def ends_well_def act_def)
    next
      case 2
      with read Inr a show ?thesis by (auto simp: simps reading_def Let_def put_buf_fields ends_well_def)
    next
      case 3
      obtain x resp s where h: "handleRequest srv ?req (new_response (wants_close ?req)) (cs_app cs) = (x, resp, s)"
        by (metis prod_cases3)
      have "x \<noteq> Throw (ThrowStd e)" for e using h handleRequest_catches by metis
      with h have x: "x = Ok () \<or> handler_ends srv x" unfolding handler_ends_def by blast
      obtain cs2 where "sendToClient srv (readable ?B (appendToBuffer ?B resp (empty_buf ?B))) (?cs1\<lparr>cs_app := s\<rparr>) = Some cs2"
        "cs_ssl cs2 = None \<longleftrightarrow> cs_ssl cs = None"
        using send_goes_on [OF L, of "readable ?B (appendToBuffer ?B resp (empty_buf ?B))" "?cs1\<lparr>cs_app := s\<rparr>"] by (auto simp: put_buf_fields)
      with x h 3 Inr a assms(2) show ?thesis
        by (cases x) (auto simp: simps reading_def Let_def onRequest_def httpCallback_def put_buf_fields ends_well_def act_def)
    qed
  qed
qed

lemma message_goes_on:
  assumes L: "libraries srv wsize rsize acc" and "sv_httpCallback srv = None" and "goes_on srv cs"
  shows "\<exists>x cs'. onMessage srv t cs = Some (x, cs') \<and> ends_well srv x cs' \<and> (x = Ok () \<longrightarrow> goes_on srv cs')"
proof -
  have "\<exists>x cs'. try_message srv t cs = Some (x, cs') \<and> ends_well srv x cs' \<and> (x = Ok () \<longrightarrow> goes_on srv cs')"
  proof (cases "sv_useSSL srv \<and> cs_ssl cs \<noteq> None")
    case True
    then obtain sc where sc: "cs_ssl cs = Some sc" by auto
    obtain buf sc1 where o: "onRead (sv_buffer srv) (sv_tls srv) (cs_inbuf cs) sc = Some (buf, sc1)"
      using tls_operations_return [of "sv_tls srv" wsize rsize acc "[]" sc "sv_buffer srv" "cs_inbuf cs"] True L
      by (auto simp: libraries_def)
    let ?cs1 = "(put_ssl sc1 cs)\<lparr>cs_inbuf := buf\<rparr>"
    have r: "reading ?cs1" using assms(3) True by (auto simp: goes_on_def reading_def put_ssl_def)
    from process_goes_on [OF L assms(2) this, of t] r o sc True show ?thesis
      by (auto simp: try_message_def Let_def goes_on_def ends_well_def)
  next
    case False
    show ?thesis
    proof (cases "sv_useSSL srv")
      case True
      with False show ?thesis by (auto simp: try_message_def goes_on_def ends_well_def act_def reading_def)
    next
      case plain: False
      with assms(3) process_goes_on [OF L assms(2), of cs t] show ?thesis
        by (auto simp: try_message_def goes_on_def)
    qed
  qed
  then obtain x cs' where m: "try_message srv t cs = Some (x, cs')" "ends_well srv x cs'" "x = Ok () \<longrightarrow> goes_on srv cs'"
    by blast
  then have "x \<noteq> Throw (ThrowStd e)" for e by (auto simp: ends_well_def handler_ends_def)
  with m show ?thesis by (auto simp: onMessage_def split: outcome.split thrown_value.split)
qed

lemma connection_goes_on:
  assumes "libraries srv wsize rsize acc" and "goes_on srv cs \<or> cs_connected cs \<and> cs_ssl cs = None"
  shows "\<exists>cs'. connection_callback srv cs = Some (Ok (), cs') \<and> (cs_connected cs \<longrightarrow> goes_on srv cs')"
proof -
  have handshake: "\<exists>sc'. startHandshake (sv_tls srv) sc = Some sc'" if "sv_useSSL srv" for sc
    using handshake_returns [of "sv_tls srv" wsize rsize acc] assms(1) that
    by (auto simp: startHandshake_def libraries_def)
  note simps = connection_callback_def onConnection_def Let_def goes_on_def reading_def put_ssl_def act_def
  show ?thesis
  proof (cases "cs_connected cs \<and> sv_useSSL srv \<and> sv_sslCtx srv \<noteq> None")
    case True
    then obtain t where t: "sv_sslCtx srv = Some t" by blast
    obtain sc where "startHandshake (sv_tls srv) (SslConnection (sv_buffer srv) (sv_tls srv) t) = Some sc"
      using handshake True by blast
    with True t assms(2) show ?thesis by (auto simp: simps)
  qed (use assms(2) in \<open>auto simp: simps\<close>)
qed

lemma write_goes_on:
  assumes "libraries srv wsize rsize acc" and "goes_on srv cs"
  shows "\<exists>cs'. write_complete_callback srv cs = Some (Ok (), cs') \<and> goes_on srv cs'"
proof (cases "cs_ssl cs")
  case (Some sc)
  then have "sv_useSSL srv" using assms(2) by (auto simp: goes_on_def split: if_splits)
  then obtain sc' where "onWriteComplete (sv_tls srv) sc = Some sc'"
    using written_returns [of "sv_tls srv" wsize rsize acc sc] assms(1) by (auto simp: libraries_def)
  with Some assms(2) show ?thesis
    by (auto simp: write_complete_callback_def goes_on_def reading_def put_ssl_def)
qed (use assms in \<open>simp add: write_complete_callback_def\<close>)

definition all_go_on :: "('b, 't, 's) server \<Rightarrow> ('b, 't, 's) live_server \<Rightarrow> bool" where
  "all_go_on srv st \<longleftrightarrow> (\<forall>c e. lv_connections st c = Some e \<longrightarrow> goes_on srv e)"

definition loop_ends ::
    "('b, 't, 's) server \<Rightarrow> (thrown_value, unit) outcome \<Rightarrow> ('b, 't, 's) live_server \<Rightarrow> bool" where
  "loop_ends srv x st \<longleftrightarrow>
     x = Ok () \<or>
     x = Crash AssertFailed \<and> (\<exists>c e. lv_connections st c = Some e \<and> ConnShutdown \<in> set (cs_out e)) \<or>
     handler_ends srv x"

lemma on_connection_goes_on:
  assumes "all_go_on srv st"
    and "\<And>cs. goes_on srv cs \<Longrightarrow> \<exists>x cs'. f cs = Some (x, cs') \<and> ends_well srv x cs' \<and> (x = Ok () \<longrightarrow> goes_on srv cs')"
  shows "\<exists>x st'. on_connection c f st = Some (x, st') \<and> loop_ends srv x st' \<and> (x = Ok () \<longrightarrow> all_go_on srv st')"
proof (cases "lv_connections st c")
  case (Some e)
  with assms(1) have "goes_on srv (with_app (lv_app st) e)" by (auto simp: all_go_on_def)
  from assms(2) [OF this] obtain x cs' where f: "f (with_app (lv_app st) e) = Some (x, cs')" "ends_well srv x cs'"
    "x = Ok () \<longrightarrow> goes_on srv cs'" by blast
  let ?st = "st\<lparr>lv_connections := (lv_connections st)(c \<mapsto> with_app () cs'), lv_app := cs_app cs'\<rparr>"
  have "\<exists>d e. lv_connections ?st d = Some e \<and> ConnShutdown \<in> set (cs_out e)" if "ConnShutdown \<in> set (cs_out cs')"
    using that by (intro exI [of _ c] exI [of _ "with_app () cs'"]) simp
  then have "loop_ends srv x ?st" using f(2) unfolding ends_well_def loop_ends_def by blast
  moreover have "x = Ok () \<longrightarrow> all_go_on srv ?st" using f(3) assms(1) by (auto simp: all_go_on_def)
  ultimately show ?thesis using Some f(1) by (simp add: on_connection_def)
qed (use assms(1) in \<open>simp add: on_connection_def loop_ends_def\<close>)

lemma event_goes_on:
  assumes L: "libraries srv wsize rsize acc" and cb: "sv_httpCallback srv = None" and all: "all_go_on srv st"
  shows "\<exists>x st'. event_step srv ev st = Some (x, st') \<and> loop_ends srv x st' \<and> (x = Ok () \<longrightarrow> all_go_on srv st')"
proof (cases ev)
  case (Accepted c)
  let ?e = "accepted_connection (sv_buffer srv)"
  obtain cs' where "connection_callback srv (with_app (lv_app st) ?e) = Some (Ok (), cs')" "goes_on srv cs'"
    using connection_goes_on [OF L, of "with_app (lv_app st) ?e"] by (auto simp: accepted_connection_def)
  with Accepted all show ?thesis by (auto simp: on_connection_def all_go_on_def loop_ends_def)
next
  case (Arrived c t d)
  have "\<exists>x cs'. receive srv t d cs = Some (x, cs') \<and> ends_well srv x cs' \<and> (x = Ok () \<longrightarrow> goes_on srv cs')"
    if "goes_on srv cs" for cs
    unfolding receive_def using that by (intro message_goes_on [OF L cb]) (simp add: goes_on_def reading_def)
  from on_connection_goes_on [OF all this] Arrived show ?thesis by simp
next
  case (WriteComplete c)
  have "\<exists>x cs'. write_complete_callback srv cs = Some (x, cs') \<and> ends_well srv x cs' \<and> (x = Ok () \<longrightarrow> goes_on srv cs')"
    if "goes_on srv cs" for cs using write_goes_on [OF L that] by (auto simp: ends_well_def)
  from on_connection_goes_on [OF all this] WriteComplete show ?thesis by simp
next
  case (Closed c)
  show ?thesis
  proof (cases "lv_connections st c")
    case (Some e)
    with all have "goes_on srv ((with_app (lv_app st) e)\<lparr>cs_connected := False\<rparr>)"
      by (auto simp: all_go_on_def goes_on_def reading_def)
    with connection_goes_on [OF L, of "(with_app (lv_app st) e)\<lparr>cs_connected := False\<rparr>"] Some Closed all
    show ?thesis by (auto simp: on_connection_def all_go_on_def loop_ends_def)
  qed (use Closed all in \<open>auto simp: on_connection_def all_go_on_def loop_ends_def\<close>)
qed

lemma run_goes_on:
  assumes "libraries srv wsize rsize acc" and "sv_httpCallback srv = None"
  shows "all_go_on srv st \<Longrightarrow> \<exists>x st'. server_run srv evs st = Some (x, st') \<and> loop_ends srv x st'"
proof (induction evs arbitrary: st)
  case (Cons ev evs)
  from event_goes_on [OF assms Cons.prems, of ev] obtain x st1 where
    "event_step srv ev st = Some (x, st1)" "loop_ends srv x st1" "x = Ok () \<longrightarrow> all_go_on srv st1" by blast
  with Cons.IH [of st1] show ?case by (cases x) auto
qed (simp add: loop_ends_def)

lemma all_go_on_new: "all_go_on srv (new_live_server s)"
  by (simp add: all_go_on_def new_live_server_def)



end
