(* ===== verification/Packet_Properties.thy ===== *)
theory Packet_Properties
  imports Packet_System Event_Loop
begin

section \<open>Properties of the application under packets\<close>

text \<open>
  What holds whatever packets arrive on whatever connections: the shared state is well formed, and what is
  said is published.
\<close>

subsection \<open>One connection alone\<close>

lemma with_own_app: "with_app (cs_app cs) cs = cs"
  by (simp add: with_app_def)

lemma arrivals:
  "lv_connections st c = Some e \<Longrightarrow> receive_all srv t us (with_app (lv_app st) e) = Some (Ok (), cs) \<Longrightarrow>
   server_run srv (map (Arrived c t) us) st =
     Some (Ok (), st\<lparr>lv_connections := (lv_connections st)(c \<mapsto> with_app () cs), lv_app := cs_app cs\<rparr>)"
proof (induction us arbitrary: st e)
  case (Cons u us)
  obtain cs1 where cs1: "receive srv t u (with_app (lv_app st) e) = Some (Ok (), cs1)"
    "receive_all srv t us cs1 = Some (Ok (), cs)"
    using Cons.prems(2) by (auto split: option.splits outcome.splits)
  let ?st = "st\<lparr>lv_connections := (lv_connections st)(c \<mapsto> with_app () cs1), lv_app := cs_app cs1\<rparr>"
  have "server_run srv (map (Arrived c t) us) ?st =
      Some (Ok (), ?st\<lparr>lv_connections := (lv_connections ?st)(c \<mapsto> with_app () cs), lv_app := cs_app cs\<rparr>)"
    using cs1(2) by (intro Cons.IH [where e = "with_app () cs1"]) (simp_all add: with_own_app)
  with cs1(1) Cons.prems(1) show ?case by (simp add: on_connection_def fun_upd_def cong: if_cong)
next
  case Nil
  then have "(lv_connections st)(c \<mapsto> with_app () cs) = lv_connections st" "cs_app cs = lv_app st"
    by (auto simp: with_app_def fun_upd_idem)
  then show ?case by simp
qed

lemma accepted:
  assumes "plain srv"
  shows "event_step srv (Accepted c) st = Some (Ok (), st\<lparr>lv_connections := (lv_connections st)(c \<mapsto>
    (accepted_connection (sv_buffer srv))\<lparr>cs_context := Some (new_context (sv_maxRequestBodyBytes srv))\<rparr>)\<rparr>)"
  by (simp add: on_connection_def connection_callback_def onConnection_def Let_def plainD(2) [OF assms]
      accepted_connection_def with_app_def)

lemma app_callback_unset [simp]: "sv_httpCallback (ChatServer B T X E b) = None"
  by (simp add: ChatServer_def initializeRouter_def initializeMiddleware_def addMiddleware_server_def HttpServer_def)

subsection \<open>A message on the first connection\<close>

definition hello_events :: "event list" where
  "hello_events = Accepted 1 # map (Arrived 1 0) [take 13 wire_bytes, drop 13 wire_bytes]"

lemma hello_wire:
  "\<exists>cs. receive_all hello_server 0 [take 13 wire_bytes, drop 13 wire_bytes] (wire_connection asking) = Some (Ok (), cs) \<and>
    hello_done (cs_app cs)"
proof -
  obtain sw where g: "getSession memory_storage wire_request (new_response (wants_close wire_request)) (ct_sessions asking) =
      (0, new_response (wants_close wire_request), sw)"
    and v: "getValue 0 ''isLoggedIn'' sw = ''true''" "getValue 0 ''userId'' sw = ''7''" "getValue 0 ''username'' sw = []"
    using user_session [OF wire_cookie] by fastforce
  have u: "to_int (getValue 0 ''userId'' sw) = Ok 7" by (simp add: v to_int_7)
  obtain h q where c: "chat (ce_json hello_app) (ce_web hello_app) 7 (getValue 0 ''username'' sw) ''1'' ''hello'' ''1''
      (new_helper, ct_mq asking) = (Ok ''hi'', (h, q))"
    and h: "ah_messages h = [(''hello'', 1), (''hi'', 2)]" "db_log (mq_ext q) = map statement_of hello_said"
      "db_rows (mq_ext q) = []"
    using hello_chat by (auto simp: v)
  have app: "asking = cs_app (wire_connection asking)" by (simp add: wire_connection_def)
  have new: "new_helper = (case ct_chatInformation asking 7 ''1'' of None \<Rightarrow> new_helper | Some h \<Rightarrow> h)" by simp
  have ne: "[take 13 wire_bytes, drop 13 wire_bytes] \<noteq> []" "length ''{}'' < 10 ^ 13" by simp_all
  from message_pieces [OF buffer_laws_string wire_new [where X = no_regex] app ne(1) wire_pieces(2) wire_wf wire_pieces(1)
      refl g v(1) u hello_fields new c hello_dump ne(2)]
  show ?thesis using h by (auto simp: hello_done_def helper_messages_def GetMessages_def world_of_def)
qed

lemma hello_events_run:
  "\<exists>st. server_run hello_server hello_events (new_live_server asking) = Some (Ok (), st) \<and> hello_done (lv_app st)"
proof -
  obtain cs where cs: "receive_all hello_server 0 [take 13 wire_bytes, drop 13 wire_bytes] (wire_connection asking) = Some (Ok (), cs)"
    "hello_done (cs_app cs)" using hello_wire by blast
  let ?e = "(accepted_connection (sv_buffer hello_server))\<lparr>cs_context := Some (new_context (sv_maxRequestBodyBytes hello_server))\<rparr>"
  let ?st = "(new_live_server asking)\<lparr>lv_connections := (lv_connections (new_live_server asking))(1 \<mapsto> ?e)\<rparr>"
  have start: "event_step hello_server (Accepted 1) (new_live_server asking) = Some (Ok (), ?st)"
    by (rule accepted) (simp add: app_plain)
  have "with_app (lv_app ?st) ?e = wire_connection asking"
    by (simp add: with_app_def accepted_connection_def wire_connection_def new_live_server_def app_plain)
  from arrivals [of ?st 1 ?e hello_server 0, unfolded this, OF _ cs(1)] cs(2) start
  show ?thesis by (simp add: hello_events_def del: event_step.simps list.map)
qed

subsection \<open>The shared state\<close>

text \<open>C6: whatever packets arrive on whatever connections of a new server, with or without TLS, well-formed
  requests or not, the state the handlers share stays well formed: every session id leads to a session that
  carries it, no conversation is listed twice for a user, and every listed conversation exists.\<close>

theorem packets_keep_state_well_formed:
  assumes "server_run (ChatServer B T X E b) evs (new_live_server (new_chat time rand w)) = Some (x, st)"
  shows "chat_ok (lv_app st)"
  by (rule ok_connections.run_keeps [OF assms]) (simp add: new_live_server_def chat_ok_new)

theorem packets_keep_state_well_formed_witness:
  "\<exists>x st. server_run hello_server hello_events (new_live_server (new_chat (\<lambda>_. 5) (\<lambda>n. n) new_db)) = Some (x, st) \<and>
     chat_ok (lv_app st)"
proof -
  have "\<exists>x st. server_run hello_server hello_events (new_live_server (new_chat (\<lambda>_. 5) (\<lambda>n. n) new_db)) = Some (x, st) \<and>
      loop_ends hello_server x st"
    by (rule run_goes_on [where wsize = "\<lambda>_. 0" and rsize = "\<lambda>_. 0" and acc = "\<lambda>_. []"])
      (simp_all add: all_go_on_new libraries_def plainD(1) [OF app_plain(1)] plainD(2) [OF app_plain(1)])
  then obtain x st where r: "server_run hello_server hello_events (new_live_server (new_chat (\<lambda>_. 5) (\<lambda>n. n) new_db)) = Some (x, st)"
    by blast
  with packets_keep_state_well_formed [OF r] show ?thesis by blast
qed

text \<open>C7: whatever packets arrive, what the server publishes is what is said: the messages \<open>xs\<close> were added to
  their conversations, and the statements that reached the queue are those of \<open>sent xs\<close>, in the same order,
  each with the text and the time of its message.  The message is added before
  its statement is published, so one whose publication throws is said and perhaps not sent; with a
  broker that takes every publication everything said is sent.  Nothing else is published, and nothing else is added to a conversation but
  prompts (which have the time 0 and stay only when asking the model failed).  The calls of the handlers to
  other services do not publish to the queue (\<open>silent_env\<close>).\<close>

theorem packets_published_is_said:
  assumes "records log (ce_web E)" and "silent_env log E"
    and "server_run (ChatServer B T X E b) evs st0 = Some (x, st)"
  shows "\<exists>xs. log (world_of (lv_app st)) = log (world_of (lv_app st0)) @ map statement_of (sent xs) \<and>
    (\<forall>u sid. spoken (helper_messages u sid (lv_app st)) =
      spoken (helper_messages u sid (lv_app st0)) @ map message_of (filter (of_conversation u sid) (map snd xs))) \<and>
    (reliable (ce_web E) \<longrightarrow> list_all fst xs)"
proof -
  have "published log E (lv_app st0) (lv_app st0)" using told_refl unfolding published_def by fastforce
  from told_connections.run_keeps [OF assms(3) this] assms(1,2) show ?thesis
    by (auto simp: published_def recorded_def told_def)
qed

theorem packets_published_is_said_witness:
  "\<exists>st xs. server_run hello_server hello_events (new_live_server asking) = Some (Ok (), st) \<and>
    map message_of (filter (of_conversation 7 ''1'') xs) = [(''hello'', 1), (''hi'', 2)] \<and>
    db_log (world_of (lv_app st)) = map statement_of xs"
proof -
  obtain st where st: "server_run hello_server hello_events (new_live_server asking) = Some (Ok (), st)" "hello_done (lv_app st)"
    using hello_events_run by blast
  obtain xs where xs: "db_log (world_of (lv_app st)) = db_log (world_of (lv_app (new_live_server asking :: (bytes, bytes \<times> bytes \<times> bytes, _) live_server))) @ map statement_of (sent xs)"
    "spoken (helper_messages 7 ''1'' (lv_app st)) = spoken (helper_messages 7 ''1'' (lv_app (new_live_server asking :: (bytes, bytes \<times> bytes \<times> bytes, _) live_server))) @
      map message_of (filter (of_conversation 7 ''1'') (map snd xs))"
    "reliable (ce_web hello_app) \<longrightarrow> list_all fst xs"
    using packets_published_is_said [OF hello_log st(1)] by blast
  have "reliable (ce_web hello_app)"
    by (auto simp: reliable_def hello_app_def db_web_ops_def toy_web_def on_db_def split: prod.split)
  with xs(3) have "sent xs = map snd xs" by (simp add: sent_all)
  with st xs(1,2) show ?thesis
    by (intro exI [of _ st] exI [of _ "map snd xs"]) (auto simp: hello_done_def spoken_def db_log_def new_db_def new_live_server_def)
qed

end
