(* ===== verification/System_Properties.thy ===== *)
theory System_Properties
  imports Packet_Properties
begin

section \<open>Properties of the whole program\<close>

text \<open>
  What the server says, the workers write and a restart reads back, with packets that arrive, steps of the
  workers and failures of channels in any order (\<open>packet_run\<close>).
\<close>

lemma said_after:
  assumes "told log s0 s xs" and "\<forall>r\<in>#mset rs. row_time r \<noteq> 0"
    and "\<forall>u sid. helper_messages u sid s0 = conversation_rows u sid rs"
  shows "spoken (helper_messages u sid s) =
    conversation_rows u sid rs @ map message_of (filter (of_conversation u sid) (map snd xs))"
proof -
  have "spoken (conversation_rows u sid rs) = conversation_rows u sid rs"
    using assms(2) by (fastforce simp: spoken_def conversation_rows_def row_time_def filter_id_conv)
  then show ?thesis using assms(1,3) by (simp add: told_def)
qed

lemma conversation_rows_mset:
  assumes "list_all (\<lambda>x. int32 (sd_user x) = sd_user x) ds" and "mset rs1 = mset rs + mset (map row_of ds)"
  shows "mset (conversation_rows u sid rs1) =
    mset (conversation_rows u sid rs) + mset (map message_of (filter (of_conversation u sid) ds))"
proof -
  let ?Q = "\<lambda>(i, sd, c, t). int32 i = u \<and> sd = sid" and ?m = "\<lambda>(i, sd, c, t). (c, t)"
  have "mset (filter ?Q rs1) = mset (filter ?Q rs) + mset (map row_of (filter (of_conversation u sid) ds))"
    unfolding conversation_rows_said [OF assms(1), symmetric] mset_filter assms(2) filter_union_mset ..
  then have "mset (map ?m (filter ?Q rs1)) =
      mset (map ?m (filter ?Q rs)) + mset (map ?m (map row_of (filter (of_conversation u sid) ds)))"
    by (simp del: map_map)
  moreover have "map ?m (map row_of ys) = map message_of ys" for ys
    by (simp add: row_of_def message_of_def)
  ultimately show ?thesis by (simp only: conversation_rows_def)
qed

definition unsent :: "saying list \<Rightarrow> said list" where
  "unsent xs = map snd (filter (Not \<circ> fst) xs)"

lemma sent_unsent: "mset (map snd xs) = mset (sent xs) + mset (unsent xs)"
  by (induction xs) (auto simp: sent_def unsent_def)

lemma unsent_none [simp]: "unsent (map (Pair True) xs) = []"
  by (induction xs) (auto simp: unsent_def)

lemma mset_messages:
  assumes "mset xs = mset ds + mset zs"
  shows "mset (map message_of (filter (of_conversation u sid) xs)) =
    mset (map message_of (filter (of_conversation u sid) ds)) +
    mset (map message_of (filter (of_conversation u sid) zs))"
  unfolding mset_map mset_filter assms by simp

text \<open>A run under packets is one of \<open>System\<close>, and keeps its invariant.\<close>

lemma packets_inv:
  assumes "sound_env log rows fits E" and "sy_pool y0 = start_pool n waiting (world_of (sy_server y0))"
    and "packet_run (ChatServer B T X E b) log (ce_mysql E) (listening y0) z"
  shows "system_inv log rows fits waiting y0 (system_of z)"
proof -
  have "wp_world (pk_pool (listening y0)) = world_of (lv_app (pk_live (listening y0)))"
    using assms(2) by (simp add: listening_def new_live_server_def start_pool_def)
  from packets_refine [OF assms(3) this] have "system_run (ChatServer B T X E b) log (ce_mysql E) y0 (system_of z)" by simp
  then show ?thesis by (rule system_inv_run [OF assms(1,2)])
qed

lemma system_of_simps [simp]:
  "sy_server (system_of z) = lv_app (pk_live z)" "sy_pool (system_of z) = pk_pool z"
  by (simp_all add: system_of_def)

subsection \<open>The toy system\<close>

definition hello_start :: "(unit, toy_db) system" where
  "hello_start = \<lparr>sy_port = 80, sy_server = asking, sy_pool = start_pool THREAD_NUM [] new_db\<rparr>"

abbreviation hello_sayings :: "saying list" where
  "hello_sayings \<equiv> map (Pair True) hello_said"

lemma hello_readable: "readable_db db_table hello_app"
  using hello_answers by (auto simp: readable_db_def hello_app_def db_mysql_def silent_def db_table_def return_act_def)

lemma hello_sound: "sound_env db_log db_table (\<lambda>_. True) hello_app"
  using hello_log hello_aside executes_inserts [OF hello_executes]
  by (auto simp: sound_env_def recorded_def hello_app_def db_mysql_def silent_def db_log_def split: option.split)

lemma hello_lawful: "lawful db_log db_table (\<lambda>_. True) hello_app"
  using hello_sound hello_readable hello_executes by (simp add: lawful_def hello_app_def)

lemma hello_started: "started db_table [] hello_start"
  by (auto simp: started_def hello_start_def db_table_def new_db_def conversation_rows_def)

lemma hello_storable: "list_all (storable (\<lambda>_. True)) ([] @ sent hello_sayings)"
  using hello_said_number by (simp add: storable_def list_all_iff)

lemma hello_pool: "sy_pool hello_start = start_pool THREAD_NUM (map statement_of []) (world_of (sy_server hello_start))"
  by (simp add: hello_start_def)

lemma hello_run:
  "\<exists>z. packet_run hello_server db_log (ce_mysql hello_app) (listening hello_start) z \<and>
    told db_log (sy_server hello_start) (lv_app (pk_live z)) hello_sayings \<and> wp_workers (pk_pool z) = [Ready, Ready] \<and>
    mset (wp_queue (pk_pool z)) = mset (map statement_of hello_said)"
proof -
  have live: "pk_live (listening hello_start) = new_live_server asking" by (simp add: listening_def hello_start_def)
  obtain st where st: "server_run hello_server hello_events (new_live_server asking) = Some (Ok (), st)" "hello_done (lv_app st)"
    using hello_events_run by blast
  obtain z where z: "packet_run hello_server db_log (ce_mysql hello_app) (listening hello_start) z" "pk_live z = st"
    "wp_workers (pk_pool z) = wp_workers (sy_pool hello_start)"
    "wp_acked (pk_pool z) = wp_acked (sy_pool hello_start)"
    using events_run [of hello_server hello_events "listening hello_start" st db_log "ce_mysql hello_app", unfolded live, OF st(1)]
    unfolding listening_pool by blast
  have w: "wp_workers (pk_pool z) = [Ready, Ready]" "wp_acked (pk_pool z) = []"
    using z(3,4) by (simp_all add: hello_start_def listening_def start_pool_def THREAD_NUM_def eval_nat_numeral)
  have t: "told db_log (sy_server hello_start) (sy_server (system_of z)) hello_sayings"
    using hello_told [OF st(2)] z(2) by (simp add: hello_start_def)
  note inv = packets_inv [OF hello_sound hello_pool z(1)]
  have "accounted (pk_pool z)" using inv by (simp add: system_inv_def written_def)
  then have "mset (wp_queue (pk_pool z)) = mset (wp_published (pk_pool z))" using w by (simp add: accounted_def)
  also have "wp_published (pk_pool z) = map statement_of hello_said" using published_told [OF inv t] by simp
  finally show ?thesis using z(1) t w by auto
qed

lemma bounded_run_ends:
  assumes "\<And>k y'. (R ^^ k) y y' \<Longrightarrow> k \<le> (b :: nat)"
  shows "\<exists>k y'. (R ^^ k) y y' \<and> (\<nexists>z. R y' z)"
proof (rule ccontr)
  assume no: "\<not> ?thesis"
  have "\<exists>y'. (R ^^ k) y y'" for k
  proof (induction k)
    case (Suc k)
    then obtain y' where "(R ^^ k) y y'" by blast
    with no obtain z where "R y' z" by blast
    with \<open>(R ^^ k) y y'\<close> show ?case by auto
  qed auto
  from this [of "Suc b"] assms show False by fastforce
qed

lemma hello_messages:
  assumes "told db_log (sy_server hello_start) s hello_sayings"
  shows "spoken (helper_messages 7 ''1'' s) = [(''hello'', 1), (''hi'', 2)]"
  using assms by (simp add: told_def hello_start_def hello_said_def of_conversation_def message_of_def)

lemma packet_run_work: "packet_run srv log M z z1 \<Longrightarrow> (work_step M ^^ k) (system_of z1) y' \<Longrightarrow>
    \<exists>z'. packet_run srv log M z z' \<and> system_of z' = y'"
proof (induction k arbitrary: y')
  case (Suc k)
  obtain y1 where y1: "(work_step M ^^ k) (system_of z1) y1" "work_step M y1 y'" using Suc.prems(2) by auto
  with Suc obtain z' where z': "packet_run srv log M z z'" "system_of z' = y1" by blast
  let ?z = "z'\<lparr>pk_live := (pk_live z')\<lparr>lv_app := sy_server y'\<rparr>, pk_pool := sy_pool y'\<rparr>"
  have "packet_step srv log M z' ?z" using packet_step.work z'(2) y1(2) by blast
  moreover have "system_of ?z = y'" using y1(2) z'(2) by (auto simp: system_of_def work_step_def)
  ultimately show ?case using z'(1) unfolding packet_run_def by (metis rtranclp.rtrancl_into_rtrancl)
qed auto

text \<open>The small program after the message: the workers can bring it to its end, and no worker dies.\<close>

lemma hello_workers: "worker_step h p q \<Longrightarrow> length (wp_workers q) = length (wp_workers p)"
  by (cases rule: worker_step.cases) (auto simp: shutdown_pool_def)

lemma hello_length: "(work_step M ^^ k) y y' \<Longrightarrow> length (wp_workers (sy_pool y')) = length (wp_workers (sy_pool y))"
proof (induction k arbitrary: y')
  case (Suc k)
  then obtain y1 where y1: "(work_step M ^^ k) y y1" "work_step M y1 y'" by auto
  then have "length (wp_workers (sy_pool y')) = length (wp_workers (sy_pool y1))"
    by (auto simp: work_step_def dest: hello_workers)
  with Suc.IH [OF y1(1)] show ?case by simp
qed simp

lemma hello_end:
  "\<exists>z k y'. packet_run hello_server db_log (ce_mysql hello_app) (listening hello_start) z \<and>
    told db_log (sy_server hello_start) (lv_app (pk_live z)) hello_sayings \<and>
    (work_step (ce_mysql hello_app) ^^ k) (system_of z) y' \<and> (\<nexists>y''. work_step (ce_mysql hello_app) y' y'') \<and>
    dead_workers (sy_pool y') = 0 \<and> \<not> list_all (\<lambda>x. x = Dead) (wp_workers (sy_pool y')) \<and>
    wp_queue (sy_pool y') = [] \<and> in_hands (sy_pool y') = [] \<and>
    told db_log (sy_server hello_start) (sy_server y') hello_sayings"
proof -
  obtain z where z: "packet_run hello_server db_log (ce_mysql hello_app) (listening hello_start) z"
    "told db_log (sy_server hello_start) (lv_app (pk_live z)) hello_sayings" "wp_workers (pk_pool z) = [Ready, Ready]"
    using hello_run by blast
  note inv = packets_inv [OF hello_sound hello_pool z(1)]
  have t: "told db_log (sy_server hello_start) (sy_server (system_of z)) hello_sayings" using z(2) by simp
  have "k \<le> backlog (sy_pool (system_of z))" if "(work_step (ce_mysql hello_app) ^^ k) (system_of z) y'" for k y'
    using work_run [OF hello_sound that inv t] by simp
  then obtain k y' where run: "(work_step (ce_mysql hello_app) ^^ k) (system_of z) y'" "\<nexists>y''. work_step (ce_mysql hello_app) y' y''"
    using bounded_run_ends [of "work_step (ce_mysql hello_app)" "system_of z" "backlog (sy_pool (system_of z))"] by blast
  have i: "system_inv db_log db_table (\<lambda>_. True) (map statement_of []) hello_start y'"
    "told db_log (sy_server hello_start) (sy_server y') hello_sayings"
    using work_run [OF hello_sound run(1) inv t] by simp_all
  have dead: "dead_workers (sy_pool y') = 0"
    using lawful_run [OF hello_lawful run(1) inv t hello_storable] z(3) by (simp add: dead_workers_def)
  have "length (wp_workers (sy_pool y')) = 2" using hello_length [OF run(1)] z(3) by simp
  with dead have alive: "\<not> list_all (\<lambda>x. x = Dead) (wp_workers (sy_pool y'))"
    by (cases "wp_workers (sy_pool y')") (auto simp: dead_workers_def)
  with stuck_system [OF hello_sound i hello_storable run(2)]
  have "wp_queue (sy_pool y') = []" "in_hands (sy_pool y') = []" by blast+
  with z(1,2) run dead alive i(2) show ?thesis by blast
qed

lemma hello_drained:
  "\<exists>z. packet_run hello_server db_log (ce_mysql hello_app) (listening hello_start) z \<and>
    told db_log (sy_server hello_start) (lv_app (pk_live z)) hello_sayings \<and>
    wp_queue (pk_pool z) = [] \<and> in_hands (pk_pool z) = [] \<and> dead_workers (pk_pool z) = 0"
proof -
  obtain z k y' where z: "packet_run hello_server db_log (ce_mysql hello_app) (listening hello_start) z"
    and run: "(work_step (ce_mysql hello_app) ^^ k) (system_of z) y'"
    and y': "dead_workers (sy_pool y') = 0" "wp_queue (sy_pool y') = []" "in_hands (sy_pool y') = []"
    "told db_log (sy_server hello_start) (sy_server y') hello_sayings"
    using hello_end by blast
  from packet_run_work [OF z run] y' show ?thesis by auto
qed

subsection \<open>The properties\<close>

text \<open>C8: the workers write what was sent.  From every state the program reaches, whatever packets arrive and
  whatever publications, statements and channels fail on the way, a run of the workers alone is no longer
  than \<open>backlog\<close> (four steps for each statement that waits and at most six for each worker).  When no worker
  can go on, either every worker is dead, or the table has one row for each statement that waited at the
  start and each message sent since, and at most one more, of one of these, for each dead worker.  Where the
  database executes what it is given, no worker dies on the way.  This is for messages whose rows the table
  can hold (\<open>storable\<close>: the id of the conversation is a number and the texts fit the columns).\<close>

theorem workers_write_all:
  assumes "sound_env log rows fits E"
    and "sy_pool y0 = start_pool n (map statement_of ws) (world_of (sy_server y0))"
    and "packet_run (ChatServer B T X E b) log (ce_mysql E) (listening y0) z"
    and "told log (sy_server y0) (lv_app (pk_live z)) xs" and "list_all (storable fits) (ws @ sent xs)"
    and "(work_step (ce_mysql E) ^^ k) (system_of z) y'"
  shows "k \<le> backlog (pk_pool z) \<and>
    (lawful log rows fits E \<longrightarrow> dead_workers (sy_pool y') = dead_workers (pk_pool z)) \<and>
    ((\<nexists>y''. work_step (ce_mysql E) y' y'') \<longrightarrow>
      list_all (\<lambda>x. x = Dead) (wp_workers (sy_pool y')) \<or>
      (\<exists>D. rows (world_of (sy_server y')) =
           rows (world_of (sy_server y0)) + mset (map row_of (ws @ sent xs)) + mset (map row_of D) \<and>
         set D \<subseteq> set (ws @ sent xs) \<and> length D \<le> dead_workers (sy_pool y')))"
proof (intro conjI impI)
  note E = assms(1)
  note inv = packets_inv [OF assms(1-3)]
  have t: "told log (sy_server y0) (sy_server (system_of z)) xs" using assms(4) by simp
  have run: "system_inv log rows fits (map statement_of ws) y0 y'" "told log (sy_server y0) (sy_server y') xs"
    "backlog (sy_pool y') + k \<le> backlog (pk_pool z)"
    using work_run [OF E assms(6) inv t] by simp_all
  then show "k \<le> backlog (pk_pool z)" by simp
  show "dead_workers (sy_pool y') = dead_workers (pk_pool z)" if "lawful log rows fits E"
    using lawful_run [OF that assms(6) inv t assms(5)] by simp
  assume "\<nexists>y''. work_step (ce_mysql E) y' y''"
  from stuck_system [OF E run(1,2) assms(5) this] drained_rows [OF run(1,2) assms(5)]
  show "list_all (\<lambda>x. x = Dead) (wp_workers (sy_pool y')) \<or>
      (\<exists>D. rows (world_of (sy_server y')) =
           rows (world_of (sy_server y0)) + mset (map row_of (ws @ sent xs)) + mset (map row_of D) \<and>
         set D \<subseteq> set (ws @ sent xs) \<and> length D \<le> dead_workers (sy_pool y'))" by blast
qed

theorem workers_write_all_witness:
  "\<exists>k z y'. packet_run hello_server db_log (ce_mysql hello_app) (listening hello_start) z \<and>
    (work_step (ce_mysql hello_app) ^^ k) (system_of z) y' \<and> (\<nexists>y''. work_step (ce_mysql hello_app) y' y'') \<and>
    db_table (world_of (sy_server y')) = mset (map row_of hello_said)"
proof -
  obtain z k y' where z: "packet_run hello_server db_log (ce_mysql hello_app) (listening hello_start) z"
    "told db_log (sy_server hello_start) (lv_app (pk_live z)) hello_sayings"
    and run: "(work_step (ce_mysql hello_app) ^^ k) (system_of z) y'" "\<nexists>y''. work_step (ce_mysql hello_app) y' y''"
    and alive: "dead_workers (sy_pool y') = 0" "\<not> list_all (\<lambda>x. x = Dead) (wp_workers (sy_pool y'))"
    using hello_end by blast
  have "db_table (world_of (sy_server hello_start)) = {#}" by (simp add: hello_start_def new_db_def db_table_def)
  with workers_write_all [OF hello_sound hello_pool z hello_storable run(1)] run(2) alive
  have "db_table (world_of (sy_server y')) = mset (map row_of hello_said)" by auto
  with run z(1) show ?thesis by blast
qed

text \<open>C9: a restart continues.  The program was started with an empty queue and no row with the time 0;
  packets, steps of the workers and failures came in any order; everything said was sent and is of the kind
  the table holds (\<open>storable\<close>); now the queue is empty, no statement is in hand and no worker has died.
  When the program is started again and the database answers, every conversation whose messages have
  strictly increasing times is as it was, with the messages from before the last start and those said
  since, in their order and without prompts.\<close>

theorem restart_continues:
  fixes E :: "('j, 'm, 'i, 'f, 'w) chat_env"
  assumes "sound_env log rows fits E" and "readable_db rows E" and "started rows [] y0"
    and "\<forall>r\<in>#rows (world_of (sy_server y0)). row_time r \<noteq> 0"
    and "packet_run (ChatServer B T X E b) log (ce_mysql E) (listening y0) z" and "s = lv_app (pk_live z)"
    and "told log (sy_server y0) s xs" and "list_all fst xs" and "list_all (storable fits) (map snd xs)"
    and "wp_queue (pk_pool z) = []" and "in_hands (pk_pool z) = []" and "dead_workers (pk_pool z) = 0"
  shows "\<exists>y1 :: ('m, 'w) system. main_program E time rand opts [] (world_of s) = Some (Ok y1) \<and> started rows [] y1 \<and>
    (\<forall>u sid. sorted_wrt (<) (map snd (spoken (helper_messages u sid s))) \<longrightarrow>
       helper_messages u sid (sy_server y1) = spoken (helper_messages u sid s))"
proof -
  have pool: "sy_pool y0 = start_pool THREAD_NUM (map statement_of []) (world_of (sy_server y0))"
    using assms(3) by (simp add: started_def)
  note inv = packets_inv [OF assms(1) pool assms(5)]
  have sent: "sent xs = map snd xs" by (rule sent_all [OF assms(8)])
  obtain y1 :: "('m, 'w) system" where y1: "main_program E time rand opts [] (world_of s) = Some (Ok y1)"
    "started rows [] y1" "rows (world_of (sy_server y1)) = rows (world_of s)"
    using main_starts [OF sound_envD(2) [OF assms(1)] assms(2), of time rand opts "[]" "world_of s"] by blast
  obtain rs where rs: "mset rs = rows (world_of (sy_server y0))"
    "\<forall>u sid. helper_messages u sid (sy_server y0) = conversation_rows u sid rs"
    using assms(3) by (auto simp: started_def)
  obtain rs1 where rs1: "mset rs1 = rows (world_of s)" "sorted (map row_time rs1)"
    "\<forall>u sid. helper_messages u sid (sy_server y1) = conversation_rows u sid rs1"
    using y1(2,3) by (auto simp: started_def)
  have all: "mset rs1 = mset rs + mset (map row_of (map snd xs))"
    using drained_rows [OF inv, of xs] assms(6,7,9-12) unfolding rs1(1) rs(1) by (auto simp: sent)
  have int: "list_all (\<lambda>x. int32 (sd_user x) = sd_user x) (map snd xs)" using assms(7) by (simp add: told_def)
  note again = restored_said_again [OF int all rs1(2)]
  have "spoken (helper_messages u sid s) =
      conversation_rows u sid rs @ map message_of (filter (of_conversation u sid) (map snd xs))" for u sid
    by (rule said_after [OF assms(7) _ rs(2)]) (use assms(4) rs(1) in simp)
  with again rs1(3) y1(1,2) show ?thesis by auto
qed

theorem restart_continues_witness:
  "\<exists>z y1. packet_run hello_server db_log (ce_mysql hello_app) (listening hello_start) z \<and>
    main_program hello_app (\<lambda>_. 5) (\<lambda>n. n) [] [] (world_of (lv_app (pk_live z))) = Some (Ok y1) \<and>
    helper_messages 7 ''1'' (sy_server (y1 :: (unit, toy_db) system)) = [(''hello'', 1), (''hi'', 2)]"
proof -
  obtain z where z: "packet_run hello_server db_log (ce_mysql hello_app) (listening hello_start) z"
    "told db_log (sy_server hello_start) (lv_app (pk_live z)) hello_sayings"
    "wp_queue (pk_pool z) = []" "in_hands (pk_pool z) = []" "dead_workers (pk_pool z) = 0"
    using hello_drained by blast
  have "\<forall>r\<in>#db_table (world_of (sy_server hello_start)). row_time r \<noteq> 0"
    by (simp add: hello_start_def new_db_def db_table_def)
  moreover have "list_all fst hello_sayings" by (simp add: list_all_iff)
  moreover have "list_all (storable (\<lambda>_. True)) (map snd hello_sayings)"
    using hello_storable by (simp del: map_map)
  ultimately obtain y1 :: "(unit, toy_db) system" where
    "main_program hello_app (\<lambda>_. 5) (\<lambda>n. n) [] [] (world_of (lv_app (pk_live z))) = Some (Ok y1)"
    "\<forall>u sid. sorted_wrt (<) (map snd (spoken (helper_messages u sid (lv_app (pk_live z))))) \<longrightarrow>
       helper_messages u sid (sy_server y1) = spoken (helper_messages u sid (lv_app (pk_live z)))"
    using restart_continues [OF hello_sound hello_readable hello_started _ z(1) refl z(2) _ _ z(3-5),
        of "\<lambda>_. 5" "\<lambda>n. n" "[]"] by blast
  with z(1) hello_messages [OF z(2)] show ?thesis by fastforce
qed

text \<open>C39: a restart forgets what waits.  \<open>main\<close> reads the table before it starts the workers: when the
  program ends in any state and is started again (with what the broker kept in the queue, \<open>waiting\<close>), its
  conversations lack exactly the messages whose statements were in the queue or were being executed
  (\<open>zs\<close>), those whose statements never reached the queue, and the prompts; and they have again at most one
  message for each dead worker (\<open>D\<close>).  The conditions are those of a restart that continues, without the
  last: an empty queue and no row with the time 0 at the first start, storable messages, a database that
  answers the second start.\<close>

theorem restart_forgets_waiting:
  fixes E :: "('j, 'm, 'i, 'f, 'w) chat_env"
  assumes "sound_env log rows fits E" and "readable_db rows E" and "started rows [] y0"
    and "\<forall>r\<in>#rows (world_of (sy_server y0)). row_time r \<noteq> 0"
    and "packet_run (ChatServer B T X E b) log (ce_mysql E) (listening y0) z" and "s = lv_app (pk_live z)"
    and "told log (sy_server y0) s xs" and "list_all (storable fits) (sent xs)"
  shows "\<exists>(y1 :: ('m, 'w) system) zs D. main_program E time rand opts waiting (world_of s) = Some (Ok y1) \<and>
    wp_queue (sy_pool y1) = waiting \<and>
    mset (map statement_of zs) + mset (executed_in_hands (pk_pool z)) = mset (wp_queue (pk_pool z)) + mset (in_hands (pk_pool z)) \<and>
    set D \<subseteq> set (sent xs) \<and> length D \<le> dead_workers (pk_pool z) \<and>
    (\<forall>u sid. mset (helper_messages u sid (sy_server y1)) +
         mset (map message_of (filter (of_conversation u sid) (zs @ unsent xs))) =
       mset (spoken (helper_messages u sid s)) + mset (map message_of (filter (of_conversation u sid) D)))"
proof -
  have pool: "sy_pool y0 = start_pool THREAD_NUM (map statement_of []) (world_of (sy_server y0))"
    using assms(3) by (simp add: started_def)
  note inv = packets_inv [OF assms(1) pool assms(5)]
  obtain y1 :: "('m, 'w) system" where y1: "main_program E time rand opts waiting (world_of s) = Some (Ok y1)"
    "started rows waiting y1" "rows (world_of (sy_server y1)) = rows (world_of s)"
    using main_starts [OF sound_envD(2) [OF assms(1)] assms(2), of time rand opts waiting "world_of s"] by blast
  obtain rs where rs: "mset rs = rows (world_of (sy_server y0))"
    "\<forall>u sid. helper_messages u sid (sy_server y0) = conversation_rows u sid rs"
    using assms(3) by (auto simp: started_def)
  obtain rs1 where rs1: "mset rs1 = rows (world_of s)"
    "\<forall>u sid. helper_messages u sid (sy_server y1) = conversation_rows u sid rs1"
    using y1(2,3) by (auto simp: started_def)
  obtain ds zs D where d: "mset (sent xs) = mset ds + mset zs"
    "rows (world_of s) = rows (world_of (sy_server y0)) + mset (map row_of ds) + mset (map row_of D)"
    "mset (map statement_of zs) + mset (executed_in_hands (pk_pool z)) = mset (wp_queue (pk_pool z)) + mset (in_hands (pk_pool z))"
    "set D \<subseteq> set (sent xs)" "length D \<le> dead_workers (pk_pool z)"
    using rows_waiting [OF inv, of xs] assms(6-8) by auto
  have "set ds \<subseteq> set (sent xs)" using d(1) by (metis set_mset_mset mset_subset_eq_add_left set_mset_mono)
  moreover have "list_all (\<lambda>x. int32 (sd_user x) = sd_user x) (sent xs)"
    using assms(7) by (simp add: told_def sent_list_all)
  ultimately have int: "list_all (\<lambda>x. int32 (sd_user x) = sd_user x) (ds @ D)"
    using d(4) by (auto simp: list_all_iff)
  note kept = conversation_rows_mset [OF int, of rs1 rs]
  have "spoken (helper_messages u sid s) =
      conversation_rows u sid rs @ map message_of (filter (of_conversation u sid) (map snd xs))" for u sid
    by (rule said_after [OF assms(7) _ rs(2)]) (use assms(4) rs(1) in simp)
  moreover have "mset (map snd xs) = mset ds + mset (zs @ unsent xs)"
    using sent_unsent [of xs] d(1) by simp
  ultimately have "mset (helper_messages u sid (sy_server y1)) +
         mset (map message_of (filter (of_conversation u sid) (zs @ unsent xs))) =
       mset (spoken (helper_messages u sid s)) + mset (map message_of (filter (of_conversation u sid) D))" for u sid
    using kept d(2) rs(1) rs1 mset_messages [of "map snd xs" ds "zs @ unsent xs" u sid]
      mset_messages [of "ds @ D" ds D u sid] by (simp add: ac_simps)
  with y1(1,2) d(3-5) show ?thesis by (auto simp: started_def start_pool_def)
qed

theorem restart_forgets_waiting_witness:
  "\<exists>z y1 zs. packet_run hello_server db_log (ce_mysql hello_app) (listening hello_start) z \<and>
    main_program hello_app (\<lambda>_. 5) (\<lambda>n. n) [] (wp_queue (pk_pool z)) (world_of (lv_app (pk_live z))) =
      Some (Ok (y1 :: (unit, toy_db) system)) \<and>
    mset (map statement_of zs) = mset (map statement_of hello_said) \<and>
    mset (helper_messages 7 ''1'' (sy_server y1)) + mset (map message_of (filter (of_conversation 7 ''1'') zs)) =
      {#(''hello'', 1), (''hi'', 2)#}"
proof -
  obtain z where z: "packet_run hello_server db_log (ce_mysql hello_app) (listening hello_start) z"
    "told db_log (sy_server hello_start) (lv_app (pk_live z)) hello_sayings" "wp_workers (pk_pool z) = [Ready, Ready]"
    "mset (wp_queue (pk_pool z)) = mset (map statement_of hello_said)"
    using hello_run by blast
  have "\<forall>r\<in>#db_table (world_of (sy_server hello_start)). row_time r \<noteq> 0"
    by (simp add: hello_start_def new_db_def db_table_def)
  from restart_forgets_waiting [OF hello_sound hello_readable hello_started this z(1) refl z(2), of "\<lambda>_. 5" "\<lambda>n. n" "[]" "wp_queue (pk_pool z)"]
    hello_storable
  obtain y1 :: "(unit, toy_db) system" and zs D where y1:
    "main_program hello_app (\<lambda>_. 5) (\<lambda>n. n) [] (wp_queue (pk_pool z)) (world_of (lv_app (pk_live z))) = Some (Ok y1)"
    "mset (map statement_of zs) + mset (executed_in_hands (pk_pool z)) = mset (wp_queue (pk_pool z)) + mset (in_hands (pk_pool z))"
    "length D \<le> dead_workers (pk_pool z)"
    "mset (helper_messages 7 ''1'' (sy_server y1)) +
       mset (map message_of (filter (of_conversation 7 ''1'') (zs @ unsent hello_sayings))) =
     mset (spoken (helper_messages 7 ''1'' (lv_app (pk_live z)))) + mset (map message_of (filter (of_conversation 7 ''1'') D))"
    by auto
  have "D = []" "unsent hello_sayings = []" using y1(3) z(3) by (simp_all add: dead_workers_def)
  with y1 z hello_messages [OF z(2)] show ?thesis
    by (intro exI [of _ z] exI [of _ y1] exI [of _ zs] conjI) simp_all
qed



end
