(* ===== verification/Client_View.thy ===== *)
theory Client_View
  imports Connections Server_Properties "HOL-Library.Sublist"
begin

section \<open>What the clients of the server see\<close>

text \<open>
  An abstract server: its clients send whole requests, and it answers one whole request at a time.
  A client has a script of requests, which it sends one behind the other in packets that are cut
  anywhere, also over the end of a request.  A packet that completes a request is answered with the
  response to that one; a second request that is complete in the same packet is answered when the next
  packet arrives.  The server over the real connections, with its buffers and parsers, does the same
  whatever way the packets of the clients interleave.
\<close>

subsection \<open>The abstract server\<close>

record client_request =
  cr_method :: bytes
  cr_target :: bytes
  cr_version :: bytes
  cr_headers :: "(bytes \<times> bytes) list"
  cr_body :: bytes

definition request_bytes :: "client_request \<Rightarrow> bytes" where
  "request_bytes q = render_request (cr_method q) (cr_target q) (cr_version q) (cr_headers q) (cr_body q)"

definition request_of :: "int \<Rightarrow> client_request \<Rightarrow> http_request" where
  "request_of t q = denoted_request t (cr_method q) (cr_target q) (cr_version q) (cr_headers q) (cr_body q)"

definition sendable :: "nat \<Rightarrow> client_request \<Rightarrow> bool" where
  "sendable n q = wf_request n (cr_method q) (cr_target q) (cr_version q) (cr_headers q) (cr_body q)"

record client =
  cl_todo :: "client_request list"
  cl_got :: bytes                     \<comment> \<open>what arrived from the head of the script on\<close>
  cl_time :: "int option"             \<comment> \<open>when its request line was complete\<close>
  cl_sent :: "conn_action list"       \<comment> \<open>what the client was sent\<close>

record 's view =
  vw_clients :: "nat \<rightharpoonup> client"
  vw_served :: "http_request list"
  vw_app :: 's

definition new_client :: "client_request list \<Rightarrow> client" where
  "new_client qs = \<lparr>cl_todo = qs, cl_got = [], cl_time = None, cl_sent = []\<rparr>"

definition new_view :: "'s \<Rightarrow> 's view" where
  "new_view s = \<lparr>vw_clients = Map.empty, vw_served = [], vw_app = s\<rparr>"

definition answer :: "'s handler \<Rightarrow> http_request \<Rightarrow> 's \<Rightarrow> (conn_action list \<times> 's) option" where
  "answer cb req s =
     (case cb req (new_response (wants_close req)) s of
        (Ok _, resp, s') \<Rightarrow>
          if length (res_body resp) < 10 ^ 13
          then Some (ConnSend (response_text resp) #
                      (if res_closeConnection resp then [ConnShutdown] else []), s')
          else None
      | _ \<Rightarrow> None)"

definition line_time :: "client \<Rightarrow> int \<Rightarrow> int" where
  "line_time cl t = (case cl_time cl of None \<Rightarrow> t | Some t1 \<Rightarrow> t1)"

definition packet :: "'s handler \<Rightarrow> nat \<Rightarrow> int \<Rightarrow> bytes \<Rightarrow> client \<Rightarrow> 's view \<Rightarrow> 's view option" where
  \<comment> \<open>at most one request is answered for a packet; what is behind it waits for the next packet.  \<open>None\<close>
    when the client does not follow its script or the handler does not return\<close>
  "packet cb c t d cl vw =
     (case cl_todo cl of
        [] \<Rightarrow> None
      | q # qs \<Rightarrow>
          (let got = cl_got cl @ d; time = line_time cl t; req = request_of time q
           in if prefix (request_bytes q) got
              then map_option
                     (\<lambda>(out, s'). vw\<lparr>vw_clients := (vw_clients vw)(c \<mapsto>
                          \<lparr>cl_todo = qs, cl_got = drop (length (request_bytes q)) got, cl_time = None,
                           cl_sent = cl_sent cl @ out\<rparr>),
                        vw_served := vw_served vw @ [req], vw_app := s'\<rparr>)
                     (answer cb req (vw_app vw))
              else if strict_prefix got (request_bytes q)
              then Some (vw\<lparr>vw_clients := (vw_clients vw)(c \<mapsto>
                     cl\<lparr>cl_got := got, cl_time := (if str_find crlf got = None then None else Some time)\<rparr>)\<rparr>)
              else None))"

fun view_step :: "'s handler \<Rightarrow> (nat \<Rightarrow> client_request list) \<Rightarrow> event \<Rightarrow> 's view \<Rightarrow> 's view option" where
  "view_step cb script (Accepted c) vw =
     Some (vw\<lparr>vw_clients := (vw_clients vw)(c \<mapsto> new_client (script c))\<rparr>)"
| "view_step cb script (Arrived c t d) vw =
     (case vw_clients vw c of None \<Rightarrow> None | Some cl \<Rightarrow> packet cb c t d cl vw)"
| "view_step cb script (WriteComplete c) vw = Some vw"
| "view_step cb script (Closed c) vw = Some (vw\<lparr>vw_clients := (vw_clients vw)(c := None)\<rparr>)"

fun view_run :: "'s handler \<Rightarrow> (nat \<Rightarrow> client_request list) \<Rightarrow> event list \<Rightarrow> 's view \<Rightarrow> 's view option" where
  "view_run cb script [] vw = Some vw"
| "view_run cb script (ev # evs) vw = Option.bind (view_step cb script ev vw) (view_run cb script evs)"

fun one_by_one :: "'s handler \<Rightarrow> http_request list \<Rightarrow> 's \<Rightarrow> 's option" where
  \<comment> \<open>the requests, each when the one before it was answered\<close>
  "one_by_one cb [] s = Some s"
| "one_by_one cb (req # reqs) s = Option.bind (answer cb req s) (\<lambda>(out, s'). one_by_one cb reqs s')"

lemma one_by_one_append:
  "one_by_one cb (xs @ ys) s = Option.bind (one_by_one cb xs s) (one_by_one cb ys)"
  by (induction xs arbitrary: s) (auto split: bind_splits)

lemma view_step_serves:
  assumes "view_step cb script ev vw = Some vw'" and "one_by_one cb (vw_served vw) s = Some (vw_app vw)"
  shows "one_by_one cb (vw_served vw') s = Some (vw_app vw')"
  using assms by (cases ev) (auto simp: packet_def Let_def one_by_one_append
      split: option.splits list.splits if_splits)

lemma view_run_serves:
  "view_run cb script evs vw = Some vw' \<Longrightarrow> one_by_one cb (vw_served vw) s = Some (vw_app vw) \<Longrightarrow>
   one_by_one cb (vw_served vw') s = Some (vw_app vw')"
  by (induction evs arbitrary: vw) (auto dest: view_step_serves split: bind_splits)

subsection \<open>The parser and the clock\<close>

text \<open>The receive time is read only where the request line is complete.\<close>

lemma turn_time:
  assumes "ctx_state c \<noteq> kExpectRequestLine"
  shows "parse_iter B t c b = parse_iter B t' c b"
    and "parse_iter B t c b = Again c' b' \<Longrightarrow> ctx_state c' \<noteq> kExpectRequestLine"
    and "parse_iter B t c b = Leave ok c' b' \<Longrightarrow> ctx_state c' \<noteq> kExpectRequestLine"
  using assms
  by (auto simp: parse_iter_def header_line_step_def content_length_step_def Let_def
      split: parse_state.splits option.splits prod.splits if_splits)

lemma parse_time:
  assumes "ctx_state c \<noteq> kExpectRequestLine"
  shows "parse_str t c s = parse_str t' c s \<and>
    (\<forall>ok c1 s1. parse_str t c s = Some (Inr (ok, c1, s1)) \<longrightarrow> ctx_state c1 \<noteq> kExpectRequestLine)"
proof (cases "ctx_state c = kGotAll")
  case True
  then show ?thesis by (simp add: parse_loop_diverges)
next
  case False
  then show ?thesis using assms
  proof (induction "length s" arbitrary: c s rule: less_induct)
    case less
    note unf = parse_loop.simps [of string_buffer _ c]
    note time = turn_time [OF less.prems(2)]
    show ?case
    proof (cases "parse_iter string_buffer t c s")
      case (Again c' s')
      then have "parse_iter string_buffer t' c s = Again c' s'" by (simp only: time(1) [of string_buffer t' s t])
      with Again turn_shrinks [OF buffer_laws_string less.prems(1) Again] time(2) [OF Again]
        less.hyps [of s' c'] show ?thesis by (simp add: unf)
    next
      case (Leave ok c' s')
      moreover from this have "parse_iter string_buffer t' c s = Leave ok c' s'" by (simp only: time(1) [of string_buffer t' s t])
      ultimately show ?thesis using time(3) [OF Leave] by (simp add: unf)
    next
      case (Abort f)
      moreover from this have "parse_iter string_buffer t' c s = Abort f" by (simp only: time(1) [of string_buffer t' s t])
      ultimately show ?thesis by (simp add: unf)
    qed
  qed
qed

lemma waiting_for_line:
  "str_find crlf s = None \<Longrightarrow> parse_str t (new_context n) s = Some (Inr (True, new_context n, s))"
  by (intro parse_leave) (simp add: parse_iter_def)

lemma behind_line:
  assumes "str_find crlf s = Some i" and "parse_str t (new_context n) s = Some (Inr (True, c1, s1))"
  shows "ctx_state c1 \<noteq> kExpectRequestLine"
proof -
  obtain c' s' where a: "parse_iter string_buffer t (new_context n) s = Again c' s'" "ctx_state c' = kExpectHeaders"
    using assms unfolding parse_loop.simps [of string_buffer t "new_context n"]
    by (auto simp: parse_iter_def split: sum.splits prod.splits bool.splits)
  then have "parse_str t c' s' = Some (Inr (True, c1, s1))"
    using assms(2) unfolding parse_loop.simps [of string_buffer t "new_context n"] by simp
  then show ?thesis using parse_time [of c' t s' t] a(2) by (metis parse_state.distinct(1))
qed

end
