(* ===== verification/Client_Refinement.thy ===== *)
theory Client_Refinement
  imports Client_View
begin

section \<open>The server does what the clients see\<close>

text \<open>
  A simulation between the abstract server of \<open>Client_View\<close> and the server over its connections.  A
  connection that has read the bytes \<open>got\<close> of a request continues as a new one would that reads them
  again (\<open>has_read\<close>); it does not matter where the packets were cut.
\<close>

definition has_read ::
    "('b, 't, 's) server \<Rightarrow> bytes \<Rightarrow> int option \<Rightarrow> ('b, 't, 'a) conn_state \<Rightarrow> bool" where
  "has_read srv got line cs \<longleftrightarrow>
     (\<exists>c. cs_context cs = Some c \<and> \<not> gotAll c \<and>
        (\<forall>t u. parseRequest string_buffer t c (readable (sv_buffer srv) (cs_inbuf cs) @ u) =
           parseRequest string_buffer (case line of None \<Rightarrow> t | Some t1 \<Rightarrow> t1)
             (new_context (sv_maxRequestBodyBytes srv)) (got @ u)))"

definition shows_client :: "('b, 't, 's) server \<Rightarrow> client \<Rightarrow> ('b, 't) connection \<Rightarrow> bool" where
  "shows_client srv cl e \<longleftrightarrow>
     cs_ssl e = None \<and> cs_out e = cl_sent cl \<and> has_read srv (cl_got cl) (cl_time cl) e \<and>
     list_all (sendable (sv_maxRequestBodyBytes srv)) (cl_todo cl)"

definition shows_view :: "('b, 't, 's) server \<Rightarrow> 's view \<Rightarrow> ('b, 't, 's) live_server \<Rightarrow> bool" where
  "shows_view srv vw st \<longleftrightarrow> lv_app st = vw_app vw \<and>
     (\<forall>c. rel_option (shows_client srv) (vw_clients vw c) (lv_connections st c))"

subsection \<open>A packet\<close>

lemma whole_request:
  "sendable n q \<Longrightarrow> parseRequest string_buffer t (new_context n) (request_bytes q @ rest) =
    Some (Inr (True, \<lparr>ctx_state = kGotAll, ctx_request = request_of t q, ctx_maxBodyBytes = n,
      ctx_parseErrorStatus = 400\<rparr>, rest))"
  using parse_rendered [of n "cr_method q" "cr_target q" "cr_version q" "cr_headers q" "cr_body q" t rest]
  by (simp add: parseRequest_new sendable_def request_bytes_def request_of_def)

lemma part_of_request:
  assumes "sendable n q" and "strict_prefix got (request_bytes q)"
  shows "\<exists>c1 s1. parseRequest string_buffer t (new_context n) got = Some (Inr (True, c1, s1)) \<and> \<not> gotAll c1 \<and>
    (\<forall>t' u. parseRequest string_buffer t' c1 (s1 @ u) =
       parseRequest string_buffer (if str_find crlf got = None then t' else t) (new_context n) (got @ u))"
proof -
  obtain r where r: "request_bytes q = got @ r" "r \<noteq> []" using assms(2) by (auto elim: strict_prefixE')
  obtain x where x: "parseRequest string_buffer t (new_context n) got = Some x"
    using parse_loop_returns [OF buffer_laws_string, of "new_context n" t got] by (auto simp: parseRequest_new)
  note more = http_parser.parse_more [OF x]
  obtain ok c1 s1 where y: "x = Inr (ok, c1, s1)" "ok" "\<not> gotAll c1"
    using more [of r] whole_request [OF assms(1), of t "[]"] r by (auto split: sum.splits prod.splits if_splits)
  have "parseRequest string_buffer t' c1 (s1 @ u) =
      parseRequest string_buffer (if str_find crlf got = None then t' else t) (new_context n) (got @ u)" for t' u
  proof (cases "str_find crlf got")
    case None
    with waiting_for_line [OF None, of t n] x y show ?thesis by (simp add: parseRequest_new)
  next
    case (Some i)
    have "ctx_state (c1\<lparr>ctx_parseErrorStatus := 400\<rparr>) \<noteq> kExpectRequestLine"
      using behind_line [OF Some, of t n c1 s1] x y by (simp add: parseRequest_new)
    from parse_time [OF this, of t' "s1 @ u" t]
    have "parseRequest string_buffer t' c1 (s1 @ u) = parseRequest string_buffer t c1 (s1 @ u)"
      by (simp add: parseRequest_def)
    then show ?thesis using more [of u] y Some by simp
  qed
  with x y show ?thesis by auto
qed

lemma packet_waits:
  assumes "plain srv" and "has_read srv got line cs" and "sendable (sv_maxRequestBodyBytes srv) q"
    and "strict_prefix (got @ d) (request_bytes q)" and "time = (case line of None \<Rightarrow> t | Some t1 \<Rightarrow> t1)"
  shows "\<exists>cs'. receive srv t d cs = Some (Ok (), cs') \<and> cs_out cs' = cs_out cs \<and> cs_app cs' = cs_app cs \<and>
    cs_ssl cs' = cs_ssl cs \<and> has_read srv (got @ d) (if str_find crlf (got @ d) = None then None else Some time) cs'"
proof -
  let ?B = "sv_buffer srv" and ?n = "sv_maxRequestBodyBytes srv"
  let ?cs = "cs\<lparr>cs_inbuf := append_buf ?B (cs_inbuf cs) d\<rparr>"
  obtain c where c: "cs_context cs = Some c"
    "\<And>t u. parseRequest string_buffer t c (readable ?B (cs_inbuf cs) @ u) =
      parseRequest string_buffer (case line of None \<Rightarrow> t | Some t1 \<Rightarrow> t1) (new_context ?n) (got @ u)"
    using assms(2) by (auto simp: has_read_def)
  obtain c1 s1 where p: "parseRequest string_buffer time (new_context ?n) (got @ d) = Some (Inr (True, c1, s1))"
    "\<not> gotAll c1" and later: "\<And>t' u. parseRequest string_buffer t' c1 (s1 @ u) =
       parseRequest string_buffer (if str_find crlf (got @ d) = None then t' else time) (new_context ?n) ((got @ d) @ u)"
    using part_of_request [OF assms(3,4), of time] by blast
  have "parseRequest string_buffer t c (readable ?B (cs_inbuf ?cs)) = Some (Inr (True, c1, s1))"
    using c(2) p(1) assms(5) by (simp add: append_law [OF plainD(1) [OF assms(1)]])
  from message_waits [OF assms(1) _ p(2) this] c(1) obtain b where b: "readable ?B b = s1"
    "receive srv t d cs = Some (Ok (), ?cs\<lparr>cs_inbuf := b, cs_context := Some c1\<rparr>)"
    by (auto simp: receive_unfold)
  moreover have "has_read srv (got @ d) (if str_find crlf (got @ d) = None then None else Some time)
      (?cs\<lparr>cs_inbuf := b, cs_context := Some c1\<rparr>)"
    using p(2) b(1) later by (cases "str_find crlf (got @ d)") (simp_all add: has_read_def)
  ultimately show ?thesis by simp
qed

lemma packet_completes:
  assumes "plain srv" and "has_read srv got line cs" and "sendable (sv_maxRequestBodyBytes srv) q"
    and "got @ d = request_bytes q @ rest" and "time = (case line of None \<Rightarrow> t | Some t1 \<Rightarrow> t1)"
    and "answer (httpCallback srv) (request_of time q) (cs_app cs) = Some (out, s')"
  shows "\<exists>cs'. receive srv t d cs = Some (Ok (), cs') \<and> cs_out cs' = cs_out cs @ out \<and> cs_app cs' = s' \<and>
    cs_ssl cs' = cs_ssl cs \<and> has_read srv rest None cs'"
proof -
  let ?B = "sv_buffer srv" and ?n = "sv_maxRequestBodyBytes srv"
  let ?cs = "cs\<lparr>cs_inbuf := append_buf ?B (cs_inbuf cs) d\<rparr>"
  let ?c1 = "\<lparr>ctx_state = kGotAll, ctx_request = request_of time q, ctx_maxBodyBytes = ?n, ctx_parseErrorStatus = 400\<rparr>"
  obtain c where c: "cs_context cs = Some c"
    "\<And>t u. parseRequest string_buffer t c (readable ?B (cs_inbuf cs) @ u) =
      parseRequest string_buffer (case line of None \<Rightarrow> t | Some t1 \<Rightarrow> t1) (new_context ?n) (got @ u)"
    using assms(2) by (auto simp: has_read_def)
  have p: "parseRequest string_buffer t c (readable ?B (cs_inbuf ?cs)) = Some (Inr (True, ?c1, rest))"
    using c(2) whole_request [OF assms(3), of time rest] assms(4,5) by (simp add: append_law [OF plainD(1) [OF assms(1)]])
  obtain resp where r: "httpCallback srv (request_of time q) (new_response (wants_close (request_of time q))) (cs_app cs) =
      (Ok (), resp, s')" "length (res_body resp) < 10 ^ 13"
    "out = ConnSend (response_text resp) # (if res_closeConnection resp then [ConnShutdown] else [])"
    using assms(6) by (auto simp: answer_def split: outcome.splits prod.splits if_splits)
  obtain b where b: "readable ?B b = rest" "receive srv t d cs = Some (Ok (), ?cs\<lparr>cs_inbuf := b,
      cs_context := Some (reset_context ?c1), cs_app := s', cs_out := cs_out cs @ out\<rparr>)"
    using message_answered [OF assms(1) _ _ p, of resp s'] c(1) r by (auto simp: receive_unfold gotAll_def)
  moreover have "reset_context ?c1 = new_context ?n" by (simp add: reset_context_eq new_context_def)
  ultimately show ?thesis by (simp add: has_read_def)
qed

subsection \<open>An event\<close>

lemma has_read_with_app [simp]: "has_read srv got line (with_app s cs) = has_read srv got line cs"
  by (simp add: has_read_def)

lemma shows_client_with_app [simp]: "shows_client srv cl (with_app () e) = shows_client srv cl e"
  by (simp add: shows_client_def)

lemma shows_update:
  "shows_view srv vw st \<Longrightarrow> shows_client srv cl e \<Longrightarrow>
   shows_view srv (vw\<lparr>vw_clients := (vw_clients vw)(c \<mapsto> cl), vw_served := qs, vw_app := s\<rparr>)
     (st\<lparr>lv_connections := (lv_connections st)(c \<mapsto> e), lv_app := s\<rparr>)"
  by (simp add: shows_view_def)

lemma arrived_shows:
  assumes "plain srv" and rel: "shows_view srv vw st" and cl: "vw_clients vw c = Some cl"
    and step: "packet (httpCallback srv) c t d cl vw = Some vw'"
  shows "\<exists>st'. event_step srv (Arrived c t d) st = Some (Ok (), st') \<and> shows_view srv vw' st'"
proof -
  obtain e where e: "lv_connections st c = Some e" "shows_client srv cl e" "lv_app st = vw_app vw"
    using rel cl by (auto simp: shows_view_def option_rel_Some1 dest!: spec [where x = c])
  let ?cs = "with_app (lv_app st) e"
  obtain q qs where q: "cl_todo cl = q # qs" using step by (auto simp: packet_def split: list.splits)
  let ?got = "cl_got cl @ d" and ?time = "line_time cl t"
  note facts = e(2) [unfolded shows_client_def]
  have ok: "sendable (sv_maxRequestBodyBytes srv) q" "list_all (sendable (sv_maxRequestBodyBytes srv)) qs"
    using facts q by simp_all
  have read: "has_read srv (cl_got cl) (cl_time cl) ?cs" using facts by simp
  have run: "\<exists>st'. event_step srv (Arrived c t d) st = Some (Ok (), st') \<and>
      shows_view srv (vw\<lparr>vw_clients := (vw_clients vw)(c \<mapsto> cl'), vw_served := rs, vw_app := cs_app cs'\<rparr>) st'"
    if "receive srv t d ?cs = Some (Ok (), cs')" "shows_client srv cl' (with_app () cs')" for cs' cl' rs
    using that e(1) shows_update [OF rel that(2), where c = c and qs = rs and s = "cs_app cs'"] by (simp add: on_connection_def)
  show ?thesis
  proof (cases "prefix (request_bytes q) ?got")
    case True
    then obtain rest where rest: "?got = request_bytes q @ rest" by (auto elim: prefixE)
    obtain out s' where a: "answer (httpCallback srv) (request_of ?time q) (cs_app ?cs) = Some (out, s')"
      "vw' = vw\<lparr>vw_clients := (vw_clients vw)(c \<mapsto> \<lparr>cl_todo = qs, cl_got = rest, cl_time = None, cl_sent = cl_sent cl @ out\<rparr>),
        vw_served := vw_served vw @ [request_of ?time q], vw_app := s'\<rparr>"
      using step q rest e(3) by (auto simp: packet_def Let_def)
    obtain cs' where cs': "receive srv t d ?cs = Some (Ok (), cs')" "cs_out cs' = cs_out ?cs @ out" "cs_app cs' = s'"
      "cs_ssl cs' = cs_ssl ?cs" "has_read srv rest None cs'"
      using packet_completes [OF assms(1) read ok(1) rest line_time_def a(1)] by blast
    have "shows_client srv \<lparr>cl_todo = qs, cl_got = rest, cl_time = None, cl_sent = cl_sent cl @ out\<rparr> (with_app () cs')"
      using cs' facts ok(2) by (simp add: shows_client_def)
    from run [OF cs'(1) this, of "vw_served vw @ [request_of ?time q]"] a(2) cs'(3) show ?thesis by simp
  next
    case False
    let ?cl = "cl\<lparr>cl_got := ?got, cl_time := (if str_find crlf ?got = None then None else Some ?time)\<rparr>"
    have p: "strict_prefix ?got (request_bytes q)" "vw' = vw\<lparr>vw_clients := (vw_clients vw)(c \<mapsto> ?cl)\<rparr>"
      using step q False by (auto simp: packet_def Let_def split: if_splits)
    obtain cs' where cs': "receive srv t d ?cs = Some (Ok (), cs')" "cs_out cs' = cs_out ?cs" "cs_app cs' = cs_app ?cs"
      "cs_ssl cs' = cs_ssl ?cs" "has_read srv ?got (if str_find crlf ?got = None then None else Some ?time) cs'"
      using packet_waits [OF assms(1) read ok(1) p(1) line_time_def] by blast
    have "shows_client srv ?cl (with_app () cs')"
      using cs' facts q by (simp add: shows_client_def del: not_None_eq)
    from run [OF cs'(1) this, of "vw_served vw"] p(2) cs'(3) e(3) show ?thesis by simp
  qed
qed

lemma event_shows:
  assumes "plain srv" and "\<And>c. list_all (sendable (sv_maxRequestBodyBytes srv)) (script c)"
    and rel: "shows_view srv vw st" and step: "view_step (httpCallback srv) script ev vw = Some vw'"
  shows "\<exists>st'. event_step srv ev st = Some (Ok (), st') \<and> shows_view srv vw' st'"
proof (cases ev)
  case (Accepted c)
  let ?e = "(accepted_connection (sv_buffer srv))\<lparr>cs_context := Some (new_context (sv_maxRequestBodyBytes srv))\<rparr>"
  have "shows_client srv (new_client (script c)) (with_app () ?e)"
    using assms(2) by (simp add: shows_client_def new_client_def accepted_connection_def has_read_def
        empty_law [OF plainD(1) [OF assms(1)]])
  with rel step Accepted show ?thesis
    by (auto simp: on_connection_def connection_callback_def onConnection_def Let_def plainD(2) [OF assms(1)]
        accepted_connection_def with_app_def shows_view_def)
next
  case (Arrived c t d)
  with step arrived_shows [OF assms(1) rel] show ?thesis by (auto split: option.splits)
next
  case (WriteComplete c)
  have "event_step srv ev st = Some (Ok (), st)"
  proof (cases "lv_connections st c")
    case (Some e)
    then have "cs_ssl e = None" using rel by (auto simp: shows_view_def shows_client_def option_rel_Some2
          dest!: spec [where x = c])
    with Some WriteComplete show ?thesis
      by (cases st) (auto simp: on_connection_def write_complete_callback_def with_app_def fun_upd_idem)
  qed (simp add: WriteComplete on_connection_def)
  with rel step WriteComplete show ?thesis by simp
next
  case (Closed c)
  with rel step show ?thesis
    by (cases "lv_connections st c")
      (auto simp: on_connection_def connection_callback_def onConnection_def plainD(2) [OF assms(1)] shows_view_def
        fun_upd_idem)
qed

lemma run_shows:
  assumes "plain srv" and "\<And>c. list_all (sendable (sv_maxRequestBodyBytes srv)) (script c)"
    and "shows_view srv vw st" and "view_run (httpCallback srv) script evs vw = Some vw'"
  shows "\<exists>st'. server_run srv evs st = Some (Ok (), st') \<and> shows_view srv vw' st'"
  using assms(3,4)
proof (induction evs arbitrary: vw st)
  case (Cons ev evs)
  obtain vw1 where v: "view_step (httpCallback srv) script ev vw = Some vw1"
    "view_run (httpCallback srv) script evs vw1 = Some vw'" using Cons.prems(2) by (auto split: bind_splits)
  from event_shows [OF assms(1,2) Cons.prems(1) v(1)] obtain st1 where
    "event_step srv ev st = Some (Ok (), st1)" "shows_view srv vw1 st1" by blast
  with Cons.IH [OF _ v(2)] show ?case by simp
qed simp

lemma view_transcripts:
  "shows_view srv vw st \<Longrightarrow> map_option cs_out (lv_connections st c) = map_option cl_sent (vw_clients vw c)"
  by (auto simp: shows_view_def shows_client_def dest!: spec [where x = c] elim!: option.rel_cases)

subsection \<open>The refinement\<close>

lemma shows_new: "shows_view srv (new_view s) (new_live_server s)"
  by (simp add: shows_view_def new_view_def new_live_server_def)

text \<open>C4: a server without TLS and its clients, each with a script of well-formed requests that fit the body
  limit.  The packets of the clients are cut anywhere (within a request, over the end of one), and with
  the connections they open and close and the write-complete events they interleave in any way.  As long as
  the clients follow their scripts and the handlers return (\<open>view_run\<close> gives a view), the server behaves
  as the abstract one that takes whole requests, at most one for a packet: every client is sent exactly the
  answers to its own requests, in its own order, the application has seen exactly those requests one by one,
  in the order of the packets that completed them, and each carries the time of the packet with which its
  request line was complete.  A request that is pipelined behind another one is answered with the next
  packet of its client, and not before.\<close>

theorem clients_served_one_by_one:
  assumes "plain srv" and "\<And>c. list_all (sendable (sv_maxRequestBodyBytes srv)) (script c)"
    and "view_run (httpCallback srv) script evs (new_view s) = Some vw"
  shows "\<exists>st. server_run srv evs (new_live_server s) = Some (Ok (), st) \<and> lv_app st = vw_app vw \<and>
    one_by_one (httpCallback srv) (vw_served vw) s = Some (lv_app st) \<and>
    (\<forall>c. map_option cs_out (lv_connections st c) = map_option cl_sent (vw_clients vw c))"
proof -
  obtain st where st: "server_run srv evs (new_live_server s) = Some (Ok (), st)" "shows_view srv vw st"
    using run_shows [OF assms(1,2) shows_new assms(3)] by blast
  moreover have "one_by_one (httpCallback srv) (vw_served vw) s = Some (vw_app vw)"
    using view_run_serves [OF assms(3)] by (simp add: new_view_def)
  moreover have "lv_app st = vw_app vw" using st(2) by (simp add: shows_view_def)
  ultimately show ?thesis using view_transcripts [OF st(2)] by simp
qed

definition demo_get :: client_request where
  "demo_get = \<lparr>cr_method = ''GET'', cr_target = ''/a'', cr_version = ''HTTP/1.1'', cr_headers = [], cr_body = []\<rparr>"

definition demo_events :: "event list" where
  \<comment> \<open>the second client sends the begin of its second request together with the end of the first\<close>
  "demo_events = [Accepted 1, Accepted 2, Arrived 1 5 ''GET /'', Arrived 2 6 ''GE'',
     Arrived 2 7 (''T /a HTTP/1.1'' @ crlf @ crlf @ ''GET /''), WriteComplete 2,
     Arrived 1 8 (''a HTTP/1.1'' @ crlf @ crlf), Arrived 2 9 (''a HTTP/1.1'' @ crlf @ crlf)]"

lemma demo_get_bytes: "request_bytes demo_get = ''GET /a HTTP/1.1'' @ crlf @ crlf"
  by (simp add: request_bytes_def demo_get_def render_request_def)

lemma demo_get_answer:
  "answer (httpCallback demo_server) (request_of t demo_get) s =
     Some ([ConnSend (response_text (setBody ''/a'' (setStatusLine ''HTTP/1.1'' k200Ok ''OK'' (new_response False))))], Suc s)"
proof -
  have req: "req_method (request_of t demo_get) = kGet" "req_path (request_of t demo_get) = ''/a''"
    "\<not> wants_close (request_of t demo_get)"
    by (simp_all add: request_of_def demo_get_def denoted_request_def method_of_name_def wants_close_def getHeader_def
        header_map_def)
  then show ?thesis
    by (simp add: answer_def httpCallback_def handleRequest_def run_request_def catch_request_def demo_simps
        route_def Let_def demo_server_def HttpServer_def registerHandler_def then_true_def
        call_handler_def demo_handler_def processAfter_def setBody_def setStatusLine_def new_response_def)
qed

theorem clients_served_one_by_one_witness:
  "\<exists>st e1 e2 r. server_run demo_server demo_events (new_live_server 0) = Some (Ok (), st) \<and> lv_app st = 3 \<and>
     lv_connections st 1 = Some e1 \<and> cs_out e1 = [ConnSend (response_text r)] \<and>
     lv_connections st 2 = Some e2 \<and> cs_out e2 = [ConnSend (response_text r), ConnSend (response_text r)] \<and>
     res_body r = ''/a''"
proof -
  let ?script = "\<lambda>c. [demo_get, demo_get]" and ?r = "setBody ''/a'' (setStatusLine ''HTTP/1.1'' k200Ok ''OK'' (new_response False))"
  have ok: "list_all (sendable (sv_maxRequestBodyBytes demo_server)) (?script c)" for c :: nat
    by (simp add: sendable_def demo_get_def wf_request_def method_of_name_def carries_body_def)
  obtain vw where vw: "view_run (httpCallback demo_server) ?script demo_events (new_view 0) = Some vw"
    "vw_app vw = 3" "map_option cl_sent (vw_clients vw 1) = Some [ConnSend (response_text ?r)]"
    "map_option cl_sent (vw_clients vw 2) = Some [ConnSend (response_text ?r), ConnSend (response_text ?r)]"
    by (simp add: demo_events_def new_view_def new_client_def packet_def demo_get_bytes demo_get_answer
        Let_def strict_prefix_def)
  from clients_served_one_by_one [OF demo_simps(1) ok vw(1)] obtain st where
    st: "server_run demo_server demo_events (new_live_server 0) = Some (Ok (), st)" "lv_app st = 3"
    "\<And>c. map_option cs_out (lv_connections st c) = map_option cl_sent (vw_clients vw c)"
    using vw(2) by auto
  have "map_option cs_out (lv_connections st 1) = Some [ConnSend (response_text ?r)]"
    "map_option cs_out (lv_connections st 2) = Some [ConnSend (response_text ?r), ConnSend (response_text ?r)]"
    using st(3) vw(3,4) by auto
  moreover have "res_body ?r = ''/a''" by (simp add: setBody_def)
  ultimately show ?thesis using st(1,2) by blast
qed

end
