(* ===== verification/Tls_Server.thy ===== *)
theory Tls_Server
  imports Server_Properties
begin

section \<open>A request over TLS\<close>

text \<open>
  \<open>SslConnection\<close> and \<open>HttpServer\<close> together, from the bytes of a packet to the plaintext of the response.
  \<open>decrypts T t p t'\<close> describes one run of the reading loop: from the state \<open>t\<close>, calls of \<open>SSL_read\<close>
  hand out pieces that make up \<open>p\<close>, and the call after them, which leaves \<open>t'\<close>, has nothing more, because
  the peer closed its side or OpenSSL waits for more ciphertext.  What OpenSSL does in any other state is left open.
\<close>

inductive decrypts :: "'t tls_ops \<Rightarrow> 't \<Rightarrow> bytes \<Rightarrow> 't \<Rightarrow> bool" for T where
  no_more: "SSL_read T 4096 t = (r, d, t') \<Longrightarrow> \<not> 0 < r \<Longrightarrow>
    r = 0 \<or> SSL_get_error T r t' \<in> {SSL_ERROR_WANT_READ, SSL_ERROR_WANT_WRITE} \<Longrightarrow> decrypts T t [] t'"
| a_piece: "SSL_read T 4096 t = (r, d, t1) \<Longrightarrow> 0 < r \<Longrightarrow> decrypts T t1 p t' \<Longrightarrow>
    decrypts T t (take (nat r) d @ p) t'"

subsection \<open>Reading\<close>

lemma feed_loop_frame:
  "feed_loop T p c = Some (True, c1) \<Longrightarrow> c1 = c\<lparr>sc_tls := sc_tls c1\<rparr>"
proof (induction "length p" arbitrary: p c rule: less_induct)
  case less
  show ?case
  proof (cases "p = []")
    case True
    with less.prems show ?thesis by (simp add: feed_loop.simps)
  next
    case False
    let ?chunk = "min (length p) INT_MAX"
    obtain w t where w: "BIO_write T (take ?chunk p) (sc_tls c) = (w, t)" by fastforce
    then have "feed_loop T (drop ?chunk p) (c\<lparr>sc_tls := t\<rparr>) = Some (True, c1)"
      using less.prems False by (auto simp: feed_loop.simps [of T p c] Let_def split: if_splits)
    moreover have "length (drop ?chunk p) < length p" using False by (simp add: INT_MAX_def)
    ultimately have "c1 = c\<lparr>sc_tls := t, sc_tls := sc_tls c1\<rparr>" using less.hyps by blast
    then show ?thesis by simp
  qed
qed

lemma read_loop_decrypts:
  assumes "decrypts T t p t'" and L: "tls_laws T wsize rsize acc" and B: "buffer_laws B" and "sc_tls c = t"
  shows "\<exists>r c'. read_loop B T c = Some (r, c') \<and> (r < 0 \<longrightarrow> getLastError T r c' \<in> {WANT_READ, WANT_WRITE}) \<and>
    readable B (sc_decryptedBuffer c') = readable B (sc_decryptedBuffer c) @ p \<and> acc t' = acc t \<and>
    c' = c\<lparr>sc_tls := t', sc_decryptedBuffer := sc_decryptedBuffer c'\<rparr>"
  using assms(1,4)
proof (induction arbitrary: c)
  case (no_more t r d t')
  then have "read_loop B T c = Some (r, c\<lparr>sc_tls := t'\<rparr>)" by (subst read_loop.simps) simp
  moreover have "acc t' = acc t" using tls_lawsD(4) [OF L no_more(1)] by simp
  ultimately show ?case using no_more(3) by (auto simp: getLastError_def)
next
  case (a_piece t r d t1 p t')
  let ?c1 = "c\<lparr>sc_tls := t1, sc_decryptedBuffer := append_buf B (sc_decryptedBuffer c) (take (nat r) d)\<rparr>"
  have "read_loop B T c = read_loop B T ?c1"
    using a_piece.hyps a_piece.prems by (subst read_loop.simps) simp
  moreover have "acc t1 = acc t" using tls_lawsD(4) [OF L a_piece.hyps(1)] by simp
  moreover obtain r' c' where "read_loop B T ?c1 = Some (r', c')"
    "r' < 0 \<longrightarrow> getLastError T r' c' \<in> {WANT_READ, WANT_WRITE}"
    "readable B (sc_decryptedBuffer c') = readable B (sc_decryptedBuffer ?c1) @ p" "acc t' = acc t1"
    "c' = ?c1\<lparr>sc_tls := t', sc_decryptedBuffer := sc_decryptedBuffer c'\<rparr>"
    using a_piece.IH [of ?c1] by auto
  ultimately show ?case by (intro exI [of _ r'] exI [of _ c']) (simp add: append_law [OF B])
qed

lemma drain_loop_nothing: "sc_pendingPlain c = [] \<Longrightarrow> drain_loop T k c = flushWriteBio T c"
  by (cases k) simp_all

lemma drain_nothing:
  assumes "tls_laws T wsize rsize acc" and "sc_pendingPlain c = []"
  shows "\<exists>c'. drainPendingPlain T c = Some c' \<and> quiet acc c c'"
  using flush_returns [OF assms(1), of c] assms(2)
  by (auto simp: drainPendingPlain_def drain_loop_nothing)

lemma onRead_decrypts:
  assumes L: "tls_laws T wsize rsize acc" and B: "buffer_laws B"
    and "sc_ssl c" "sc_state c = ESTABLISHED" "sc_pendingPlain c = []" "readable B buf \<noteq> []"
    and "feedReadBio T (readable B buf) c = Some (True, c1)" and D: "decrypts T (sc_tls c1) p t'"
  shows "\<exists>b c'. onRead B T buf c = Some (b, c') \<and> sc_ssl c' \<and> sc_state c' = ESTABLISHED \<and>
    sc_pendingPlain c' = [] \<and> acc (sc_tls c') = acc (sc_tls c) \<and>
    readable B (sc_decryptedBuffer c') = readable B (sc_decryptedBuffer c) @ p"
proof -
  have f: "c1 = c\<lparr>sc_tls := sc_tls c1\<rparr>"
    using assms(6,7) feed_loop_frame by (auto simp: feedReadBio_def split: if_splits)
  obtain r c2 where r: "read_loop B T c1 = Some (r, c2)" "r < 0 \<longrightarrow> getLastError T r c2 \<in> {WANT_READ, WANT_WRITE}"
    "readable B (sc_decryptedBuffer c2) = readable B (sc_decryptedBuffer c1) @ p" "acc t' = acc (sc_tls c1)"
    "c2 = c1\<lparr>sc_tls := t', sc_decryptedBuffer := sc_decryptedBuffer c2\<rparr>"
    using read_loop_decrypts [OF D L B refl] by blast
  have f1: "sc_ssl c1 = sc_ssl c" "sc_state c1 = sc_state c" "sc_pendingPlain c1 = sc_pendingPlain c"
    "sc_decryptedBuffer c1 = sc_decryptedBuffer c" by (subst f, simp)+
  have a: "acc (sc_tls c1) = acc (sc_tls c)"
    using feed_loop_returns [OF L, of "readable B buf" c] assms(6,7) f1(3)
    by (auto simp: feedReadBio_def stream_def split: if_splits)
  have f2: "sc_ssl c2 = sc_ssl c1" "sc_state c2 = sc_state c1" "sc_pendingPlain c2 = sc_pendingPlain c1"
    "sc_tls c2 = t'" by (subst r(5), simp)+
  obtain c3 where c3: "flushWriteBio T c2 = Some c3" "quiet acc c2 c3" by (rule flushE [OF L])
  note f3 = quiet_fields [OF c3(2)]
  obtain c4 where c4: "drainPendingPlain T c3 = Some c4" "quiet acc c3 c4"
    using drain_nothing [OF L, of c3] assms(5) by (auto simp: f3 f2 f1)
  note f4 = quiet_fields [OF c4(2)]
  have "\<not> (r < 0 \<and> getLastError T r c2 \<noteq> WANT_READ \<and> getLastError T r c2 \<noteq> WANT_WRITE)" using r(2) by auto
  then have "onRead B T buf c = Some (retrieve B (length (readable B buf)) buf, c4)"
    using assms(3,4,6,7) r(1) c3(1) c4(1) by (auto simp: onRead_def Let_def)
  with r(3,4) a assms(3-5) show ?thesis by (simp add: f4 f3 f2 f1)
qed

subsection \<open>Answering\<close>

lemma tls_parse:
  assumes "buffer_laws (sv_buffer srv)" "sv_useSSL srv" "cs_ssl cs = Some sc" "cs_context cs = Some c"
    and "parseRequest string_buffer t c (readable (sv_buffer srv) (sc_decryptedBuffer sc)) = Some (Inr (ok, c1, s1))"
  shows "\<exists>b. readable (sv_buffer srv) b = s1 \<and>
    parseRequest (sv_buffer srv) t c (get_buf srv cs) = Some (Inr (ok, c1, b))"
  using parseRequest_refines [OF assms(1), of t c "sc_decryptedBuffer sc"] assms
  by (auto simp: get_buf_def elim!: view_resultE)

lemma tls_send:
  assumes L: "tls_laws (sv_tls srv) wsize rsize acc" and "sv_useSSL srv" "cs_ssl cs = Some sc" "d \<noteq> []"
    and "sc_ssl sc" "sc_state sc = ESTABLISHED" "sc_pendingPlain sc = []"
  shows "\<exists>sc'. sendToClient srv d cs = Some (put_ssl sc' cs) \<and>
    keeps_stream (sv_tls srv) acc (acc (sc_tls sc) @ d) sc sc'"
proof -
  obtain sc' where "send_loop (sv_tls srv) d sc = Some sc'" "keeps_stream (sv_tls srv) acc (stream acc sc @ d) sc sc'"
    using send_loop_stream [OF L assms(5-7), of d] by blast
  then show ?thesis
    using assms(2-7) by (intro exI [of _ sc'])
      (simp add: sendToClient_def isHandshakeCompleted_def ssl_send_def stream_def)
qed

lemma put_ssl_fields:
  "cs_ssl (put_ssl sc cs) = Some (sc\<lparr>sc_out := []\<rparr>)" "cs_context (put_ssl sc cs) = cs_context cs"
  "cs_app (put_ssl sc cs) = cs_app cs" "cs_inbuf (put_ssl sc cs) = cs_inbuf cs"
  by (simp_all add: put_ssl_def)

text \<open>C15: over TLS a request is answered like without it.  On an established connection with nothing of an
  earlier response waiting and a parser that expects a request line, let OpenSSL take the packet and decrypt \<open>p\<close> from
  it (\<open>decrypts\<close>), and let what was decrypted before and \<open>p\<close> be a well-formed request with \<open>rest\<close> behind it.  If the
  callback returns, it gets the request it denotes, once, and the plaintext handed to the TLS layer is the serialised
  response: what OpenSSL has accepted and what waits for it is a prefix of the old plaintext and the response,
  and exactly it unless the connection failed or \<open>SSL_get_error\<close> can report that the peer closed it
  (\<open>no_close\<close>).  The parser is ready for the next request, \<open>rest\<close> stays in the decrypted buffer.\<close>

theorem tls_request_answered:
  assumes B: "buffer_laws (sv_buffer srv)" and L: "tls_laws (sv_tls srv) wsize rsize acc"
    and D: "decrypts (sv_tls srv) (sc_tls fed) p t'"
    and "sv_useSSL srv" and "cs_ssl cs = Some sc" "sc_ssl sc" "sc_state sc = ESTABLISHED" "sc_pendingPlain sc = []"
    and "cs_context cs = Some (new_context (sv_maxRequestBodyBytes srv))"
    and "cipher = readable (sv_buffer srv) (cs_inbuf cs) @ d" "cipher \<noteq> []"
    and "feedReadBio (sv_tls srv) cipher sc = Some (True, fed)"
    and "readable (sv_buffer srv) (sc_decryptedBuffer sc) @ p = render_request m target ver hs body @ rest"
    and "wf_request (sv_maxRequestBodyBytes srv) m target ver hs body"
    and "req = denoted_request t m target ver hs body"
    and "httpCallback srv req (new_response (wants_close req)) (cs_app cs) = (Ok (), resp, s')"
    and "length (res_body resp) < 10 ^ 13"
  shows "\<exists>cs' sc'. receive srv t d cs = Some (Ok (), cs') \<and> cs_app cs' = s' \<and>
    cs_context cs' = Some (new_context (sv_maxRequestBodyBytes srv)) \<and> cs_ssl cs' = Some sc' \<and>
    readable (sv_buffer srv) (sc_decryptedBuffer sc') = rest \<and>
    prefix (stream acc sc') (acc (sc_tls sc) @ response_text resp) \<and>
    (no_close (sv_tls srv) \<and> sc_state sc' = ESTABLISHED \<longrightarrow> stream acc sc' = acc (sc_tls sc) @ response_text resp) \<and>
    (res_closeConnection resp \<longrightarrow> last (cs_out cs') = ConnShutdown)"
proof -
  let ?B = "sv_buffer srv" and ?n = "sv_maxRequestBodyBytes srv"
  let ?c1 = "\<lparr>ctx_state = kGotAll, ctx_request = req, ctx_maxBodyBytes = ?n, ctx_parseErrorStatus = 400\<rparr>"
  have cipher: "readable ?B (append_buf ?B (cs_inbuf cs) d) = cipher" using assms(10) by (simp add: append_law [OF B])
  obtain buf sc1 where r: "onRead ?B (sv_tls srv) (append_buf ?B (cs_inbuf cs) d) sc = Some (buf, sc1)"
    "sc_ssl sc1" "sc_state sc1 = ESTABLISHED" "sc_pendingPlain sc1 = []" "acc (sc_tls sc1) = acc (sc_tls sc)"
    "readable ?B (sc_decryptedBuffer sc1) = render_request m target ver hs body @ rest"
    using onRead_decrypts [OF L B assms(6-8), of "append_buf ?B (cs_inbuf cs) d" fed, OF _ _ D] assms(11-13)
    unfolding cipher by metis
  let ?sc1 = "sc1\<lparr>sc_out := []\<rparr>"
  let ?cs1 = "(put_ssl sc1 (cs\<lparr>cs_inbuf := append_buf ?B (cs_inbuf cs) d\<rparr>))\<lparr>cs_inbuf := buf\<rparr>"
  have s1: "cs_ssl ?cs1 = Some ?sc1" "cs_context ?cs1 = Some (new_context ?n)" "cs_app ?cs1 = cs_app cs"
    using assms(9) by (simp_all add: put_ssl_fields)
  have "parseRequest string_buffer t (new_context ?n) (readable ?B (sc_decryptedBuffer ?sc1)) = Some (Inr (True, ?c1, rest))"
    using parse_rendered [OF assms(14), of t rest] r(6) assms(15) by (simp add: parseRequest_new)
  from tls_parse [OF B assms(4) s1(1,2) this] obtain b where b: "readable ?B b = rest"
    "parseRequest ?B t (new_context ?n) (get_buf srv ?cs1) = Some (Inr (True, ?c1, b))" by blast
  let ?sc2 = "?sc1\<lparr>sc_decryptedBuffer := b\<rparr>"
  let ?cs2 = "(put_buf srv b ?cs1)\<lparr>cs_context := Some ?c1\<rparr>"
  let ?cs3 = "?cs2\<lparr>cs_app := s'\<rparr>"
  have s2: "cs_ssl ?cs3 = Some ?sc2" "cs_app ?cs2 = cs_app cs"
    using s1 assms(4) by (simp_all add: put_buf_def)
  have wire: "readable ?B (appendToBuffer ?B resp (empty_buf ?B)) = response_text resp"
    using appendToBuffer_text [OF B assms(17)] by (simp add: empty_law [OF B])
  obtain sc' where sc': "sendToClient srv (response_text resp) ?cs3 = Some (put_ssl sc' ?cs3)"
    "keeps_stream (sv_tls srv) acc (acc (sc_tls ?sc2) @ response_text resp) ?sc2 sc'"
    using tls_send [OF L assms(4) s2(1) response_text_nonempty, of resp] r(2-4) by auto
  let ?close = "\<lambda>cs. if res_closeConnection resp then act ConnShutdown cs else cs"
  let ?cs4 = "(?close (put_ssl sc' ?cs3))\<lparr>cs_context := Some (reset_context ?c1)\<rparr>"
  have "onRequest srv req ?cs2 = Some (Ok (), ?close (put_ssl sc' ?cs3))"
    using assms(16) s2(2) wire sc'(1) by (simp add: onRequest_def Let_def)
  then have "process_input srv t ?cs1 = Some (Ok (), ?cs4)"
    using b(2) s1(2) by (simp add: process_input_def Let_def gotAll_def)
  moreover have "readable ?B (sc_decryptedBuffer sc1) \<noteq> []"
    unfolding r(6) by (simp add: render_request_def)
  ultimately have "receive srv t d cs = Some (Ok (), ?cs4)"
    using r(1,3) assms(4,5) by (simp add: receive_def onMessage_def try_message_def isHandshakeCompleted_def)
  moreover have "reset_context ?c1 = new_context ?n" by (simp add: reset_context_eq new_context_def)
  moreover have "readable ?B (sc_decryptedBuffer sc') = rest" using sc'(2) b(1) by (simp add: keeps_stream_def)
  ultimately show ?thesis
    using sc'(2) r(5) by (intro exI [of _ ?cs4] exI [of _ "sc'\<lparr>sc_out := []\<rparr>"])
      (auto simp: put_ssl_fields act_def keeps_stream_def stream_def)
qed

lemma null_tls_decrypts:
  "0 < length p \<Longrightarrow> length p \<le> 4096 \<Longrightarrow> decrypts null_tls (w, p, a) p (w, [], a)"
  using a_piece [OF _ _ no_more, of null_tls "(w, p, a)" "int (length p)" p "(w, [], a)" "- 1" "[]" "(w, [], a)"]
  by (simp add: null_tls_def)

definition tls_connection :: "(bytes, null_state, nat) conn_state" where
  "tls_connection = demo_connection\<lparr>cs_ssl := Some (null_conn ESTABLISHED [])\<rparr>"

theorem tls_request_answered_witness:
  "\<exists>cs' sc'. receive (demo_server\<lparr>sv_useSSL := True\<rparr>) 7 (''GET /a HTTP/1.1'' @ crlf @ crlf) tls_connection = Some (Ok (), cs') \<and>
     cs_app cs' = 1 \<and> cs_ssl cs' = Some sc' \<and> sc_decryptedBuffer sc' = []"
proof -
  let ?srv = "demo_server\<lparr>sv_useSSL := True\<rparr>" and ?get = "''GET /a HTTP/1.1'' @ crlf @ crlf"
  let ?req = "denoted_request 7 ''GET'' ''/a'' ''HTTP/1.1'' [] []" and ?sc = "null_conn ESTABLISHED []"
  let ?r = "setBody ''/a'' (setStatusLine ''HTTP/1.1'' k200Ok ''OK'' (new_response (wants_close ?req)))"
  let ?fed = "?sc\<lparr>sc_tls := ([], ?get, [])\<rparr>"
  have srv: "sv_buffer ?srv = string_buffer" "sv_tls ?srv = null_tls" "sv_useSSL ?srv"
    "sv_maxRequestBodyBytes ?srv = 8 * 1024 * 1024"
    by (simp_all add: demo_server_def HttpServer_def)
  have cs: "cs_ssl tls_connection = Some ?sc" "cs_context tls_connection = Some (new_context (sv_maxRequestBodyBytes ?srv))"
    "cs_inbuf tls_connection = []" "cs_app tls_connection = 0"
    by (simp_all add: tls_connection_def demo_connection_def srv)
  have sc: "sc_ssl ?sc" "sc_state ?sc = ESTABLISHED" "sc_pendingPlain ?sc = []" "sc_decryptedBuffer ?sc = []"
    by (simp_all add: null_conn_def)
  have len: "min (length ?get) INT_MAX = length ?get" by (simp add: INT_MAX_def)
  have fed: "feedReadBio (sv_tls ?srv) ?get ?sc = Some (True, ?fed)"
    unfolding srv feedReadBio_def
    by (subst feed_loop.simps, subst len) (simp add: null_conn_def null_tls_def feed_loop.simps)
  have wf: "wf_request (sv_maxRequestBodyBytes ?srv) ''GET'' ''/a'' ''HTTP/1.1'' [] []"
    by (simp add: wf_request_def method_of_name_def carries_body_def)
  have req: "req_method ?req = kGet" "req_path ?req = ''/a''"
    by (simp_all add: denoted_request_def method_of_name_def)
  have cb: "httpCallback ?srv ?req (new_response (wants_close ?req)) (cs_app tls_connection) = (Ok (), ?r, 1)"
    by (simp add: httpCallback_def handleRequest_def run_request_def catch_request_def
        route_def Let_def req demo_server_def HttpServer_def registerHandler_def then_true_def
        call_handler_def demo_handler_def processAfter_def cs)
  have body: "length (res_body ?r) < 10 ^ 13" by (simp add: setBody_def)
  have B: "buffer_laws (sv_buffer ?srv)" by (simp add: srv)
  have cipher: "?get = readable (sv_buffer ?srv) (cs_inbuf tls_connection) @ ?get" by (simp add: srv cs)
  have plain: "readable (sv_buffer ?srv) (sc_decryptedBuffer ?sc) @ ?get =
      render_request ''GET'' ''/a'' ''HTTP/1.1'' [] [] @ []"
    by (simp add: srv sc render_request_def)
  have D: "decrypts (sv_tls ?srv) (sc_tls ?fed) ?get ([], [], [])" unfolding srv using null_tls_decrypts [of ?get] by simp
  from tls_request_answered [OF B null_tls_laws [folded srv(2)] D srv(3) cs(1) sc(1-3) cs(2) cipher
      _ fed plain wf refl cb body]
  show ?thesis by (auto simp: srv)
qed

end
