(* ===== verification/Spec2Isabelle.thy ===== *)
theory Spec2Isabelle
  imports Parser_Properties Session_Contract Ssl_Properties Server_Properties Ssl_Context
    Pool_Properties Base64 Password_Hash Mysql_Util AI_Helper_Properties AI_Speech
    Image_Recognizer System_Properties Wire_Properties Client_Refinement
    Tls_Server Packet_Properties
begin

text \<open>
  A verification library of the C++ HTTP server framework (\<open>HttpServer/\<close>) and of the chat application
  built on it (\<open>AIApps/ChatServer/\<close>).

  \<^bold>\<open>The program.\<close>  A TCP connection of muduo calls \<open>HttpServer::onMessage\<close> with the bytes that arrived.
  With TLS they first go through \<open>SslConnection\<close>.  \<open>HttpContext::parseRequest\<close> reads them into an
  \<open>HttpRequest\<close>, across packets.  \<open>HttpServer::onRequest\<close> runs the middleware chain (CORS) and the router,
  which calls a handler; the \<open>HttpResponse\<close> is serialised and sent.  The application is fourteen routes to
  thirteen handlers that share the \<open>ChatServer\<close>: sessions, online users, one \<open>AIHelper\<close> for each
  conversation, image recognisers.  An \<open>AIHelper\<close> asks a language model over HTTP through an \<open>AIStrategy\<close>,
  with tools in two stages, and publishes each message as an SQL statement to RabbitMQ.  Worker threads
  execute the statements over the pool of database connections.

  \<^bold>\<open>Shared theories.\<close>
  \<^item> \<open>Prelude\<close>: bytes, finding and splitting, decimal numbers, the outcome of a call (a value, an exception
    or a \<open>fault\<close> of the process), the collections of hints.
  \<^item> \<open>Actions\<close>: calls that change a state and may throw; their sequencing and the locale of properties
    that survive sequencing.
  \<^item> \<open>Muduo_Buffer\<close>: what the code asks of muduo's buffer (a locale and its string instance).
  \<^item> \<open>Codec\<close>: the laws of a codec (a locale), interpreted for hexadecimal digits and base64.

  \<^bold>\<open>HttpServer.\<close>
  \<^item> \<open>Http_Request\<close>, \<open>Http_Context\<close> (\<open>http/HttpRequest\<close>, \<open>http/HttpContext\<close>): the request and the parser.
    \<open>Incremental_Parser\<close>: feeding pieces is parsing the whole.  \<open>Parse_Roundtrip\<close>: rendered requests are
    read back.  \<open>Parser_Properties\<close>: the invariant of the context, the call that does not return, verdicts.
  \<^item> \<open>Http_Response\<close> (\<open>http/HttpResponse\<close>): setters, serialisation and how a client frames it.
  \<^item> \<open>Handler\<close>, \<open>Router\<close> (\<open>router/Router\<close>): what a pattern of segments means, the prefix buckets and the
    scan of the registrations they refine.
  \<^item> \<open>Session\<close>, \<open>Session_Contract\<close> (\<open>session/\<close>): session objects by address, the storage as an interface
    (a locale), the in-memory storage as its instance, cookies and expiry.
  \<^item> \<open>Middleware\<close> (\<open>middleware/\<close>): the chain and the CORS middleware.
  \<^item> \<open>Ssl_Connection\<close>, \<open>Ssl_Properties\<close> (\<open>ssl/SslConnection\<close>): the TLS state machine over OpenSSL as a
    parameter; reachable states, the plaintext stream.  \<open>Ssl_Context\<close> (\<open>ssl/SslContext\<close>, \<open>ssl/SslConfig\<close>).
  \<^item> \<open>Http_Server\<close>, \<open>Server_Properties\<close> (\<open>http/HttpServer\<close>): the callbacks of a connection and the whole
    way from bytes to bytes; what a connection does until its first refusal, and after it.
  \<^item> \<open>Connections\<close> (\<open>HttpServer::initialize\<close> and \<open>start\<close>): the table of connections, which callback is made
    for which event (accepted, packet, write complete, closed), the loop; locales of what the application
    keeps under events.  \<open>Event_Loop\<close>: every callback comes to an end, with TLS too, and which ends there are.
  \<^item> \<open>Client_View\<close>, \<open>Client_Refinement\<close>: an abstract server that takes whole requests, at most one for a packet,
    and the simulation that shows the server to be it for clients that send well-formed requests in packets cut
    anywhere, pipelined or not, whatever way the packets interleave.
  \<^item> \<open>Tls_Server\<close>: \<open>SslConnection\<close> and \<open>HttpServer\<close> together, from ciphertext to the plaintext of the response;
    \<open>decrypts\<close> says what one run of \<open>SSL_read\<close> hands out.
  \<^item> \<open>Db_Connection\<close>, \<open>Db_Pool\<close>, \<open>Pool_Properties\<close> (\<open>utils/db/\<close>): connections over the driver as a
    parameter; the pool as a step relation of any number of threads; conservation and wake-ups.
  \<^item> \<open>Mysql_Util\<close> (\<open>utils/MysqlUtil.h\<close>): one statement over the pool; the interface the handlers use.

  \<^bold>\<open>ChatServer.\<close>
  \<^item> \<open>Json\<close>, \<open>Web_Service\<close>: what the code asks of the JSON library, of libcurl, the clock, the environment
    and the files, as records of operations; the tools (\<open>AIUtil/AIToolRegistry\<close>).
  \<^item> \<open>AI_Strategy\<close>, \<open>AI_Config\<close> (\<open>AIUtil/AIStrategy\<close>, \<open>AIFactory\<close>, \<open>AIConfig\<close>): requests to and replies of
    the four models, the prompt and the recognition of tool calls.
  \<^item> \<open>Mq_Manager\<close> (\<open>AIUtil/MQManager\<close>): publishing, and the workers as step relations:
    \<open>worker_step\<close> for a worker and its handler, \<open>channel_step\<close> for the exceptions of a channel, a failed
    acknowledgement among them, after which the broker gives the statement out again.
  \<^item> \<open>AI_Helper\<close>, \<open>AI_Helper_Properties\<close> (\<open>AIUtil/AIHelper\<close>): a conversation; \<open>stays\<close> and \<open>restores\<close> say
    which steps leave the messages alone or put them back, and give what a chat adds in all.
  \<^item> \<open>AI_Speech\<close> (\<open>AIUtil/AISpeechProcessor\<close>, \<open>AISessionIdGenerator\<close>), \<open>Image_Recognizer\<close>
    (\<open>AIUtil/ImageRecognizer\<close>, \<open>utils/FileUtil.h\<close>), \<open>Base64\<close> (\<open>AIUtil/base64\<close>), \<open>Password_Hash\<close>
    (\<open>utils/PasswordHash\<close>).
  \<^item> \<open>Chat_Server\<close>, \<open>Chat_Handlers\<close>, \<open>Chat_Routes\<close> (\<open>ChatServer\<close>, \<open>handlers/\<close>): the shared state, one
    definition for each \<open>handle\<close>, the routes.
  \<^item> \<open>Chat_Contract\<close>: locales of what a property of the server must survive (the calls outside, the steps
    on one user's conversations, the session of the request, the login) and, in \<open>application_contract\<close>, the
    lemma that every route keeps it.  \<open>Chat_Properties\<close> and \<open>Chat_Publication\<close> interpret them: well-formed
    state, other users' conversations, the remembered origin, what is published, what lies beside it.
    \<open>Chat_Behaviour\<close>: login, logout, refusals, the restoring of the conversations.  \<open>App_Properties\<close>: what
    holds of the application as a whole.
  \<^item> \<open>Silent_Calls\<close>, \<open>AI_Publication\<close>: a view of the world that calls leave alone; \<open>conversation_contract\<close>,
    the locale of what a chat keeps, interpreted for what it says and for what it does not touch.
  \<^item> \<open>Sql_Rows\<close>: statements and the rows they insert, also those of a forged session id.  \<open>Table_Rows\<close>: the
    table and the conversations restored from it.

  \<^bold>\<open>The whole program.\<close>
  \<^item> \<open>Main_Program\<close> (\<open>main.cpp\<close>): the options, the connection to the database, the start, with what the durable
    queue kept.  \<open>System\<close>: the server, the queue, the workers and the table as one transition system, with the
    invariant that what was sent waits, is in hand or is in the table.  Publications, statements and channels
    may fail: \<open>sound_env\<close> is what is assumed of broker and database even so (a call that returns has done
    its work), \<open>readable_db\<close> that the database answers a start, \<open>lawful\<close> that it never refuses a statement.
  \<^item> \<open>Wire_Properties\<close>: the application on a connection, from the bytes of a request to the bytes of the
    response.
  \<^item> \<open>Packet_System\<close>, \<open>Packet_Properties\<close>: the application over all its connections.  An event is at most one
    request, so the whole program on packets refines \<open>System\<close>, and what requests keep, packets keep.
  \<^item> \<open>System_Properties\<close>, over packets: the workers write what was sent; what a restart brings back and what it
    forgets; a session id that forges a row.
  \<^item> \<open>Hello_App\<close>: the small application, with a database that reads the statements, that the properties are
    applied to.

  \<^bold>\<open>Correspondence.\<close>  Definitions have the names of the functions of the code (a suffix where HOL has the
  name).  Objects are records.  Exceptions are \<open>Throw\<close>, failed assertions, null pointers, reads out of
  bounds and waits that nobody can end are \<open>Crash\<close>.  Objects that several parts hold (sessions,
  connections) are addresses into a heap.  Overlapping threads are steps of a relation (pool, workers,
  CORS); a handler is a function from its first line to its last.

  \<^bold>\<open>Bounds.\<close>  Loops of the code that may not end are \<open>partial_function (option)\<close>: \<open>parse_loop\<close>, the loops of
  the TLS layer, \<open>read_rows\<close>; that they end is proved, or when they do not.  \<open>poll\<close> counts the code's own
  60 turns, \<open>kPoolSize\<close> is 5, \<open>THREAD_NUM\<close> is 2, the body limit is a field of the server.  Sizes are \<open>nat\<close>; the code's
  conversions to \<open>int\<close>, \<open>unsigned\<close> and \<open>size_t\<close> are written out (\<open>int32\<close>, \<open>mod 2 ^ 32\<close>, \<open>64 word\<close>).

  \<^bold>\<open>Not modelled.\<close>  muduo (sockets, event loop, threads), OpenSSL, the MySQL driver, the JSON library,
  libcurl, RabbitMQ, OpenCV and ONNX are not in the repository: the definitions take their operations as
  arguments, and the theorems that rely on documented behaviour name it as a hypothesis, with an instance
  in the witness.  \<open>setThreadNum\<close> and \<open>getLoop\<close> only call muduo; the loop that \<open>start\<close> enters is \<open>server_run\<close> on a
  list of events, and a callback runs alone, as with one I/O thread.  Log output, the HTML pages and the
  test client are left out.  In \<open>System\<close> a request runs from its first to its last line between two steps of the
  workers, and the handler of a worker runs between two steps of the others; a channel that breaks while the
  handler runs shows at the acknowledgement, which is a step of its own.  Calls of other services (a model, the
  speech service) are assumed to come back, as \<open>curl_easy_perform\<close> need not: the code sets no time-out.
  The index of \<open>encode_loop\<close> in \<open>Base64\<close> is a \<open>nat\<close> where the code has a 32-bit one; behind the body limit
  of the server it does not wrap.
\<close>

end
